theory Spec2Isabelle
  imports Main "HOL-Library.Sublist"
begin

section \<open>Wire format\<close>

text \<open>
  Session descriptions and traversal candidates are opaque to the program; they are
  strings here. A signaling envelope is the parsed JSON object, one constructor per
  value of its \<open>type\<close> field, carrying the fields the program reads:
  \<open>Join roomId peerId peerName\<close>, \<open>RoomJoined roomId peers\<close>,
  \<open>PeerJoined peerId peerName\<close>, \<open>PeerLeft peerId peerName\<close>,
  \<open>Offer from fromName to offer\<close>, \<open>Answer from fromName to answer\<close>,
  \<open>IceCandidate from to candidate\<close>, \<open>RoomsList rooms\<close> with one
  \<open>(id, peerCount, peers)\<close> per room, \<open>Broadcast payload\<close>, the local bus's
  \<open>Announce peerId peerName\<close> and \<open>Leave peerId\<close>, and \<open>Other type\<close> for
  every type no \<open>switch\<close> names.
\<close>

type_synonym sdp = string
type_synonym candidate = string
type_synonym roomInfo = "string \<times> nat \<times> (string \<times> string) list"

datatype signal =
    Join string string string
  | RoomJoined string "(string \<times> string) list"
  | PeerJoined string string
  | PeerLeft string string
  | Offer string string string sdp
  | Answer string string string sdp
  | IceCandidate string string candidate
  | GetRooms
  | RoomsList "roomInfo list"
  | Broadcast string
  | Announce string string
  | Leave string
  | Other string

section \<open>JavaScript \<open>Map\<close> as an association list in insertion order\<close>

text \<open>
  \<open>Map.set\<close> replaces the value of a key that is present, in place, and appends a
  key that is absent; \<open>Map.delete\<close> removes the key; \<open>Map.get\<close> is
  \<open>map_of\<close>.
\<close>

fun map_set :: "('k \<times> 'v) list \<Rightarrow> 'k \<Rightarrow> 'v \<Rightarrow> ('k \<times> 'v) list" where
  "map_set [] k v = [(k, v)]"
| "map_set (kv # kvs) k v = (if fst kv = k then (k, v) # kvs else kv # map_set kvs k v)"

definition map_delete :: "('k \<times> 'v) list \<Rightarrow> 'k \<Rightarrow> ('k \<times> 'v) list" where
  "map_delete kvs k = filter (\<lambda>kv. fst kv \<noteq> k) kvs"

definition map_has :: "('k \<times> 'v) list \<Rightarrow> 'k \<Rightarrow> bool" where
  "map_has kvs k = (map_of kvs k \<noteq> None)"

section \<open>The signaling server (server/index.js)\<close>

text \<open>
  A socket is a number. A member of a room is the object \<open>{ ws, peerId, peerName }\<close>;
  the rooms are \<open>Set\<close>s of such objects, which compare by identity, so every
  object carries the number \<open>pi_obj\<close> it was allocated under. A \<open>Set\<close> is the
  list of its elements in insertion order. \<open>rooms\<close> is the module's table;
  \<open>currentRoom\<close> and \<open>peerInfo\<close> are the two variables of one connection's
  closure, both \<open>null\<close> at first.
\<close>

type_synonym sock = nat

record peer_info =
  pi_obj :: nat
  pi_ws :: sock
  pi_peerId :: string
  pi_peerName :: string

type_synonym roomTable = "(string \<times> peer_info list) list"

record server =
  rooms :: roomTable
  nextObj :: nat

record conn =
  currentRoom :: "string option"
  peerInfo :: "peer_info option"

definition server_init :: server where
  "server_init = \<lparr>rooms = [], nextObj = 0\<rparr>"

definition conn_init :: conn where
  "conn_init = \<lparr>currentRoom = None, peerInfo = None\<rparr>"

text \<open>\<open>room.delete(peerInfo)\<close>: removal by object identity.\<close>

definition set_delete :: "peer_info list \<Rightarrow> peer_info \<Rightarrow> peer_info list" where
  "set_delete room p = filter (\<lambda>q. pi_obj q \<noteq> pi_obj p) room"

text \<open>
  \<open>broadcastToRoom(roomId, message, excludeWs)\<close>. The result is the list of
  \<open>send\<close> calls, each a socket and what is sent to it. \<open>ready w\<close> says that
  socket \<open>w\<close> has \<open>readyState === 1\<close>.
\<close>

definition broadcastToRoom ::
  "(sock \<Rightarrow> bool) \<Rightarrow> roomTable \<Rightarrow> string \<Rightarrow> signal \<Rightarrow> sock option \<Rightarrow> (sock \<times> signal) list" where
  "broadcastToRoom ready rs roomId message excludeWs =
     (case map_of rs roomId of
        None \<Rightarrow> []
      | Some room \<Rightarrow>
          map (\<lambda>p. (pi_ws p, message))
            (filter (\<lambda>p. Some (pi_ws p) \<noteq> excludeWs \<and> ready (pi_ws p)) room))"

definition roomList :: "roomTable \<Rightarrow> roomInfo list" where
  "roomList rs =
     map (\<lambda>(roomId, peers).
            (roomId, length peers, map (\<lambda>p. (pi_peerId p, pi_peerName p)) peers)) rs"

text \<open>
  The \<open>join\<close> case. In the condition \<open>currentRoom && rooms.has(currentRoom)\<close>
  both \<open>null\<close> and the empty string are falsy. Leaving the current room reads
  \<open>peerInfo.peerId\<close>; were \<open>peerInfo\<close> \<open>null\<close> there, the TypeError would
  be caught by the handler's \<open>try\<close> with nothing done.
\<close>

definition leave_current ::
  "(sock \<Rightarrow> bool) \<Rightarrow> sock \<Rightarrow> roomTable \<Rightarrow> conn \<Rightarrow> (roomTable \<times> (sock \<times> signal) list) option" where
  "leave_current ready w rs c =
     (case currentRoom c of
        None \<Rightarrow> Some (rs, [])
      | Some cur \<Rightarrow>
          if cur \<noteq> [] \<and> map_has rs cur then
            (case (map_of rs cur, peerInfo c) of
               (Some room, Some p) \<Rightarrow>
                 (let rs1 = map_set rs cur (set_delete room p)
                  in Some (rs1, broadcastToRoom ready rs1 cur
                                  (PeerLeft (pi_peerId p) (pi_peerName p)) (Some w)))
             | _ \<Rightarrow> None)
          else Some (rs, []))"

definition join_case ::
  "(sock \<Rightarrow> bool) \<Rightarrow> sock \<Rightarrow> server \<times> conn \<Rightarrow> string \<Rightarrow> string \<Rightarrow> string
     \<Rightarrow> (server \<times> conn) \<times> (sock \<times> signal) list" where
  "join_case ready w sc roomId peerId peerName =
     (case leave_current ready w (rooms (fst sc)) (snd sc) of
        None \<Rightarrow> (sc, [])
      | Some (rs1, out1) \<Rightarrow>
          (let p = \<lparr>pi_obj = nextObj (fst sc), pi_ws = w,
                    pi_peerId = peerId, pi_peerName = peerName\<rparr>;
               rs2 = (if \<not> map_has rs1 roomId then map_set rs1 roomId [] else rs1);
               room = (case map_of rs2 roomId of None \<Rightarrow> [] | Some r \<Rightarrow> r);
               existingPeers = map (\<lambda>q. (pi_peerId q, pi_peerName q)) room;
               out2 = [(w, RoomJoined roomId existingPeers)];
               out3 = broadcastToRoom ready rs2 roomId (PeerJoined peerId peerName) (Some w);
               rs3 = map_set rs2 roomId (room @ [p])
           in ((\<lparr>rooms = rs3, nextObj = Suc (nextObj (fst sc))\<rparr>,
                \<lparr>currentRoom = Some roomId, peerInfo = Some p\<rparr>),
               out1 @ out2 @ out3)))"

text \<open>The \<open>offer\<close> / \<open>answer\<close> / \<open>ice-candidate\<close> case: relay to the first
  member of the sender's room whose \<open>peerId\<close> is the envelope's \<open>to\<close>.\<close>

definition relay_case :: "roomTable \<Rightarrow> conn \<Rightarrow> string \<Rightarrow> signal \<Rightarrow> (sock \<times> signal) list" where
  "relay_case rs c to message =
     (case currentRoom c of
        None \<Rightarrow> []
      | Some cur \<Rightarrow>
          (case map_of rs cur of
             None \<Rightarrow> []
           | Some room \<Rightarrow>
               (case find (\<lambda>p. pi_peerId p = to) room of
                  None \<Rightarrow> []
                | Some p \<Rightarrow> [(pi_ws p, message)])))"

text \<open>\<open>ws.on('message')\<close>, after \<open>JSON.parse\<close>.\<close>

fun on_message ::
  "(sock \<Rightarrow> bool) \<Rightarrow> sock \<Rightarrow> server \<times> conn \<Rightarrow> signal \<Rightarrow> (server \<times> conn) \<times> (sock \<times> signal) list" where
  "on_message ready w sc (Join roomId peerId peerName) = join_case ready w sc roomId peerId peerName"
| "on_message ready w sc (Offer from fromName to offer) =
     (sc, relay_case (rooms (fst sc)) (snd sc) to (Offer from fromName to offer))"
| "on_message ready w sc (Answer from fromName to answer) =
     (sc, relay_case (rooms (fst sc)) (snd sc) to (Answer from fromName to answer))"
| "on_message ready w sc (IceCandidate from to cand) =
     (sc, relay_case (rooms (fst sc)) (snd sc) to (IceCandidate from to cand))"
| "on_message ready w sc (Broadcast payload) =
     (sc, case currentRoom (snd sc) of
            None \<Rightarrow> []
          | Some cur \<Rightarrow> broadcastToRoom ready (rooms (fst sc)) cur (Broadcast payload) (Some w))"
| "on_message ready w sc GetRooms = (sc, [(w, RoomsList (roomList (rooms (fst sc))))])"
| "on_message ready w sc other = (sc, [])"

text \<open>\<open>ws.on('close')\<close>.\<close>

definition on_close ::
  "(sock \<Rightarrow> bool) \<Rightarrow> server \<times> conn \<Rightarrow> (server \<times> conn) \<times> (sock \<times> signal) list" where
  "on_close ready sc =
     (case (currentRoom (snd sc), peerInfo (snd sc)) of
        (Some cur, Some p) \<Rightarrow>
          (case map_of (rooms (fst sc)) cur of
             None \<Rightarrow> (sc, [])
           | Some room0 \<Rightarrow>
               if cur = [] then (sc, [])
               else
                 (let room = set_delete room0 p;
                      rs1 = map_set (rooms (fst sc)) cur room;
                      out = broadcastToRoom ready rs1 cur
                              (PeerLeft (pi_peerId p) (pi_peerName p)) None;
                      rs2 = (if length room = 0 then map_delete rs1 cur else rs1)
                  in (((fst sc)\<lparr>rooms := rs2\<rparr>, snd sc), out)))
      | _ \<Rightarrow> (sc, []))"

subsection \<open>The HTTP endpoints\<close>

datatype json =
    JString string
  | JNumber nat
  | JArray "json list"
  | JObject "(string \<times> json) list"

datatype body = NoBody | TextBody string | JsonBody json

record response =
  statusCode :: nat
  contentType :: "string option"
  body :: body

definition roomList_json :: "roomTable \<Rightarrow> json" where
  "roomList_json rs =
     JArray (map (\<lambda>(roomId, peers).
                   JObject [(''id'', JString roomId),
                            (''peerCount'', JNumber (length peers)),
                            (''peers'', JArray (map (\<lambda>p. JObject [(''id'', JString (pi_peerId p)),
                                                                   (''name'', JString (pi_peerName p))])
                                                  peers))]) rs)"

text \<open>The request listener of \<open>http.createServer\<close>, on the request's method and url.\<close>

definition httpServer :: "roomTable \<Rightarrow> string \<Rightarrow> string \<Rightarrow> response" where
  "httpServer rs method url =
     (if method = ''OPTIONS'' then \<lparr>statusCode = 200, contentType = None, body = NoBody\<rparr>
      else if url = ''/health'' then
        \<lparr>statusCode = 200, contentType = Some ''application/json'',
         body = JsonBody (JObject [(''status'', JString ''ok''), (''rooms'', JNumber (length rs))])\<rparr>
      else if url = ''/rooms'' then
        \<lparr>statusCode = 200, contentType = Some ''application/json'', body = JsonBody (roomList_json rs)\<rparr>
      else \<lparr>statusCode = 404, contentType = None, body = TextBody ''Not found''\<rparr>)"

section \<open>The connection primitive, as far as the managers drive it\<close>

text \<open>
  Of an \<open>RTCPeerConnection\<close> the model keeps the two descriptions and the candidates
  that \<open>addIceCandidate\<close> has accepted, in order. \<open>addIceCandidate\<close> rejects while no
  remote description is set, and the connection is then unchanged. What
  \<open>createOffer\<close> and \<open>createAnswer\<close> produce is up to the primitive: it is a
  parameter, a function of the remote peer's id (and of the offer answered).
\<close>

record rtcPeerConnection =
  localDescription :: "sdp option"
  remoteDescription :: "sdp option"
  iceCandidates :: "candidate list"

datatype readyState = ChConnecting | ChOpen | ChClosing | ChClosed

record rtcDataChannel =
  label :: string
  readyState :: readyState

datatype connectionState = New | Connecting | Connected | Disconnected | Failed | Closed

record primitive =
  createOffer :: "string \<Rightarrow> sdp"
  createAnswer :: "string \<Rightarrow> sdp \<Rightarrow> sdp"

definition new_RTCPeerConnection :: rtcPeerConnection where
  "new_RTCPeerConnection = \<lparr>localDescription = None, remoteDescription = None, iceCandidates = []\<rparr>"

definition setLocalDescription :: "rtcPeerConnection \<Rightarrow> sdp \<Rightarrow> rtcPeerConnection" where
  "setLocalDescription c d = c\<lparr>localDescription := Some d\<rparr>"

definition setRemoteDescription :: "rtcPeerConnection \<Rightarrow> sdp \<Rightarrow> rtcPeerConnection" where
  "setRemoteDescription c d = c\<lparr>remoteDescription := Some d\<rparr>"

definition addIceCandidate :: "rtcPeerConnection \<Rightarrow> candidate \<Rightarrow> rtcPeerConnection" where
  "addIceCandidate c cand =
     (if remoteDescription c = None then c
      else c\<lparr>iceCandidates := iceCandidates c @ [cand]\<rparr>)"

definition createDataChannel :: "string \<Rightarrow> rtcDataChannel" where
  "createDataChannel l = \<lparr>label = l, readyState = ChConnecting\<rparr>"

text \<open>The chat message; a channel carries its JSON serialisation, which the model
  identifies with the message.\<close>

record message =
  msg_id :: string
  sender :: string
  senderName :: string
  msg_text :: string
  timestamp :: nat

section \<open>MeshPeerManager (src/lib/MeshPeerManager.ts)\<close>

text \<open>
  \<open>PeerConnection\<close> is the record of one remote peer (fields \<open>id\<close>, \<open>name\<close>,
  \<open>pc\<close>, \<open>channel\<close>, \<open>connected\<close>). The manager's \<open>ws\<close> is \<open>None\<close> for
  \<open>null\<close> and otherwise says whether its \<open>readyState\<close> is \<open>OPEN\<close>. Every
  handler returns the new manager and the list of what it did to the outside: envelopes
  written to the socket, sends and closes on the handles of a peer, and the callbacks.
\<close>

record peerConnection =
  p_id :: string
  p_name :: string
  pc :: rtcPeerConnection
  channel :: "rtcDataChannel option"
  connected :: bool

record mesh =
  peerId :: string
  peerName :: string
  roomId :: string
  ws :: "bool option"
  peers :: "(string \<times> peerConnection) list"
  pendingCandidates :: "string \<rightharpoonup> candidate list"

datatype effect =
    WsSend signal
  | WsClose
  | ChannelSend string message
  | ChannelClose string
  | PcClose string
  | OnRoomJoined string "(string \<times> string) list"
  | OnPeerJoin string string
  | OnPeerLeave string string
  | OnConnectionChange "(string \<times> string \<times> bool) list"
  | OnRoomsList "roomInfo list"

definition new_MeshPeerManager :: "string \<Rightarrow> string \<Rightarrow> mesh" where
  "new_MeshPeerManager newId name =
     \<lparr>peerId = newId, peerName = name, roomId = [], ws = None, peers = [],
      pendingCandidates = Map.empty\<rparr>"

definition send :: "mesh \<Rightarrow> signal \<Rightarrow> effect list" where
  "send m msg = (if ws m = Some True then [WsSend msg] else [])"

definition notifyConnectionChange :: "mesh \<Rightarrow> effect list" where
  "notifyConnectionChange m =
     [OnConnectionChange (map (\<lambda>kp. (p_id (snd kp), p_name (snd kp), connected (snd kp))) (peers m))]"

definition createPeerConnection ::
  "primitive \<Rightarrow> mesh \<Rightarrow> string \<Rightarrow> string \<Rightarrow> bool \<Rightarrow> mesh \<times> peerConnection \<times> effect list" where
  "createPeerConnection E m remotePeerId remotePeerName mkOffer =
     (if mkOffer then
        (let offer = createOffer E remotePeerId;
             peerConn = \<lparr>p_id = remotePeerId, p_name = remotePeerName,
                         pc = setLocalDescription new_RTCPeerConnection offer,
                         channel = Some (createDataChannel ''chat''), connected = False\<rparr>
         in (m\<lparr>peers := map_set (peers m) remotePeerId peerConn\<rparr>, peerConn,
             send m (Offer (peerId m) (peerName m) remotePeerId offer)))
      else
        (let peerConn = \<lparr>p_id = remotePeerId, p_name = remotePeerName,
                         pc = new_RTCPeerConnection, channel = None, connected = False\<rparr>
         in (m\<lparr>peers := map_set (peers m) remotePeerId peerConn\<rparr>, peerConn, [])))"

definition pending :: "mesh \<Rightarrow> string \<Rightarrow> candidate list" where
  "pending m fromId = (case pendingCandidates m fromId of None \<Rightarrow> [] | Some q \<Rightarrow> q)"

definition handleOffer :: "primitive \<Rightarrow> mesh \<Rightarrow> string \<Rightarrow> string \<Rightarrow> sdp \<Rightarrow> mesh \<times> effect list" where
  "handleOffer E m fromId fromName offer =
     (let (m1, peer, e1) =
            (case map_of (peers m) fromId of
               Some p \<Rightarrow> (m, p, [])
             | None \<Rightarrow> createPeerConnection E m fromId fromName False);
          pc1 = setRemoteDescription (pc peer) offer;
          pc2 = foldl addIceCandidate pc1 (pending m1 fromId);
          answer = createAnswer E fromId offer;
          pc3 = setLocalDescription pc2 answer;
          m2 = m1\<lparr>peers := map_set (peers m1) fromId (peer\<lparr>pc := pc3\<rparr>),
                  pendingCandidates := (pendingCandidates m1)(fromId := None)\<rparr>
      in (m2, e1 @ send m2 (Answer (peerId m2) (peerName m2) fromId answer)))"

definition handleAnswer :: "mesh \<Rightarrow> string \<Rightarrow> sdp \<Rightarrow> mesh" where
  "handleAnswer m fromId answer =
     (case map_of (peers m) fromId of
        None \<Rightarrow> m
      | Some peer \<Rightarrow>
          (let pc1 = setRemoteDescription (pc peer) answer;
               pc2 = foldl addIceCandidate pc1 (pending m fromId)
           in m\<lparr>peers := map_set (peers m) fromId (peer\<lparr>pc := pc2\<rparr>),
                pendingCandidates := (pendingCandidates m)(fromId := None)\<rparr>))"

definition enqueue :: "mesh \<Rightarrow> string \<Rightarrow> candidate \<Rightarrow> mesh" where
  "enqueue m fromId cand =
     (let q = (if pendingCandidates m fromId = None then (pendingCandidates m)(fromId \<mapsto> [])
               else pendingCandidates m)
      in m\<lparr>pendingCandidates := q(fromId \<mapsto> (case q fromId of None \<Rightarrow> [] | Some l \<Rightarrow> l) @ [cand])\<rparr>)"

definition handleIceCandidate :: "mesh \<Rightarrow> string \<Rightarrow> candidate \<Rightarrow> mesh" where
  "handleIceCandidate m fromId cand =
     (case map_of (peers m) fromId of
        None \<Rightarrow> enqueue m fromId cand
      | Some peer \<Rightarrow>
          if remoteDescription (pc peer) \<noteq> None then
            m\<lparr>peers := map_set (peers m) fromId (peer\<lparr>pc := addIceCandidate (pc peer) cand\<rparr>)\<rparr>
          else enqueue m fromId cand)"

definition close_handles :: "peerConnection \<Rightarrow> effect list" where
  "close_handles peer =
     (case channel peer of None \<Rightarrow> [] | Some ch \<Rightarrow> [ChannelClose (p_id peer)]) @ [PcClose (p_id peer)]"

definition removePeer :: "mesh \<Rightarrow> string \<Rightarrow> mesh \<times> effect list" where
  "removePeer m rid =
     (case map_of (peers m) rid of
        None \<Rightarrow> (m, [])
      | Some peer \<Rightarrow>
          (let m1 = m\<lparr>peers := map_delete (peers m) rid\<rparr>
           in (m1, close_handles peer @ notifyConnectionChange m1)))"

text \<open>The loop of the \<open>room-joined\<close> case, one \<open>createPeerConnection\<close> after the other.\<close>

fun connect_all :: "primitive \<Rightarrow> mesh \<Rightarrow> (string \<times> string) list \<Rightarrow> mesh \<times> effect list" where
  "connect_all E m [] = (m, [])"
| "connect_all E m (peer # rest) =
     (case createPeerConnection E m (fst peer) (snd peer) True of
        (m1, peerConn, e1) \<Rightarrow>
          (case connect_all E m1 rest of (m2, e2) \<Rightarrow> (m2, e1 @ e2)))"

fun handleSignal :: "primitive \<Rightarrow> mesh \<Rightarrow> signal \<Rightarrow> mesh \<times> effect list" where
  "handleSignal E m (RoomJoined rid ps) =
     (case connect_all E (m\<lparr>roomId := rid\<rparr>) ps of
        (m1, e1) \<Rightarrow> (m1, OnRoomJoined rid ps # e1))"
| "handleSignal E m (PeerJoined pid pname) = (m, [OnPeerJoin pid pname])"
| "handleSignal E m (PeerLeft pid pname) =
     (case removePeer m pid of (m1, e1) \<Rightarrow> (m1, e1 @ [OnPeerLeave pid pname]))"
| "handleSignal E m (Offer from fromName to offer) = handleOffer E m from fromName offer"
| "handleSignal E m (Answer from fromName to answer) = (handleAnswer m from answer, [])"
| "handleSignal E m (IceCandidate from to cand) = (handleIceCandidate m from cand, [])"
| "handleSignal E m (RoomsList rs) = (m, [OnRoomsList rs])"
| "handleSignal E m other = (m, [])"

text \<open>
  The two lifecycle callbacks installed on a record. They are delivered here to the
  record the peer map holds under the remote id.
\<close>

definition set_connected :: "mesh \<Rightarrow> string \<Rightarrow> bool \<Rightarrow> mesh" where
  "set_connected m rid b =
     m\<lparr>peers := map (\<lambda>kp. if fst kp = rid then (fst kp, (snd kp)\<lparr>connected := b\<rparr>) else kp) (peers m)\<rparr>"

definition onconnectionstatechange :: "mesh \<Rightarrow> string \<Rightarrow> connectionState \<Rightarrow> mesh \<times> effect list" where
  "onconnectionstatechange m rid state =
     (if state = Connected then
        (let m1 = set_connected m rid True in (m1, notifyConnectionChange m1))
      else if state = Disconnected \<or> state = Failed \<or> state = Closed then
        (let m1 = set_connected m rid False in (m1, notifyConnectionChange m1))
      else (m, []))"

definition channel_onopen :: "mesh \<Rightarrow> string \<Rightarrow> mesh \<times> effect list" where
  "channel_onopen m rid =
     (let m1 = m\<lparr>peers := map (\<lambda>kp. if fst kp = rid
                                      then (fst kp, (snd kp)\<lparr>channel := map_option (\<lambda>ch. ch\<lparr>readyState := ChOpen\<rparr>) (channel (snd kp)),
                                                           connected := True\<rparr>)
                                      else kp) (peers m)\<rparr>
      in (m1, notifyConnectionChange m1))"

subsection \<open>Public API\<close>

definition joinRoom :: "mesh \<Rightarrow> string \<Rightarrow> mesh \<times> effect list" where
  "joinRoom m rid = (m\<lparr>roomId := rid\<rparr>, send m (Join rid (peerId m) (peerName m)))"

definition getRooms :: "mesh \<Rightarrow> effect list" where
  "getRooms m = send m GetRooms"

definition channel_open :: "peerConnection \<Rightarrow> bool" where
  "channel_open peer = (case channel peer of None \<Rightarrow> False | Some ch \<Rightarrow> readyState ch = ChOpen)"

text \<open>\<open>sendMessage(text)\<close>; \<open>newId\<close> is what \<open>generateId()\<close> returns and \<open>now\<close>
  what \<open>Date.now()\<close> returns.\<close>

definition sendMessage :: "string \<Rightarrow> nat \<Rightarrow> mesh \<Rightarrow> string \<Rightarrow> message \<times> effect list" where
  "sendMessage newId now m txt =
     (let msg = \<lparr>msg_id = newId, sender = peerId m, senderName = peerName m,
                 msg_text = txt, timestamp = now\<rparr>
      in (msg, concat (map (\<lambda>kp. if channel_open (snd kp) then [ChannelSend (fst kp) msg] else [])
                        (peers m))))"

definition disconnect :: "mesh \<Rightarrow> mesh \<times> effect list" where
  "disconnect m =
     (m\<lparr>peers := [], ws := None\<rparr>,
      concat (map (\<lambda>kp. close_handles (snd kp)) (peers m))
        @ (if ws m = None then [] else [WsClose]))"

definition getConnectedPeers :: "mesh \<Rightarrow> (string \<times> string \<times> bool) list" where
  "getConnectedPeers m =
     map (\<lambda>p. (p_id p, p_name p, True)) (filter connected (map snd (peers m)))"

section \<open>The popup's join (the \<open>joinRoom\<close> of the popup component)\<close>

text \<open>
  The popup trims the room id it is given, drops one that is empty after trimming, and
  upper-cases the rest before it calls the manager. \<open>String.prototype.trim\<close> and
  \<open>String.prototype.toUpperCase\<close> are built-ins of the language, not code of the
  repository: they are the two fields of a parameter.
\<close>

record stringPrototype =
  trim :: "string \<Rightarrow> string"
  toUpperCase :: "string \<Rightarrow> string"

definition popup_joinRoom :: "stringPrototype \<Rightarrow> mesh \<Rightarrow> string \<Rightarrow> mesh \<times> effect list" where
  "popup_joinRoom S m room =
     (if trim S room = [] then (m, []) else joinRoom m (toUpperCase S (trim S room)))"

section \<open>PeerManager, the local-broadcast variant\<close>

text \<open>
  \<open>Peer\<close> is the record of one remote peer (fields \<open>id\<close>, \<open>name\<close>,
  \<open>connection\<close>, \<open>channel\<close>, \<open>connected\<close>). What a handler does to the outside
  is again a list: signals posted on the broadcast channel, sends and closes on the
  handles of a peer, and the callbacks.
\<close>

record peer =
  l_id :: string
  l_name :: string
  connection :: rtcPeerConnection
  l_channel :: "rtcDataChannel option"
  l_connected :: bool

record peerManager =
  l_peerId :: string
  l_peerName :: string
  l_peers :: "(string \<times> peer) list"

datatype bus_effect =
    PostMessage signal
  | SignalChannelClose
  | LChannelSend string message
  | LChannelClose string
  | ConnectionClose string
  | LOnPeerJoin string string
  | LOnPeerLeave string
  | LOnConnectionChange bool nat

definition l_notifyConnectionChange :: "peerManager \<Rightarrow> bus_effect list" where
  "l_notifyConnectionChange m =
     (let connectedCount = length (filter l_connected (map snd (l_peers m)))
      in [LOnConnectionChange (connectedCount > 0) connectedCount])"

definition createConnection ::
  "primitive \<Rightarrow> peerManager \<Rightarrow> string \<Rightarrow> string \<Rightarrow> bool \<Rightarrow> peerManager \<times> peer \<times> bus_effect list" where
  "createConnection E m remotePeerId remotePeerName mkOffer =
     (if mkOffer then
        (let offer = createOffer E remotePeerId;
             p = \<lparr>l_id = remotePeerId, l_name = remotePeerName,
                  connection = setLocalDescription new_RTCPeerConnection offer,
                  l_channel = Some (createDataChannel ''chat''), l_connected = False\<rparr>
         in (m\<lparr>l_peers := map_set (l_peers m) remotePeerId p\<rparr>, p,
             [PostMessage (Offer (l_peerId m) (l_peerName m) remotePeerId offer)]))
      else
        (let p = \<lparr>l_id = remotePeerId, l_name = remotePeerName,
                  connection = new_RTCPeerConnection, l_channel = None, l_connected = False\<rparr>
         in (m\<lparr>l_peers := map_set (l_peers m) remotePeerId p\<rparr>, p, [])))"

definition l_handleOffer ::
  "primitive \<Rightarrow> peerManager \<Rightarrow> string \<Rightarrow> string \<Rightarrow> sdp \<Rightarrow> peerManager \<times> bus_effect list" where
  "l_handleOffer E m fromId fromName offer =
     (let (m1, p, e1) =
            (case map_of (l_peers m) fromId of
               Some q \<Rightarrow> (m, q, [])
             | None \<Rightarrow>
                 (case createConnection E m fromId fromName False of
                    (m', q, e) \<Rightarrow> (m', q, e @ [LOnPeerJoin fromId fromName])));
          answer = createAnswer E fromId offer;
          c1 = setLocalDescription (setRemoteDescription (connection p) offer) answer
      in (m1\<lparr>l_peers := map_set (l_peers m1) fromId (p\<lparr>connection := c1\<rparr>)\<rparr>,
          e1 @ [PostMessage (Answer (l_peerId m1) (l_peerName m1) fromId answer)]))"

definition l_handleAnswer :: "peerManager \<Rightarrow> string \<Rightarrow> sdp \<Rightarrow> peerManager" where
  "l_handleAnswer m fromId answer =
     (case map_of (l_peers m) fromId of
        None \<Rightarrow> m
      | Some p \<Rightarrow>
          m\<lparr>l_peers := map_set (l_peers m) fromId
                          (p\<lparr>connection := setRemoteDescription (connection p) answer\<rparr>)\<rparr>)"

definition l_handleIceCandidate :: "peerManager \<Rightarrow> string \<Rightarrow> candidate \<Rightarrow> peerManager" where
  "l_handleIceCandidate m fromId cand =
     (case map_of (l_peers m) fromId of
        None \<Rightarrow> m
      | Some p \<Rightarrow>
          m\<lparr>l_peers := map_set (l_peers m) fromId
                          (p\<lparr>connection := addIceCandidate (connection p) cand\<rparr>)\<rparr>)"

definition l_close_handles :: "peer \<Rightarrow> bus_effect list" where
  "l_close_handles p =
     (case l_channel p of None \<Rightarrow> [] | Some ch \<Rightarrow> [LChannelClose (l_id p)]) @ [ConnectionClose (l_id p)]"

definition l_removePeer :: "peerManager \<Rightarrow> string \<Rightarrow> peerManager \<times> bus_effect list" where
  "l_removePeer m rid =
     (case map_of (l_peers m) rid of
        None \<Rightarrow> (m, [])
      | Some p \<Rightarrow>
          (let m1 = m\<lparr>l_peers := map_delete (l_peers m) rid\<rparr>
           in (m1, l_close_handles p @ [LOnPeerLeave rid] @ l_notifyConnectionChange m1)))"

fun l_handleSignal :: "primitive \<Rightarrow> peerManager \<Rightarrow> signal \<Rightarrow> peerManager \<times> bus_effect list" where
  "l_handleSignal E m (Announce pid pname) =
     (if pid \<noteq> l_peerId m \<and> \<not> map_has (l_peers m) pid then
        (case createConnection E m pid pname True of
           (m1, p, e1) \<Rightarrow> (m1, e1 @ [LOnPeerJoin pid pname]))
      else (m, []))"
| "l_handleSignal E m (Offer from fromName to offer) =
     (if to = l_peerId m then l_handleOffer E m from fromName offer else (m, []))"
| "l_handleSignal E m (Answer from fromName to answer) =
     (if to = l_peerId m then (l_handleAnswer m from answer, []) else (m, []))"
| "l_handleSignal E m (IceCandidate from to cand) =
     (if to = l_peerId m then (l_handleIceCandidate m from cand, []) else (m, []))"
| "l_handleSignal E m (Leave pid) =
     (if pid \<noteq> l_peerId m then l_removePeer m pid else (m, []))"
| "l_handleSignal E m other = (m, [])"

definition l_set_connected :: "peerManager \<Rightarrow> string \<Rightarrow> bool \<Rightarrow> peerManager" where
  "l_set_connected m rid b =
     m\<lparr>l_peers := map (\<lambda>kp. if fst kp = rid then (fst kp, (snd kp)\<lparr>l_connected := b\<rparr>) else kp)
                      (l_peers m)\<rparr>"

definition l_onconnectionstatechange ::
  "peerManager \<Rightarrow> string \<Rightarrow> connectionState \<Rightarrow> peerManager \<times> bus_effect list" where
  "l_onconnectionstatechange m rid state =
     (if state = Connected then
        (let m1 = l_set_connected m rid True in (m1, l_notifyConnectionChange m1))
      else if state = Disconnected \<or> state = Failed \<or> state = Closed then
        (let m1 = l_set_connected m rid False;
             e1 = l_notifyConnectionChange m1
         in if state = Failed then
              (case l_removePeer m1 rid of (m2, e2) \<Rightarrow> (m2, e1 @ e2))
            else (m1, e1))
      else (m, []))"

definition l_channel_open :: "peer \<Rightarrow> bool" where
  "l_channel_open p = (case l_channel p of None \<Rightarrow> False | Some ch \<Rightarrow> readyState ch = ChOpen)"

definition l_sendMessage :: "string \<Rightarrow> nat \<Rightarrow> peerManager \<Rightarrow> string \<Rightarrow> message \<times> bus_effect list" where
  "l_sendMessage newId now m txt =
     (let msg = \<lparr>msg_id = newId, sender = l_peerId m, senderName = l_peerName m,
                 msg_text = txt, timestamp = now\<rparr>
      in (msg, concat (map (\<lambda>kp. if l_channel_open (snd kp) then [LChannelSend (fst kp) msg] else [])
                        (l_peers m))))"

definition leave :: "peerManager \<Rightarrow> peerManager \<times> bus_effect list" where
  "leave m =
     (m\<lparr>l_peers := []\<rparr>,
      [PostMessage (Leave (l_peerId m))]
        @ concat (map (\<lambda>kp. l_close_handles (snd kp)) (l_peers m))
        @ [SignalChannelClose])"

definition l_getConnectedPeers :: "peerManager \<Rightarrow> (string \<times> string) list" where
  "l_getConnectedPeers m =
     map (\<lambda>p. (l_id p, l_name p)) (filter l_connected (map snd (l_peers m)))"

section \<open>MeshPeerManager with handlers that overlap\<close>

text \<open>
  \<open>ws.onmessage\<close> calls \<open>handleSignal\<close> and does not wait for the promise it returns.
  A handler therefore runs only up to its next \<open>await\<close> of an operation of the
  connection primitive; the next envelope can be handled before that operation completes.
  The functions of the previous sections are the handlers run from the arrival of the
  envelope to their end with nothing in between. This section takes the handlers of the
  envelopes apart at those \<open>await\<close>s. A handler keeps what it read into its local
  variables, a record or an array, so records and arrays are objects in a store here.
\<close>

text \<open>
  The manager with its objects in a store. \<open>s_peers\<close> maps a peer id to the address of
  a \<open>PeerConnection\<close> object, \<open>s_pendingCandidates\<close> a peer id to the address of an
  array; \<open>s_objects\<close> and \<open>s_arrays\<close> hold the objects and the arrays, and
  \<open>s_fresh\<close> is the next unused address.
\<close>

record stored =
  s_peerId :: string
  s_peerName :: string
  s_roomId :: string
  s_ws :: "bool option"
  s_peers :: "(string \<times> nat) list"
  s_objects :: "nat \<rightharpoonup> peerConnection"
  s_pendingCandidates :: "string \<rightharpoonup> nat"
  s_arrays :: "nat \<rightharpoonup> candidate list"
  s_fresh :: nat

text \<open>
  A handler stopped at an \<open>await\<close>, with its local variables: the peer id, the address
  of the record it holds in \<open>peer\<close>, the description, and in the loops the address of
  the array it iterates and the index it is at. The constructors are, in this order,
  \<open>handleOffer\<close> at \<open>setRemoteDescription\<close>, at \<open>addIceCandidate\<close>, at
  \<open>createAnswer\<close> and at \<open>setLocalDescription\<close>; \<open>handleAnswer\<close> at
  \<open>setRemoteDescription\<close> and at \<open>addIceCandidate\<close>; \<open>handleIceCandidate\<close> at
  \<open>addIceCandidate\<close>; and \<open>createPeerConnection\<close> with an offer at \<open>createOffer\<close>
  and at \<open>setLocalDescription\<close>, with the peers the \<open>room-joined\<close> loop has still to
  visit.
\<close>

datatype task =
    OfferSetRemote string nat sdp
  | OfferAddCandidate string nat sdp nat nat
  | OfferCreateAnswer string nat sdp
  | OfferSetLocal string nat sdp
  | AnswerSetRemote string nat sdp
  | AnswerAddCandidate string nat nat nat
  | IceAddCandidate nat candidate
  | JoinCreateOffer nat string "(string \<times> string) list"
  | JoinSetLocal nat string sdp "(string \<times> string) list"

datatype action = Deliver signal | Resume nat

definition new_stored :: "string \<Rightarrow> string \<Rightarrow> bool option \<Rightarrow> stored" where
  "new_stored newId name sock =
     \<lparr>s_peerId = newId, s_peerName = name, s_roomId = [], s_ws = sock, s_peers = [],
      s_objects = Map.empty, s_pendingCandidates = Map.empty, s_arrays = Map.empty, s_fresh = 0\<rparr>"

definition s_send :: "stored \<Rightarrow> signal \<Rightarrow> effect list" where
  "s_send s msg = (if s_ws s = Some True then [WsSend msg] else [])"

definition array :: "stored \<Rightarrow> nat \<Rightarrow> candidate list" where
  "array s r = (case s_arrays s r of None \<Rightarrow> [] | Some l \<Rightarrow> l)"

text \<open>An operation of the primitive on the connection of the record at address \<open>a\<close>.\<close>

definition on_pc :: "stored \<Rightarrow> nat \<Rightarrow> (rtcPeerConnection \<Rightarrow> rtcPeerConnection) \<Rightarrow> stored" where
  "on_pc s a f =
     (case s_objects s a of
        None \<Rightarrow> s
      | Some p \<Rightarrow> s\<lparr>s_objects := (s_objects s)(a \<mapsto> p\<lparr>pc := f (pc p)\<rparr>)\<rparr>)"

definition new_record :: "stored \<Rightarrow> string \<Rightarrow> string \<Rightarrow> bool \<Rightarrow> stored \<times> nat" where
  "new_record s remotePeerId remotePeerName mkOffer =
     (let a = s_fresh s;
          peerConn = \<lparr>p_id = remotePeerId, p_name = remotePeerName, pc = new_RTCPeerConnection,
                      channel = (if mkOffer then Some (createDataChannel ''chat'') else None),
                      connected = False\<rparr>
      in (s\<lparr>s_objects := (s_objects s)(a \<mapsto> peerConn),
            s_peers := map_set (s_peers s) remotePeerId a,
            s_fresh := Suc a\<rparr>, a))"

definition s_enqueue :: "stored \<Rightarrow> string \<Rightarrow> candidate \<Rightarrow> stored" where
  "s_enqueue s fromId cand =
     (case s_pendingCandidates s fromId of
        None \<Rightarrow>
          s\<lparr>s_pendingCandidates := (s_pendingCandidates s)(fromId \<mapsto> s_fresh s),
            s_arrays := (s_arrays s)(s_fresh s \<mapsto> [cand]),
            s_fresh := Suc (s_fresh s)\<rparr>
      | Some r \<Rightarrow> s\<lparr>s_arrays := (s_arrays s)(r \<mapsto> array s r @ [cand])\<rparr>)"

definition s_notifyConnectionChange :: "stored \<Rightarrow> effect list" where
  "s_notifyConnectionChange s =
     [OnConnectionChange
        (concat (map (\<lambda>ka. case s_objects s (snd ka) of
                              None \<Rightarrow> []
                            | Some p \<Rightarrow> [(p_id p, p_name p, connected p)]) (s_peers s)))]"

definition s_removePeer :: "stored \<Rightarrow> string \<Rightarrow> stored \<times> effect list" where
  "s_removePeer s rid =
     (case map_of (s_peers s) rid of
        None \<Rightarrow> (s, [])
      | Some a \<Rightarrow>
          (let s1 = s\<lparr>s_peers := map_delete (s_peers s) rid\<rparr>
           in (s1, (case s_objects s a of None \<Rightarrow> [] | Some p \<Rightarrow> close_handles p)
                     @ s_notifyConnectionChange s1)))"

definition join_loop :: "stored \<Rightarrow> (string \<times> string) list \<Rightarrow> stored \<times> task option" where
  "join_loop s ps =
     (case ps of
        [] \<Rightarrow> (s, None)
      | p # rest \<Rightarrow>
          (case new_record s (fst p) (snd p) True of
             (s1, a) \<Rightarrow> (s1, Some (JoinCreateOffer a (fst p) rest))))"

text \<open>\<open>this.pendingCandidates.get(fromId) || []\<close>: the queued array itself, or a new empty
  array that the map does not hold.\<close>

definition pending_array :: "stored \<Rightarrow> string \<Rightarrow> stored \<times> nat" where
  "pending_array s fromId =
     (case s_pendingCandidates s fromId of
        Some r \<Rightarrow> (s, r)
      | None \<Rightarrow> (s\<lparr>s_arrays := (s_arrays s)(s_fresh s \<mapsto> []), s_fresh := Suc (s_fresh s)\<rparr>,
                 s_fresh s))"

text \<open>
  The \<open>for ... of\<close> loops over that array: at index \<open>i\<close> the loop either calls
  \<open>addIceCandidate\<close> and waits, or it is over, and the handler deletes the queue of
  \<open>fromId\<close> and goes on.
\<close>

definition offer_loop ::
  "stored \<Rightarrow> string \<Rightarrow> nat \<Rightarrow> sdp \<Rightarrow> nat \<Rightarrow> nat \<Rightarrow> stored \<times> task option \<times> effect list" where
  "offer_loop s fromId a offer r i =
     (if i < length (array s r) then (s, Some (OfferAddCandidate fromId a offer r i), [])
      else (s\<lparr>s_pendingCandidates := (s_pendingCandidates s)(fromId := None)\<rparr>,
            Some (OfferCreateAnswer fromId a offer), []))"

definition answer_loop ::
  "stored \<Rightarrow> string \<Rightarrow> nat \<Rightarrow> nat \<Rightarrow> nat \<Rightarrow> stored \<times> task option \<times> effect list" where
  "answer_loop s fromId a r i =
     (if i < length (array s r) then (s, Some (AnswerAddCandidate fromId a r i), [])
      else (s\<lparr>s_pendingCandidates := (s_pendingCandidates s)(fromId := None)\<rparr>, None, []))"

text \<open>
  \<open>deliver\<close> is \<open>handleSignal\<close> from the arrival of an envelope to the first
  \<open>await\<close> of the primitive (or to the end): it returns the handler that is left
  waiting, if any. \<open>resume\<close> is the same handler from the \<open>await\<close> it waits at, the
  awaited operation having taken effect, to the next one.
\<close>

fun deliver :: "primitive \<Rightarrow> stored \<Rightarrow> signal \<Rightarrow> stored \<times> task option \<times> effect list" where
  "deliver E s (RoomJoined rid ps) =
     (case join_loop (s\<lparr>s_roomId := rid\<rparr>) ps of (s1, t) \<Rightarrow> (s1, t, [OnRoomJoined rid ps]))"
| "deliver E s (PeerJoined pid pname) = (s, None, [OnPeerJoin pid pname])"
| "deliver E s (PeerLeft pid pname) =
     (case s_removePeer s pid of (s1, e1) \<Rightarrow> (s1, None, e1 @ [OnPeerLeave pid pname]))"
| "deliver E s (Offer from fromName to offer) =
     (case (case map_of (s_peers s) from of
              Some a \<Rightarrow> (s, a)
            | None \<Rightarrow> new_record s from fromName False) of
        (s1, a) \<Rightarrow> (s1, Some (OfferSetRemote from a offer), []))"
| "deliver E s (Answer from fromName to answer) =
     (case map_of (s_peers s) from of
        None \<Rightarrow> (s, None, [])
      | Some a \<Rightarrow> (s, Some (AnswerSetRemote from a answer), []))"
| "deliver E s (IceCandidate from to cand) =
     (case map_of (s_peers s) from of
        None \<Rightarrow> (s_enqueue s from cand, None, [])
      | Some a \<Rightarrow>
          (case s_objects s a of
             None \<Rightarrow> (s_enqueue s from cand, None, [])
           | Some p \<Rightarrow>
               if remoteDescription (pc p) \<noteq> None then (s, Some (IceAddCandidate a cand), [])
               else (s_enqueue s from cand, None, [])))"
| "deliver E s (RoomsList rs) = (s, None, [OnRoomsList rs])"
| "deliver E s other = (s, None, [])"

fun resume :: "primitive \<Rightarrow> stored \<Rightarrow> task \<Rightarrow> stored \<times> task option \<times> effect list" where
  "resume E s (OfferSetRemote fromId a offer) =
     (case pending_array (on_pc s a (\<lambda>c. setRemoteDescription c offer)) fromId of
        (s1, r) \<Rightarrow> offer_loop s1 fromId a offer r 0)"
| "resume E s (OfferAddCandidate fromId a offer r i) =
     offer_loop (on_pc s a (\<lambda>c. addIceCandidate c (array s r ! i))) fromId a offer r (Suc i)"
| "resume E s (OfferCreateAnswer fromId a offer) =
     (s, Some (OfferSetLocal fromId a (createAnswer E fromId offer)), [])"
| "resume E s (OfferSetLocal fromId a answer) =
     (on_pc s a (\<lambda>c. setLocalDescription c answer), None,
      s_send s (Answer (s_peerId s) (s_peerName s) fromId answer))"
| "resume E s (AnswerSetRemote fromId a answer) =
     (case pending_array (on_pc s a (\<lambda>c. setRemoteDescription c answer)) fromId of
        (s1, r) \<Rightarrow> answer_loop s1 fromId a r 0)"
| "resume E s (AnswerAddCandidate fromId a r i) =
     answer_loop (on_pc s a (\<lambda>c. addIceCandidate c (array s r ! i))) fromId a r (Suc i)"
| "resume E s (IceAddCandidate a cand) = (on_pc s a (\<lambda>c. addIceCandidate c cand), None, [])"
| "resume E s (JoinCreateOffer a remotePeerId rest) =
     (s, Some (JoinSetLocal a remotePeerId (createOffer E remotePeerId) rest), [])"
| "resume E s (JoinSetLocal a remotePeerId offer rest) =
     (case join_loop (on_pc s a (\<lambda>c. setLocalDescription c offer)) rest of
        (s1, t) \<Rightarrow> (s1, t, s_send s (Offer (s_peerId s) (s_peerName s) remotePeerId offer)))"

text \<open>
  A configuration is the manager, the handlers that wait, and what has been done to the
  outside so far. \<open>Deliver x\<close> is the arrival of \<open>x\<close> on the socket, \<open>Resume i\<close> the
  completion of the operation the \<open>i\<close>-th waiting handler awaits.
\<close>

type_synonym config = "stored \<times> task list \<times> effect list"

fun step :: "primitive \<Rightarrow> config \<Rightarrow> action \<Rightarrow> config" where
  "step E (s, pool, out) (Deliver x) =
     (case deliver E s x of
        (s1, t, e) \<Rightarrow> (s1, pool @ (case t of None \<Rightarrow> [] | Some t1 \<Rightarrow> [t1]), out @ e))"
| "step E (s, pool, out) (Resume i) =
     (if i < length pool then
        (case resume E s (pool ! i) of
           (s1, t, e) \<Rightarrow>
             (s1, (case t of None \<Rightarrow> take i pool @ drop (Suc i) pool | Some t1 \<Rightarrow> pool[i := t1]),
              out @ e))
      else (s, pool, out))"

definition run :: "primitive \<Rightarrow> config \<Rightarrow> action list \<Rightarrow> config" where
  "run E cfg acts = foldl (step E) cfg acts"

definition s_applied :: "stored \<Rightarrow> string \<Rightarrow> candidate list" where
  "s_applied s rid =
     (case map_of (s_peers s) rid of
        None \<Rightarrow> []
      | Some a \<Rightarrow> (case s_objects s a of None \<Rightarrow> [] | Some p \<Rightarrow> iceCandidates (pc p)))"

definition s_pending :: "stored \<Rightarrow> string \<Rightarrow> candidate list option" where
  "s_pending s rid = map_option (array s) (s_pendingCandidates s rid)"

section \<open>Observations used in the statements\<close>

text \<open>
  \<open>in_turn E m xs\<close> is the manager after the envelopes \<open>xs\<close> have been handled one at
  a time, the handler of each having run to its end before the next envelope is handled.
  (Lemma \<open>handled_in_turn\<close> shows that the scheduler of the previous section ends in
  the store that holds this manager when every handler ends before the next envelope
  arrives.)
  \<open>applied m rid\<close> is the list of candidates the connection of \<open>rid\<close>'s record has
  accepted, \<open>remote_unset m rid\<close> says that no record for \<open>rid\<close> has a remote
  description, and \<open>held m rid\<close> is what has been accepted followed by what is queued.
\<close>

definition in_turn :: "primitive \<Rightarrow> mesh \<Rightarrow> signal list \<Rightarrow> mesh" where
  "in_turn E m xs = foldl (\<lambda>s x. fst (handleSignal E s x)) m xs"

definition applied :: "mesh \<Rightarrow> string \<Rightarrow> candidate list" where
  "applied m rid = (case map_of (peers m) rid of None \<Rightarrow> [] | Some p \<Rightarrow> iceCandidates (pc p))"

definition remote_unset :: "mesh \<Rightarrow> string \<Rightarrow> bool" where
  "remote_unset m rid =
     (case map_of (peers m) rid of None \<Rightarrow> True | Some p \<Rightarrow> remoteDescription (pc p) = None)"

text \<open>
  Of an envelope \<open>x\<close> and a peer id \<open>k\<close>: \<open>describes x k\<close> says that \<open>x\<close> is an offer
  or an answer from \<open>k\<close>, and \<open>drains m x k\<close> that its handler applies a remote
  description for \<open>k\<close> in the manager \<open>m\<close> (an answer does so only when \<open>k\<close> has a
  record); \<open>arrived x k\<close> is the candidate \<open>x\<close> carries from \<open>k\<close>, if any, and
  \<open>cands k xs\<close> the candidates from \<open>k\<close> in \<open>xs\<close>, in order; \<open>replaces x k\<close> says
  that \<open>x\<close> removes the record of \<open>k\<close> or puts a new one in its place.
  \<open>queue_only_while_unset m k\<close> says that \<open>k\<close> has a queue only while it has no remote
  description.
\<close>

definition drains :: "mesh \<Rightarrow> signal \<Rightarrow> string \<Rightarrow> bool" where
  "drains m x k =
     (case x of
        Offer from fromName to offer \<Rightarrow> from = k
      | Answer from fromName to answer \<Rightarrow> from = k \<and> map_has (peers m) k
      | _ \<Rightarrow> False)"

definition arrived :: "signal \<Rightarrow> string \<Rightarrow> candidate list" where
  "arrived x k = (case x of IceCandidate from to cand \<Rightarrow> if from = k then [cand] else [] | _ \<Rightarrow> [])"






text \<open>A primitive and a freshly connected manager for the concrete runs.\<close>

definition ex_prim :: primitive where
  "ex_prim = \<lparr>createOffer = (\<lambda>rid. ''offer-for-'' @ rid),
              createAnswer = (\<lambda>rid offer. ''answer-to-'' @ offer)\<rparr>"

definition ex_mesh :: mesh where
  "ex_mesh = (new_MeshPeerManager ''me'' ''Me'')\<lparr>ws := Some True\<rparr>"

text \<open>
  The same manager with its objects in a store and no handler waiting, and a schedule
  that takes it to where it has offered to \<open>x\<close> and two candidates from \<open>x\<close> are queued.
  \<open>ex_queued\<close> is the manager that has offered to \<open>x\<close> and holds one queued candidate
  from \<open>x\<close>.
\<close>

definition ex_start :: config where
  "ex_start = (new_stored ''me'' ''Me'' (Some True), [], [])"

definition ex_waiting :: "action list" where
  "ex_waiting =
     [Deliver (RoomJoined ''R'' [(''x'', ''Xi'')]), Resume 0, Resume 0,
      Deliver (IceCandidate ''x'' ''me'' ''c1''), Deliver (IceCandidate ''x'' ''me'' ''c2'')]"

definition ex_queued :: mesh where
  "ex_queued =
     ex_mesh\<lparr>roomId := ''R'',
       peers := [(''x'', \<lparr>p_id = ''x'', p_name = ''Xi'',
                         pc = \<lparr>localDescription = Some ''offer-for-x'', remoteDescription = None,
                               iceCandidates = []\<rparr>,
                         channel = Some \<lparr>label = ''chat'', readyState = ChConnecting\<rparr>,
                         connected = False\<rparr>)],
       pendingCandidates := [''x'' \<mapsto> [''c1'']]\<rparr>"


text \<open>
  \<open>offering E rid ps\<close>: the peer map \<open>ps\<close> holds a record for \<open>rid\<close> in offering
  mode, with the data channel created and the offer as local description.
  \<open>offer_to E m p\<close> is the offer envelope addressed to the listed peer \<open>p\<close>, written
  to the socket; \<open>is_offer\<close> recognises an offer envelope written to the socket.
\<close>

definition offering :: "primitive \<Rightarrow> string \<Rightarrow> (string \<times> peerConnection) list \<Rightarrow> bool" where
  "offering E rid ps =
     (case map_of ps rid of
        None \<Rightarrow> False
      | Some r \<Rightarrow> channel r = Some (createDataChannel ''chat'')
                  \<and> localDescription (pc r) = Some (createOffer E rid)
                  \<and> remoteDescription (pc r) = None)"

definition is_offer :: "effect \<Rightarrow> bool" where
  "is_offer e = (case e of WsSend (Offer from fromName to offer) \<Rightarrow> True | _ \<Rightarrow> False)"

definition offer_to :: "primitive \<Rightarrow> mesh \<Rightarrow> string \<times> string \<Rightarrow> effect" where
  "offer_to E m p = WsSend (Offer (peerId m) (peerName m) (fst p) (createOffer E (fst p)))"

text \<open>
  \<open>keyed\<close> and \<open>l_keyed\<close>: every record sits in the peer map under its own
  \<open>id\<close>, as \<open>createPeerConnection\<close> and \<open>createConnection\<close> store it.
  \<open>is_send\<close> and \<open>is_post\<close> recognise an envelope written to the socket and a
  signal posted on the broadcast channel.
\<close>

definition keyed :: "mesh \<Rightarrow> bool" where
  "keyed m = list_all (\<lambda>kp. p_id (snd kp) = fst kp) (peers m)"

definition l_keyed :: "peerManager \<Rightarrow> bool" where
  "l_keyed m = list_all (\<lambda>kp. l_id (snd kp) = fst kp) (l_peers m)"

definition is_post :: "bus_effect \<Rightarrow> bool" where
  "is_post e = (case e of PostMessage x \<Rightarrow> True | _ \<Rightarrow> False)"

definition is_send :: "effect \<Rightarrow> bool" where
  "is_send e = (case e of WsSend x \<Rightarrow> True | _ \<Rightarrow> False)"

text \<open>Concrete managers for the runs: four records of which two have an open channel, a local
  manager with one connected peer, and a mesh manager whose channel to \<open>x\<close> has opened.\<close>

definition ex_three :: mesh where
  "ex_three =
     ex_mesh\<lparr>peers :=
       [(''a'', \<lparr>p_id = ''a'', p_name = ''Ann'', pc = new_RTCPeerConnection,
                channel = Some \<lparr>label = ''chat'', readyState = ChOpen\<rparr>, connected = True\<rparr>),
        (''b'', \<lparr>p_id = ''b'', p_name = ''Bob'', pc = new_RTCPeerConnection,
                channel = None, connected = False\<rparr>),
        (''c'', \<lparr>p_id = ''c'', p_name = ''Cy'', pc = new_RTCPeerConnection,
                channel = Some \<lparr>label = ''chat'', readyState = ChClosed\<rparr>, connected = False\<rparr>),
        (''d'', \<lparr>p_id = ''d'', p_name = ''Di'', pc = new_RTCPeerConnection,
                channel = Some \<lparr>label = ''chat'', readyState = ChOpen\<rparr>, connected = True\<rparr>)]\<rparr>"

definition ex_local :: peerManager where
  "ex_local =
     \<lparr>l_peerId = ''me'', l_peerName = ''Me'',
      l_peers = [(''x'', \<lparr>l_id = ''x'', l_name = ''Xi'', connection = new_RTCPeerConnection,
                         l_channel = Some \<lparr>label = ''chat'', readyState = ChOpen\<rparr>,
                         l_connected = True\<rparr>)]\<rparr>"

definition ex_joined :: mesh where
  "ex_joined =
     fst (channel_onopen (fst (handleSignal ex_prim ex_mesh (RoomJoined ''R'' [(''x'', ''Xi'')]))) ''x'')"

text \<open>
  \<open>room_of rs c\<close> is the member list of the room the connection \<open>c\<close> is in (empty
  when it is in none), \<open>members_of rs r\<close> that of room \<open>r\<close>. \<open>body_field\<close> reads a
  field of a JSON object body. \<open>wire\<close> keeps the envelopes a manager wrote to its
  socket, and \<open>client_to_server\<close> hands them to the server's message handler for that
  socket, one after the other, collecting what the server sends. \<open>signal_from\<close> is the
  \<open>from\<close> field of an envelope that has one.
\<close>

definition room_of :: "roomTable \<Rightarrow> conn \<Rightarrow> peer_info list" where
  "room_of rs c =
     (case currentRoom c of
        None \<Rightarrow> []
      | Some cur \<Rightarrow> (case map_of rs cur of None \<Rightarrow> [] | Some room \<Rightarrow> room))"

definition members_of :: "roomTable \<Rightarrow> string \<Rightarrow> peer_info list" where
  "members_of rs r = (case map_of rs r of None \<Rightarrow> [] | Some room \<Rightarrow> room)"

definition body_field :: "response \<Rightarrow> string \<Rightarrow> json option" where
  "body_field r k = (case body r of JsonBody (JObject fs) \<Rightarrow> map_of fs k | _ \<Rightarrow> None)"

definition wire :: "effect list \<Rightarrow> signal list" where
  "wire es = concat (map (\<lambda>e. case e of WsSend x \<Rightarrow> [x] | _ \<Rightarrow> []) es)"

definition client_to_server ::
  "(sock \<Rightarrow> bool) \<Rightarrow> sock \<Rightarrow> server \<times> conn \<Rightarrow> effect list
     \<Rightarrow> (server \<times> conn) \<times> (sock \<times> signal) list" where
  "client_to_server ready w sc es =
     foldl (\<lambda>acc x. case on_message ready w (fst acc) x of (sc1, out) \<Rightarrow> (sc1, snd acc @ out))
       (sc, []) (wire es)"

text \<open>A server with the sockets 1 and 2 joined to room \<open>R\<close> as \<open>p1\<close> and \<open>p2\<close> (the state
  is paired with the closure of socket 2), and a second connected manager.\<close>

definition ex_two :: "server \<times> conn" where
  "ex_two =
     fst (on_message (\<lambda>w. True) 2
            (fst (fst (on_message (\<lambda>w. True) 1 (server_init, conn_init) (Join ''R'' ''p1'' ''Ann''))),
             conn_init)
            (Join ''R'' ''p2'' ''Bob''))"

definition ex_mesh_b :: mesh where
  "ex_mesh_b = (new_MeshPeerManager ''b'' ''Bob'')\<lparr>ws := Some True\<rparr>"

text \<open>
  For the concrete runs, the two built-ins on strings of ASCII characters, where
  \<open>toUpperCase\<close> changes the letters a to z and \<open>trim\<close> strips tab, line feed,
  vertical tab, form feed, carriage return and space. They stand for the built-ins on
  such strings only.
\<close>

definition ascii_upper_char :: "char \<Rightarrow> char" where
  "ascii_upper_char c =
     (if 97 \<le> (of_char c :: nat) \<and> (of_char c :: nat) \<le> 122
      then char_of ((of_char c :: nat) - 32) else c)"

definition ascii_space :: "char \<Rightarrow> bool" where
  "ascii_space c = ((of_char c :: nat) = 32 \<or> (9 \<le> (of_char c :: nat) \<and> (of_char c :: nat) \<le> 13))"

definition ascii_strings :: stringPrototype where
  "ascii_strings =
     \<lparr>trim = (\<lambda>s. rev (dropWhile ascii_space (rev (dropWhile ascii_space s)))),
      toUpperCase = map ascii_upper_char\<rparr>"

definition signal_from :: "signal \<Rightarrow> string option" where
  "signal_from x =
     (case x of
        Offer from fromName to offer \<Rightarrow> Some from
      | Answer from fromName to answer \<Rightarrow> Some from
      | IceCandidate from to cand \<Rightarrow> Some from
      | _ \<Rightarrow> None)"

section \<open>The store read as the manager of the earlier sections\<close>

text \<open>
  \<open>view s\<close> is the manager, in the form of the section on \<open>MeshPeerManager\<close>, that the
  store \<open>s\<close> holds: the peer map with the object at each address in place of the address
  (\<open>recs\<close>), and the queue map with the array at each address in place of the address.
  \<open>store_ok s\<close> says of a store what allocation keeps true of it: no two peer ids share
  a record object and no two share an array, every address in the two maps is below
  \<open>s_fresh\<close>, and every record address holds an object.
\<close>

definition recs :: "(nat \<rightharpoonup> peerConnection) \<Rightarrow> (string \<times> nat) list \<Rightarrow> (string \<times> peerConnection) list" where
  "recs H kas = concat (map (\<lambda>ka. case H (snd ka) of None \<Rightarrow> [] | Some p \<Rightarrow> [(fst ka, p)]) kas)"

definition view :: "stored \<Rightarrow> mesh" where
  "view s =
     \<lparr>peerId = s_peerId s, peerName = s_peerName s, roomId = s_roomId s, ws = s_ws s,
      peers = recs (s_objects s) (s_peers s),
      pendingCandidates = (\<lambda>k. map_option (array s) (s_pendingCandidates s k))\<rparr>"

definition store_ok :: "stored \<Rightarrow> bool" where
  "store_ok s =
     (distinct (map snd (s_peers s))
      \<and> list_all (\<lambda>ka. snd ka < s_fresh s \<and> s_objects s (snd ka) \<noteq> None) (s_peers s)
      \<and> (\<forall>k r. s_pendingCandidates s k = Some r \<longrightarrow> r < s_fresh s)
      \<and> (\<forall>k k' r. s_pendingCandidates s k = Some r \<longrightarrow> s_pendingCandidates s k' = Some r \<longrightarrow> k = k'))"

text \<open>
  \<open>drive E n c\<close> lets the operation that the one waiting handler awaits complete,
  \<open>n\<close> times or until that handler has ended, and \<open>waiting t\<close> is the pool that holds
  the handler \<open>t\<close>, if there is one. \<open>turns m x\<close> counts the operations of the primitive
  that the handler of \<open>x\<close> awaits in the manager \<open>m\<close>: \<open>createOffer\<close> and
  \<open>setLocalDescription\<close> for each peer of a \<open>room-joined\<close> list;
  \<open>setRemoteDescription\<close>, one \<open>addIceCandidate\<close> for each queued candidate,
  \<open>createAnswer\<close> and \<open>setLocalDescription\<close> for an offer;
  \<open>setRemoteDescription\<close> and one \<open>addIceCandidate\<close> for each queued candidate for an
  answer from a peer that has a record; one \<open>addIceCandidate\<close> for a candidate that is
  applied at once. \<open>serial E m xs\<close> is the schedule on which the envelopes \<open>xs\<close> arrive
  one at a time, the next only after the handler of the one before has ended.
\<close>

fun drive ::
  "primitive \<Rightarrow> nat \<Rightarrow> stored \<times> task option \<times> effect list \<Rightarrow> stored \<times> task option \<times> effect list" where
  "drive E 0 c = c"
| "drive E (Suc n) (s, None, e) = (s, None, e)"
| "drive E (Suc n) (s, Some t, e) =
     (case resume E s t of (s1, t1, e1) \<Rightarrow> drive E n (s1, t1, e @ e1))"

definition waiting :: "task option \<Rightarrow> task list" where
  "waiting t = (case t of None \<Rightarrow> [] | Some t1 \<Rightarrow> [t1])"

fun turns :: "mesh \<Rightarrow> signal \<Rightarrow> nat" where
  "turns m (RoomJoined rid ps) = 2 * length ps"
| "turns m (Offer from fromName to offer) = 3 + length (pending m from)"
| "turns m (Answer from fromName to answer) =
     (if map_has (peers m) from then 1 + length (pending m from) else 0)"
| "turns m (IceCandidate from to cand) = (if remote_unset m from then 0 else 1)"
| "turns m other = 0"

fun serial :: "primitive \<Rightarrow> mesh \<Rightarrow> signal list \<Rightarrow> action list" where
  "serial E m [] = []"
| "serial E m (x # xs) =
     Deliver x # replicate (turns m x) (Resume 0) @ serial E (fst (handleSignal E m x)) xs"

text \<open>
  \<open>loop_of t\<close> is the peer id whose queue the waiting handler \<open>t\<close> is about to read
  or is iterating: a \<open>handleOffer\<close> or a \<open>handleAnswer\<close> stopped at
  \<open>setRemoteDescription\<close> or at an \<open>addIceCandidate\<close> of its loop.
\<close>

fun loop_of :: "task \<Rightarrow> string option" where
  "loop_of (OfferSetRemote fromId a offer) = Some fromId"
| "loop_of (OfferAddCandidate fromId a offer r i) = Some fromId"
| "loop_of (AnswerSetRemote fromId a answer) = Some fromId"
| "loop_of (AnswerAddCandidate fromId a r i) = Some fromId"
| "loop_of t = None"

section \<open>Properties\<close>

subsection \<open>Association lists\<close>

lemma map_of_map_set: "map_of (map_set kvs k v) = (map_of kvs)(k \<mapsto> v)"
  by (induction kvs) (auto simp: fun_eq_iff)

lemma map_of_map_delete: "map_of (map_delete kvs k) = (map_of kvs)(k := None)"
  by (induction kvs) (auto simp: map_delete_def fun_eq_iff)

subsection \<open>Candidates arriving before the remote description\<close>

lemma addIceCandidate_set:
  "remoteDescription c \<noteq> None \<Longrightarrow> addIceCandidate c x = c\<lparr>iceCandidates := iceCandidates c @ [x]\<rparr>"
  by (simp add: addIceCandidate_def)

lemma foldl_addIceCandidate:
  "remoteDescription c \<noteq> None \<Longrightarrow>
   foldl addIceCandidate c cs = c\<lparr>iceCandidates := iceCandidates c @ cs\<rparr>"
proof (induction cs arbitrary: c)
  case Nil
  then show ?case by simp
next
  case (Cons x xs)
  let ?c1 = "c\<lparr>iceCandidates := iceCandidates c @ [x]\<rparr>"
  have c1: "addIceCandidate c x = ?c1"
    using Cons.prems by (rule addIceCandidate_set)
  have "remoteDescription ?c1 \<noteq> None"
    using Cons.prems by simp
  from Cons.IH [OF this] show ?case
    by (simp add: c1)
qed

lemma enqueue_pending: "pending (enqueue m f c) f = pending m f @ [c]"
  by (simp add: enqueue_def pending_def Let_def split: option.splits)

lemma enqueue_peers: "peers (enqueue m f c) = peers m"
  by (simp add: enqueue_def Let_def)

lemma handleIceCandidate_unset:
  "remote_unset m f \<Longrightarrow> handleIceCandidate m f c = enqueue m f c"
  by (simp add: handleIceCandidate_def remote_unset_def split: option.splits)



lemma handleOffer_drains:
  "applied (fst (handleOffer E m f n offer)) f = applied m f @ pending m f
   \<and> pending (fst (handleOffer E m f n offer)) f = []
   \<and> pendingCandidates (fst (handleOffer E m f n offer)) f = None
   \<and> \<not> remote_unset (fst (handleOffer E m f n offer)) f"
  by (auto simp: handleOffer_def createPeerConnection_def Let_def applied_def pending_def
      remote_unset_def map_of_map_set foldl_addIceCandidate setRemoteDescription_def
      setLocalDescription_def new_RTCPeerConnection_def split: option.splits)

lemma handleAnswer_drains:
  "map_of (peers m) f \<noteq> None \<Longrightarrow>
   applied (handleAnswer m f answer) f = applied m f @ pending m f
   \<and> pending (handleAnswer m f answer) f = []
   \<and> pendingCandidates (handleAnswer m f answer) f = None
   \<and> \<not> remote_unset (handleAnswer m f answer) f"
  by (auto simp: handleAnswer_def Let_def applied_def pending_def
      remote_unset_def map_of_map_set foldl_addIceCandidate setRemoteDescription_def
      split: option.splits)

subsection \<open>Who offers\<close>

lemma createPeerConnection_offer:
  "createPeerConnection E m rid rname True = (m1, r, e) \<Longrightarrow>
   ws m1 = ws m \<and> peerId m1 = peerId m \<and> peerName m1 = peerName m
   \<and> pendingCandidates m1 = pendingCandidates m
   \<and> map_of (peers m1) = (map_of (peers m))(rid \<mapsto> r)
   \<and> e = send m (Offer (peerId m) (peerName m) rid (createOffer E rid))
   \<and> channel r = Some (createDataChannel ''chat'')
   \<and> localDescription (pc r) = Some (createOffer E rid)
   \<and> remoteDescription (pc r) = None"
  by (auto simp: createPeerConnection_def Let_def map_of_map_set setLocalDescription_def
      new_RTCPeerConnection_def)

lemma connect_all_frame:
  "ws (fst (connect_all E m ps)) = ws m
   \<and> peerId (fst (connect_all E m ps)) = peerId m
   \<and> peerName (fst (connect_all E m ps)) = peerName m
   \<and> (rid \<notin> fst ` set ps \<longrightarrow>
        map_of (peers (fst (connect_all E m ps))) rid = map_of (peers m) rid)"
proof (induction ps arbitrary: m)
  case Nil
  then show ?case by simp
next
  case (Cons p ps)
  obtain m1 r e where c: "createPeerConnection E m (fst p) (snd p) True = (m1, r, e)"
    by (metis prod_cases3)
  note f = createPeerConnection_offer [OF c]
  show ?case
    using Cons.IH [of m1] f by (auto simp: c split: prod.splits)
qed

lemma connect_all_effects:
  "ws m = Some True \<Longrightarrow> snd (connect_all E m ps) = map (offer_to E m) ps"
proof (induction ps arbitrary: m)
  case Nil
  then show ?case by simp
next
  case (Cons p ps)
  obtain m1 r e where c: "createPeerConnection E m (fst p) (snd p) True = (m1, r, e)"
    by (metis prod_cases3)
  note f = createPeerConnection_offer [OF c]
  have "snd (connect_all E m1 ps) = map (offer_to E m1) ps"
    using Cons.IH [of m1] f Cons.prems by simp
  then show ?case
    using f Cons.prems by (auto simp: c offer_to_def send_def split: prod.splits)
qed

lemma connect_all_offering:
  "rid \<in> fst ` set ps \<Longrightarrow> offering E rid (peers (fst (connect_all E m ps)))"
proof (induction ps arbitrary: m)
  case Nil
  then show ?case by simp
next
  case (Cons p ps)
  obtain m1 r e where c: "createPeerConnection E m (fst p) (snd p) True = (m1, r, e)"
    by (metis prod_cases3)
  note f = createPeerConnection_offer [OF c]
  have split: "fst (connect_all E m (p # ps)) = fst (connect_all E m1 ps)"
    by (simp add: c split: prod.splits)
  show ?case
  proof (cases "rid \<in> fst ` set ps")
    case True
    then show ?thesis
      unfolding split by (rule Cons.IH)
  next
    case False
    then have "rid = fst p" using Cons.prems by auto
    moreover have "map_of (peers (fst (connect_all E m1 ps))) rid = map_of (peers m1) rid"
      using connect_all_frame [of E m1 ps rid] False by simp
    ultimately show ?thesis
      unfolding split using f by (simp add: offering_def)
  qed
qed

lemma handleOffer_no_offer: "list_all (\<lambda>e. \<not> is_offer e) (snd (handleOffer E m f n offer))"
  by (auto simp: handleOffer_def createPeerConnection_def Let_def send_def is_offer_def
      split: option.splits)

lemma removePeer_no_offer: "list_all (\<lambda>e. \<not> is_offer e) (snd (removePeer m rid))"
  by (auto simp: removePeer_def close_handles_def notifyConnectionChange_def Let_def is_offer_def
      split: option.splits)

text \<open>
  C2. With the socket open, handling \<open>room-joined\<close> writes exactly one offer envelope
  per listed peer, in the order listed and addressed to that peer, and leaves for every
  listed peer a record in offering mode (data channel created, the offer set as local
  description). Handling \<open>peer-joined\<close> changes nothing in the manager and writes
  nothing to the socket; it only calls the peer-join callback. No envelope other than
  \<open>room-joined\<close> makes the manager write an offer.
\<close>

theorem newcomer_offers_incumbent_waits:
  assumes "ws m = Some True"
  shows "snd (handleSignal E m (RoomJoined rid ps)) = OnRoomJoined rid ps # map (offer_to E m) ps
       \<and> (\<forall>p \<in> set ps. offering E (fst p) (peers (fst (handleSignal E m (RoomJoined rid ps)))))
       \<and> handleSignal E m (PeerJoined pid pname) = (m, [OnPeerJoin pid pname])
       \<and> ((case x of RoomJoined r l \<Rightarrow> False | _ \<Rightarrow> True)
            \<longrightarrow> list_all (\<lambda>e. \<not> is_offer e) (snd (handleSignal E m x)))"
proof -
  let ?m0 = "m\<lparr>roomId := rid\<rparr>"
  have eff: "snd (connect_all E ?m0 ps) = map (offer_to E ?m0) ps"
    using assms by (intro connect_all_effects) simp
  have same: "offer_to E ?m0 = offer_to E m"
    by (simp add: offer_to_def fun_eq_iff)
  have a: "snd (handleSignal E m (RoomJoined rid ps)) = OnRoomJoined rid ps # map (offer_to E m) ps"
    using eff same by (auto split: prod.splits)
  have st: "fst (handleSignal E m (RoomJoined rid ps)) = fst (connect_all E ?m0 ps)"
    by (simp split: prod.splits)
  have b: "\<forall>p \<in> set ps. offering E (fst p) (peers (fst (handleSignal E m (RoomJoined rid ps))))"
    unfolding st by (auto intro: connect_all_offering)
  have d: "(case x of RoomJoined r l \<Rightarrow> False | _ \<Rightarrow> True)
            \<longrightarrow> list_all (\<lambda>e. \<not> is_offer e) (snd (handleSignal E m x))"
  proof -
    have pl: "\<And>a b. snd (handleSignal E m (PeerLeft a b)) = snd (removePeer m a) @ [OnPeerLeave a b]"
      by (simp split: prod.splits)
    have cb: "\<And>a b. \<not> is_offer (OnPeerLeave a b)" "\<And>a b. \<not> is_offer (OnPeerJoin a b)"
      "\<And>r. \<not> is_offer (OnRoomsList r)"
      by (simp_all add: is_offer_def)
    show ?thesis
      by (cases x) (simp_all add: pl cb handleOffer_no_offer removePeer_no_offer del: handleSignal.simps(3))
  qed
  show ?thesis
    using a b d by simp
qed

theorem newcomer_offers_incumbent_waits_witness:
  "ws ex_mesh = Some True
   \<and> handleSignal ex_prim ex_mesh (RoomJoined ''R'' [(''a'', ''Ann''), (''b'', ''Bob'')])
       = (ex_mesh\<lparr>roomId := ''R'',
            peers := [(''a'', \<lparr>p_id = ''a'', p_name = ''Ann'',
                             pc = \<lparr>localDescription = Some ''offer-for-a'', remoteDescription = None,
                                   iceCandidates = []\<rparr>,
                             channel = Some \<lparr>label = ''chat'', readyState = ChConnecting\<rparr>,
                             connected = False\<rparr>),
                      (''b'', \<lparr>p_id = ''b'', p_name = ''Bob'',
                             pc = \<lparr>localDescription = Some ''offer-for-b'', remoteDescription = None,
                                   iceCandidates = []\<rparr>,
                             channel = Some \<lparr>label = ''chat'', readyState = ChConnecting\<rparr>,
                             connected = False\<rparr>)]\<rparr>,
          [OnRoomJoined ''R'' [(''a'', ''Ann''), (''b'', ''Bob'')],
           WsSend (Offer ''me'' ''Me'' ''a'' ''offer-for-a''),
           WsSend (Offer ''me'' ''Me'' ''b'' ''offer-for-b'')])
   \<and> offering ex_prim ''a''
        (peers (fst (handleSignal ex_prim ex_mesh (RoomJoined ''R'' [(''a'', ''Ann''), (''b'', ''Bob'')]))))
   \<and> handleSignal ex_prim ex_mesh (PeerJoined ''c'' ''Cy'') = (ex_mesh, [OnPeerJoin ''c'' ''Cy''])
   \<and> list_all (\<lambda>e. \<not> is_offer e) (snd (handleSignal ex_prim ex_mesh (Offer ''c'' ''Cy'' ''me'' ''o'')))"
proof -
  have w: "ws ex_mesh = Some True"
    by (simp add: ex_mesh_def)
  have run: "fst (handleSignal ex_prim ex_mesh (RoomJoined ''R'' [(''a'', ''Ann''), (''b'', ''Bob'')]))
       = ex_mesh\<lparr>roomId := ''R'',
            peers := [(''a'', \<lparr>p_id = ''a'', p_name = ''Ann'',
                             pc = \<lparr>localDescription = Some ''offer-for-a'', remoteDescription = None,
                                   iceCandidates = []\<rparr>,
                             channel = Some \<lparr>label = ''chat'', readyState = ChConnecting\<rparr>,
                             connected = False\<rparr>),
                      (''b'', \<lparr>p_id = ''b'', p_name = ''Bob'',
                             pc = \<lparr>localDescription = Some ''offer-for-b'', remoteDescription = None,
                                   iceCandidates = []\<rparr>,
                             channel = Some \<lparr>label = ''chat'', readyState = ChConnecting\<rparr>,
                             connected = False\<rparr>)]\<rparr>"
    by (simp add: ex_mesh_def ex_prim_def new_MeshPeerManager_def createPeerConnection_def Let_def
        setLocalDescription_def new_RTCPeerConnection_def createDataChannel_def send_def)
  have eq: "\<And>p. p = (fst p, snd p)" by simp
  show ?thesis
    using newcomer_offers_incumbent_waits
      [OF w, of ex_prim "''R''" "[(''a'', ''Ann''), (''b'', ''Bob'')]" "''c''" "''Cy''"
         "Offer ''c'' ''Cy'' ''me'' ''o''"] w run
    by (simp add: offer_to_def prod_eq_iff) (simp add: ex_mesh_def ex_prim_def new_MeshPeerManager_def)
qed

subsection \<open>Queues and accepted candidates, envelope by envelope\<close>

lemma handleOffer_other:
  "k \<noteq> f \<Longrightarrow>
   pendingCandidates (fst (handleOffer E m f n offer)) k = pendingCandidates m k
   \<and> map_of (peers (fst (handleOffer E m f n offer))) k = map_of (peers m) k"
  by (auto simp: handleOffer_def createPeerConnection_def Let_def map_of_map_set split: option.splits)

lemma handleAnswer_other:
  "k \<noteq> f \<Longrightarrow>
   pendingCandidates (handleAnswer m f answer) k = pendingCandidates m k
   \<and> map_of (peers (handleAnswer m f answer)) k = map_of (peers m) k"
  by (auto simp: handleAnswer_def Let_def map_of_map_set split: option.splits)

lemma handleAnswer_absent:
  "map_of (peers m) f = None \<Longrightarrow> handleAnswer m f answer = m"
  by (simp add: handleAnswer_def)

lemma enqueue_other: "k \<noteq> f \<Longrightarrow> pendingCandidates (enqueue m f c) k = pendingCandidates m k"
  by (simp add: enqueue_def Let_def)

lemma enqueue_queue: "pendingCandidates (enqueue m f c) f = Some (pending m f @ [c])"
  by (simp add: enqueue_def pending_def Let_def split: option.splits)

lemma handleIceCandidate_other:
  "k \<noteq> f \<Longrightarrow>
   pendingCandidates (handleIceCandidate m f c) k = pendingCandidates m k
   \<and> map_of (peers (handleIceCandidate m f c)) k = map_of (peers m) k"
  by (auto simp: handleIceCandidate_def enqueue_other enqueue_peers map_of_map_set
      split: option.splits)

lemma handleIceCandidate_set:
  "\<not> remote_unset m f \<Longrightarrow>
   pendingCandidates (handleIceCandidate m f c) f = pendingCandidates m f
   \<and> applied (handleIceCandidate m f c) f = applied m f @ [c]
   \<and> \<not> remote_unset (handleIceCandidate m f c) f
   \<and> map_has (peers (handleIceCandidate m f c)) f"
  by (auto simp: handleIceCandidate_def remote_unset_def applied_def map_of_map_set map_has_def
      addIceCandidate_def split: option.splits)

lemma removePeer_view:
  "pendingCandidates (fst (removePeer m p)) = pendingCandidates m
   \<and> map_of (peers (fst (removePeer m p))) = (map_of (peers m))(p := None)"
  by (auto simp: removePeer_def Let_def map_of_map_delete fun_eq_iff split: option.splits)


lemma connect_all_Cons_fst:
  "fst (connect_all E m (p # ps))
   = fst (connect_all E (fst (createPeerConnection E m (fst p) (snd p) True)) ps)"
  by (simp split: prod.splits)

lemma handleSignal_RoomJoined_fst:
  "fst (handleSignal E m (RoomJoined rid ps)) = fst (connect_all E (m\<lparr>roomId := rid\<rparr>) ps)"
  by (simp split: prod.splits)

lemma handleSignal_PeerLeft_fst:
  "fst (handleSignal E m (PeerLeft pid pname)) = fst (removePeer m pid)"
  by (simp split: prod.splits)

lemma connect_all_pending: "pendingCandidates (fst (connect_all E m ps)) = pendingCandidates m"
proof (induction ps arbitrary: m)
  case Nil
  then show ?case by simp
next
  case (Cons p ps)
  obtain m1 r e where c: "createPeerConnection E m (fst p) (snd p) True = (m1, r, e)"
    by (metis prod_cases3)
  have "pendingCandidates m1 = pendingCandidates m"
    using createPeerConnection_offer [OF c] by simp
  then show ?case
    using Cons.IH [of m1] by (simp add: connect_all_Cons_fst c del: connect_all.simps)
qed


lemma roomId_update_view:
  "pendingCandidates (m\<lparr>roomId := r\<rparr>) = pendingCandidates m \<and> peers (m\<lparr>roomId := r\<rparr>) = peers m"
  by simp

text \<open>What one envelope does to the queue of \<open>k\<close>.\<close>

lemma handleSignal_queue:
  "pendingCandidates (fst (handleSignal E m x)) k
   = (if drains m x k then None
      else if arrived x k \<noteq> [] \<and> remote_unset m k then Some (pending m k @ arrived x k)
      else pendingCandidates m k)"
proof (cases x)
  case (RoomJoined rid ps)
  then show ?thesis
    using connect_all_pending [of E "m\<lparr>roomId := rid\<rparr>" ps]
    by (simp add: handleSignal_RoomJoined_fst handleSignal_PeerLeft_fst drains_def arrived_def del: handleSignal.simps)
next
  case (PeerLeft pid pname)
  then show ?thesis
    using removePeer_view [of m pid] by (simp add: handleSignal_RoomJoined_fst handleSignal_PeerLeft_fst drains_def arrived_def del: handleSignal.simps)
next
  case (Offer f fn to d)
  show ?thesis
  proof (cases "f = k")
    case True
    then show ?thesis
      using Offer handleOffer_drains [of E m f fn d] by (simp add: drains_def arrived_def)
  next
    case False
    then show ?thesis
      using Offer handleOffer_other [of k f E m fn d] by (simp add: drains_def arrived_def)
  qed
next
  case (Answer f fn to d)
  show ?thesis
  proof (cases "f = k")
    case True
    then show ?thesis
      using Answer handleAnswer_drains [of m f d] handleAnswer_absent [of m f d]
      by (cases "map_of (peers m) f") (simp_all add: drains_def arrived_def map_has_def)
  next
    case False
    then show ?thesis
      using Answer handleAnswer_other [of k f m d] by (simp add: drains_def arrived_def)
  qed
next
  case (IceCandidate f to c)
  show ?thesis
  proof (cases "f = k")
    case True
    then show ?thesis
      using IceCandidate handleIceCandidate_unset [of m f c] enqueue_queue [of m f c]
        handleIceCandidate_set [of m f c]
      by (cases "remote_unset m f") (simp_all add: drains_def arrived_def)
  next
    case False
    then show ?thesis
      using IceCandidate handleIceCandidate_other [of k f m c] by (simp add: drains_def arrived_def)
  qed
qed (simp_all add: drains_def arrived_def)















text \<open>
  The store with waiting handlers, on the two orders of one arrival: once \<open>c1\<close> and
  \<open>c2\<close> are queued for \<open>x\<close>, an answer from \<open>x\<close> whose handler has run to its
  end before an offer from \<open>x\<close> arrives leaves the connection with \<open>c1\<close>, \<open>c2\<close>.
\<close>

lemma the_same_envelopes_in_turn:
  "s_pending (fst (run ex_prim ex_start ex_waiting)) ''x'' = Some [''c1'', ''c2'']
   \<and> s_applied
     (fst (run ex_prim ex_start
        (ex_waiting
         @ [Deliver (Answer ''x'' ''Xi'' ''me'' ''a''), Resume 0, Resume 0, Resume 0,
            Deliver (Offer ''x'' ''Xi'' ''me'' ''o''), Resume 0, Resume 0, Resume 0])))
     ''x''
   = [''c1'', ''c2'']"
  by (simp add: run_def ex_start_def ex_waiting_def new_stored_def join_loop_def new_record_def
      on_pc_def s_send_def s_enqueue_def array_def pending_array_def offer_loop_def answer_loop_def
      s_applied_def s_pending_def Let_def setLocalDescription_def setRemoteDescription_def
      addIceCandidate_def new_RTCPeerConnection_def ex_prim_def)


subsection \<open>Handlers that run to their end, in the store\<close>

text \<open>
  The store and the manager of the earlier sections agree whenever no handler overlaps
  another: delivering an envelope and letting its handler end is \<open>handleSignal\<close> on
  the manager the store holds, with the same effects on the outside, and the schedule
  \<open>serial\<close> takes the store to \<open>in_turn\<close>.
\<close>

lemma recs_Nil [simp]: "recs H [] = []"
  by (simp add: recs_def)

lemma recs_Cons:
  "recs H (ka # kas) = (case H (snd ka) of None \<Rightarrow> [] | Some p \<Rightarrow> [(fst ka, p)]) @ recs H kas"
  by (simp add: recs_def)

lemma recs_append: "recs H (xs @ ys) = recs H xs @ recs H ys"
  by (simp add: recs_def)

lemma map_of_recs:
  "list_all (\<lambda>ka. H (snd ka) \<noteq> None) kas \<Longrightarrow>
   map_of (recs H kas) k = (case map_of kas k of None \<Rightarrow> None | Some a \<Rightarrow> H a)"
  by (induction kas) (auto simp: recs_Cons split: option.splits)

lemma recs_fresh: "a \<notin> snd ` set kas \<Longrightarrow> recs (H(a \<mapsto> p)) kas = recs H kas"
  by (induction kas) (auto simp: recs_Cons)

lemma recs_update:
  "distinct (map snd kas) \<Longrightarrow> list_all (\<lambda>ka. H (snd ka) \<noteq> None) kas \<Longrightarrow>
   map_of kas k = Some a \<Longrightarrow>
   recs (H(a \<mapsto> p)) kas = map_set (recs H kas) k p"
proof (induction kas)
  case Nil
  then show ?case by simp
next
  case (Cons ka kas)
  obtain k0 a0 where ka: "ka = (k0, a0)" by (cases ka)
  obtain p0 where p0: "H a0 = Some p0" using Cons.prems(2) ka by auto
  show ?case
  proof (cases "k0 = k")
    case True
    then have aa: "a0 = a" using Cons.prems(3) ka by simp
    have "a \<notin> snd ` set kas" using Cons.prems(1) ka aa by auto
    then have r: "recs (H(a \<mapsto> p)) kas = recs H kas" by (rule recs_fresh)
    have l: "recs (H(a \<mapsto> p)) (ka # kas) = (k, p) # recs H kas"
      unfolding recs_Cons r using True ka aa by simp
    have "map_set (recs H (ka # kas)) k p = (k, p) # recs H kas"
      unfolding recs_Cons using True ka p0 by simp
    then show ?thesis using l by (simp only:)
  next
    case False
    then have m: "map_of kas k = Some a" using Cons.prems(3) ka by simp
    then have "(k, a) \<in> set kas" by (rule map_of_SomeD)
    then have "a \<in> snd ` set kas" by force
    then have ne: "a0 \<noteq> a" using Cons.prems(1) ka by auto
    have d': "distinct (map snd kas)" using Cons.prems(1) by simp
    have l': "list_all (\<lambda>ka. H (snd ka) \<noteq> None) kas" using Cons.prems(2) by simp
    have ih: "recs (H(a \<mapsto> p)) kas = map_set (recs H kas) k p"
      by (rule Cons.IH [OF d' l' m])
    have l: "recs (H(a \<mapsto> p)) (ka # kas) = (k0, p0) # map_set (recs H kas) k p"
      unfolding recs_Cons ih using ka p0 ne by simp
    have "map_set (recs H (ka # kas)) k p = (k0, p0) # map_set (recs H kas) k p"
      unfolding recs_Cons using False ka p0 by simp
    then show ?thesis using l by (simp only:)
  qed
qed

lemma recs_map_set_new:
  "a \<notin> snd ` set kas \<Longrightarrow> list_all (\<lambda>ka. H (snd ka) \<noteq> None) kas \<Longrightarrow>
   recs (H(a \<mapsto> p)) (map_set kas k a) = map_set (recs H kas) k p"
proof (induction kas)
  case Nil
  then show ?case by (simp add: recs_Cons)
next
  case (Cons ka kas)
  obtain k0 a0 where ka: "ka = (k0, a0)" by (cases ka)
  obtain p0 where p0: "H a0 = Some p0" using Cons.prems(2) ka by auto
  have ne: "a0 \<noteq> a" and rest: "a \<notin> snd ` set kas" using Cons.prems(1) ka by auto
  have r: "recs (H(a \<mapsto> p)) kas = recs H kas" using rest by (rule recs_fresh)
  show ?case
  proof (cases "k0 = k")
    case True
    have ms: "map_set (ka # kas) k a = (k, a) # kas" using True ka by simp
    have l: "recs (H(a \<mapsto> p)) (map_set (ka # kas) k a) = (k, p) # recs H kas"
      unfolding ms recs_Cons r by simp
    have "map_set (recs H (ka # kas)) k p = (k, p) # recs H kas"
      unfolding recs_Cons using True ka p0 by simp
    then show ?thesis using l by (simp only:)
  next
    case False
    have ms: "map_set (ka # kas) k a = ka # map_set kas k a" using False ka by simp
    have l': "list_all (\<lambda>ka. H (snd ka) \<noteq> None) kas" using Cons.prems(2) by simp
    have ih: "recs (H(a \<mapsto> p)) (map_set kas k a) = map_set (recs H kas) k p"
      by (rule Cons.IH [OF rest l'])
    have l: "recs (H(a \<mapsto> p)) (map_set (ka # kas) k a) = (k0, p0) # map_set (recs H kas) k p"
      unfolding ms recs_Cons ih using ka p0 ne by simp
    have "map_set (recs H (ka # kas)) k p = (k0, p0) # map_set (recs H kas) k p"
      unfolding recs_Cons using False ka p0 by simp
    then show ?thesis using l by (simp only:)
  qed
qed

lemma recs_map_delete: "recs H (map_delete kas k) = map_delete (recs H kas) k"
  by (induction kas) (auto simp: recs_Cons map_delete_def split: option.splits)

lemma map_set_twice: "map_set (map_set kvs k v) k w = map_set kvs k w"
  by (induction kvs) auto

lemma set_map_set_subset: "snd ` set (map_set kas k a) \<subseteq> insert a (snd ` set kas)"
  by (induction kas) auto

lemma distinct_map_set_new:
  "distinct (map snd kas) \<Longrightarrow> a \<notin> snd ` set kas \<Longrightarrow> distinct (map snd (map_set kas k a))"
proof (induction kas)
  case Nil
  then show ?case by simp
next
  case (Cons ka kas)
  show ?case
    using Cons set_map_set_subset [of kas k a] by (auto split: if_splits)
qed

lemma array_frame [simp]:
  "array (s\<lparr>s_objects := x\<rparr>) = array s"
  "array (s\<lparr>s_peers := y\<rparr>) = array s"
  "array (s\<lparr>s_fresh := z\<rparr>) = array s"
  "array (s\<lparr>s_pendingCandidates := w\<rparr>) = array s"
  "array (s\<lparr>s_roomId := v\<rparr>) = array s"
  by (simp_all add: array_def fun_eq_iff)

lemma array_arrays [simp]: "array (s\<lparr>s_arrays := (s_arrays s)(r \<mapsto> l)\<rparr>) = (array s)(r := l)"
  by (simp add: array_def fun_eq_iff)

lemma s_enqueue_new:
  "s_pendingCandidates s f = None \<Longrightarrow>
   s_pendingCandidates (s_enqueue s f c) = (s_pendingCandidates s)(f \<mapsto> s_fresh s)
   \<and> array (s_enqueue s f c) = (array s)(s_fresh s := [c])
   \<and> s_peers (s_enqueue s f c) = s_peers s \<and> s_objects (s_enqueue s f c) = s_objects s
   \<and> s_fresh (s_enqueue s f c) = Suc (s_fresh s)
   \<and> s_peerId (s_enqueue s f c) = s_peerId s \<and> s_peerName (s_enqueue s f c) = s_peerName s
   \<and> s_roomId (s_enqueue s f c) = s_roomId s \<and> s_ws (s_enqueue s f c) = s_ws s"
  by (simp add: s_enqueue_def array_def fun_eq_iff)

lemma s_enqueue_old:
  "s_pendingCandidates s f = Some r \<Longrightarrow>
   s_pendingCandidates (s_enqueue s f c) = s_pendingCandidates s
   \<and> array (s_enqueue s f c) = (array s)(r := array s r @ [c])
   \<and> s_peers (s_enqueue s f c) = s_peers s \<and> s_objects (s_enqueue s f c) = s_objects s
   \<and> s_fresh (s_enqueue s f c) = s_fresh s
   \<and> s_peerId (s_enqueue s f c) = s_peerId s \<and> s_peerName (s_enqueue s f c) = s_peerName s
   \<and> s_roomId (s_enqueue s f c) = s_roomId s \<and> s_ws (s_enqueue s f c) = s_ws s"
  by (simp add: s_enqueue_def array_def fun_eq_iff)

lemma store_ok_addresses: "store_ok s \<Longrightarrow> s_fresh s \<notin> snd ` set (s_peers s)"
  by (auto simp: store_ok_def list_all_iff)

lemma store_ok_defined: "store_ok s \<Longrightarrow> list_all (\<lambda>ka. s_objects s (snd ka) \<noteq> None) (s_peers s)"
  by (auto simp: store_ok_def list_all_iff)

lemma view_lookup:
  "store_ok s \<Longrightarrow>
   map_of (peers (view s)) k = (case map_of (s_peers s) k of None \<Rightarrow> None | Some a \<Rightarrow> s_objects s a)"
  using map_of_recs [OF store_ok_defined, of s k] by (simp add: view_def)

text \<open>An operation on the connection of a record changes that record in the view, and nothing else.\<close>

lemma view_on_pc:
  assumes "store_ok s" and "map_of (s_peers s) k = Some a" and "s_objects s a = Some p"
  shows "view (on_pc s a g) = (view s)\<lparr>peers := map_set (peers (view s)) k (p\<lparr>pc := g (pc p)\<rparr>)\<rparr>"
    and "store_ok (on_pc s a g)"
    and "s_objects (on_pc s a g) a = Some (p\<lparr>pc := g (pc p)\<rparr>)"
    and "s_peers (on_pc s a g) = s_peers s"
    and "array (on_pc s a g) = array s"
    and "s_pendingCandidates (on_pc s a g) = s_pendingCandidates s"
proof -
  have d: "distinct (map snd (s_peers s))" using assms(1) by (simp add: store_ok_def)
  show "view (on_pc s a g) = (view s)\<lparr>peers := map_set (peers (view s)) k (p\<lparr>pc := g (pc p)\<rparr>)\<rparr>"
    using recs_update [OF d store_ok_defined [OF assms(1)] assms(2), of "p\<lparr>pc := g (pc p)\<rparr>"] assms(3)
    by (simp add: on_pc_def view_def)
  show "store_ok (on_pc s a g)"
    using assms(1,3) by (auto simp: store_ok_def on_pc_def list_all_iff)
  show "s_objects (on_pc s a g) a = Some (p\<lparr>pc := g (pc p)\<rparr>)"
    using assms(3) by (simp add: on_pc_def)
  show "s_peers (on_pc s a g) = s_peers s" "array (on_pc s a g) = array s"
    "s_pendingCandidates (on_pc s a g) = s_pendingCandidates s"
    using assms(3) by (simp_all add: on_pc_def)
qed

text \<open>A new record under \<open>k\<close> is \<open>Map.set\<close> on the peer map of the view.\<close>

lemma view_new_record:
  assumes "store_ok s" and "new_record s k n b = (s1, a)"
  shows "view s1 =
           (view s)\<lparr>peers := map_set (peers (view s)) k
              \<lparr>p_id = k, p_name = n, pc = new_RTCPeerConnection,
               channel = (if b then Some (createDataChannel ''chat'') else None),
               connected = False\<rparr>\<rparr>"
    and "store_ok s1"
    and "map_of (s_peers s1) k = Some a"
    and "s_objects s1 a = Some \<lparr>p_id = k, p_name = n, pc = new_RTCPeerConnection,
               channel = (if b then Some (createDataChannel ''chat'') else None),
               connected = False\<rparr>"
proof -
  let ?r = "\<lparr>p_id = k, p_name = n, pc = new_RTCPeerConnection,
               channel = (if b then Some (createDataChannel ''chat'') else None),
               connected = False\<rparr>"
  have s1: "s1 = s\<lparr>s_objects := (s_objects s)(s_fresh s \<mapsto> ?r),
            s_peers := map_set (s_peers s) k (s_fresh s), s_fresh := Suc (s_fresh s)\<rparr>"
    and a: "a = s_fresh s"
    using assms(2) by (auto simp: new_record_def Let_def)
  note fr = store_ok_addresses [OF assms(1)]
  show "view s1 = (view s)\<lparr>peers := map_set (peers (view s)) k ?r\<rparr>"
    using recs_map_set_new [OF fr store_ok_defined [OF assms(1)], of ?r k]
    by (simp add: s1 view_def)
  have d: "distinct (map snd (map_set (s_peers s) k (s_fresh s)))"
    using assms(1) fr by (intro distinct_map_set_new) (simp_all add: store_ok_def)
  have mem: "\<And>ka. ka \<in> set (map_set (s_peers s) k (s_fresh s)) \<Longrightarrow>
                snd ka = s_fresh s \<or> snd ka \<in> snd ` set (s_peers s)"
    using set_map_set_subset [of "s_peers s" k "s_fresh s"] by auto
  have old: "\<And>b. b \<in> snd ` set (s_peers s) \<Longrightarrow> b < s_fresh s \<and> s_objects s b \<noteq> None"
    using assms(1) by (auto simp: store_ok_def list_all_iff)
  have all: "list_all (\<lambda>ka. snd ka < Suc (s_fresh s)
                 \<and> ((s_objects s)(s_fresh s \<mapsto> ?r)) (snd ka) \<noteq> None)
               (map_set (s_peers s) k (s_fresh s))"
    unfolding list_all_iff using mem old by (metis fun_upd_apply less_Suc_eq option.distinct(1))
  have qs: "(\<forall>k r. s_pendingCandidates s k = Some r \<longrightarrow> r < Suc (s_fresh s))
      \<and> (\<forall>k k' r. s_pendingCandidates s k = Some r \<longrightarrow> s_pendingCandidates s k' = Some r \<longrightarrow> k = k')"
    using assms(1) by (auto simp: store_ok_def less_Suc_eq)
  show "store_ok s1"
    using d all qs by (simp add: s1 store_ok_def)
  show "map_of (s_peers s1) k = Some a"
    by (simp add: s1 a map_of_map_set)
  show "s_objects s1 a = Some ?r"
    by (simp add: s1 a)
qed

lemma enqueue_view: "pendingCandidates (enqueue m f c) = (pendingCandidates m)(f \<mapsto> pending m f @ [c])"
  by (auto simp: enqueue_def pending_def Let_def fun_eq_iff split: option.splits)

lemma enqueue_eq: "enqueue m f c = m\<lparr>pendingCandidates := (pendingCandidates m)(f \<mapsto> pending m f @ [c])\<rparr>"
  by (auto simp: enqueue_def pending_def Let_def fun_eq_iff split: option.splits)

text \<open>Queueing a candidate in the store is queueing it in the view.\<close>

lemma view_enqueue:
  assumes "store_ok s"
  shows "view (s_enqueue s f c) = enqueue (view s) f c" and "store_ok (s_enqueue s f c)"
proof -
  show "view (s_enqueue s f c) = enqueue (view s) f c"
  proof (cases "s_pendingCandidates s f")
    case None
    have ne: "\<And>k r. s_pendingCandidates s k = Some r \<Longrightarrow> r \<noteq> s_fresh s"
      using assms by (auto simp: store_ok_def)
    note e = s_enqueue_new [OF None, of c]
    have "map_option (array (s_enqueue s f c)) (s_pendingCandidates (s_enqueue s f c) k)
          = ((\<lambda>k. map_option (array s) (s_pendingCandidates s k))(f \<mapsto> [c])) k" for k
    proof (cases "s_pendingCandidates s k")
      case None
      then show ?thesis using e by simp
    next
      case (Some r')
      then have "k \<noteq> f" "r' \<noteq> s_fresh s" using \<open>s_pendingCandidates s f = None\<close> ne by auto
      then show ?thesis using e Some by simp
    qed
    then have "(\<lambda>k. map_option (array (s_enqueue s f c)) (s_pendingCandidates (s_enqueue s f c) k))
          = (\<lambda>k. map_option (array s) (s_pendingCandidates s k))(f \<mapsto> [c])"
      by (rule ext)
    then show ?thesis
      using e None by (simp add: enqueue_eq view_def pending_def)
  next
    case (Some r)
    have ne: "\<And>k r'. k \<noteq> f \<Longrightarrow> s_pendingCandidates s k = Some r' \<Longrightarrow> r' \<noteq> r"
      using assms Some by (auto simp: store_ok_def)
    note e = s_enqueue_old [OF Some, of c]
    have "map_option (array (s_enqueue s f c)) (s_pendingCandidates (s_enqueue s f c) k)
          = ((\<lambda>k. map_option (array s) (s_pendingCandidates s k))(f \<mapsto> array s r @ [c])) k" for k
    proof (cases "k = f")
      case True
      then show ?thesis using e Some by simp
    next
      case False
      show ?thesis
      proof (cases "s_pendingCandidates s k")
        case None
        then show ?thesis using e False by simp
      next
        case (Some r')
        then have "r' \<noteq> r" using ne [OF False] by simp
        then show ?thesis using e False Some by simp
      qed
    qed
    then have "(\<lambda>k. map_option (array (s_enqueue s f c)) (s_pendingCandidates (s_enqueue s f c) k))
          = (\<lambda>k. map_option (array s) (s_pendingCandidates s k))(f \<mapsto> array s r @ [c])"
      by (rule ext)
    then show ?thesis
      using e Some by (simp add: enqueue_eq view_def pending_def)
  qed
  show "store_ok (s_enqueue s f c)"
  proof (cases "s_pendingCandidates s f")
    case None
    show ?thesis
      using assms s_enqueue_new [OF None, of c]
      by (auto simp: store_ok_def list_all_iff less_Suc_eq split: if_splits)
  next
    case (Some r)
    show ?thesis
      using assms s_enqueue_old [OF Some, of c] by (simp add: store_ok_def)
  qed
qed

lemma drive_None [simp]: "drive E n (s, None, e) = (s, None, e)"
  by (cases n) simp_all

lemma map_set_same: "map_of kvs k = Some v \<Longrightarrow> map_set kvs k v = kvs"
  by (induction kvs) (auto split: if_splits)

lemma view_delete_queue:
  "view (s\<lparr>s_pendingCandidates := (s_pendingCandidates s)(f := None)\<rparr>)
   = (view s)\<lparr>pendingCandidates := (pendingCandidates (view s))(f := None)\<rparr>"
  by (simp add: view_def fun_eq_iff)

lemma store_ok_delete_queue:
  "store_ok s \<Longrightarrow> store_ok (s\<lparr>s_pendingCandidates := (s_pendingCandidates s)(f := None)\<rparr>)"
  by (simp add: store_ok_def)

lemma view_pending: "pending (view s) f = (case s_pendingCandidates s f of None \<Rightarrow> [] | Some r \<Rightarrow> array s r)"
  by (simp add: pending_def view_def split: option.splits)

lemma pending_array_props:
  assumes "store_ok s" and "pending_array s f = (s1, r)"
  shows "view s1 = view s" and "store_ok s1" and "array s1 r = pending (view s) f"
    and "s_peers s1 = s_peers s" and "s_objects s1 = s_objects s"
proof -
  show "s_peers s1 = s_peers s" "s_objects s1 = s_objects s"
    using assms(2) by (auto simp: pending_array_def split: option.splits)
  show "array s1 r = pending (view s) f"
    using assms(2) by (auto simp: pending_array_def view_pending array_def split: option.splits)
  show "store_ok s1"
  proof (cases "s_pendingCandidates s f")
    case None
    have s1: "s1 = s\<lparr>s_arrays := (s_arrays s)(s_fresh s \<mapsto> []), s_fresh := Suc (s_fresh s)\<rparr>"
      using assms(2) None by (auto simp: pending_array_def)
    have "list_all (\<lambda>ka. snd ka < Suc (s_fresh s) \<and> s_objects s (snd ka) \<noteq> None) (s_peers s)"
      using assms(1) unfolding store_ok_def list_all_iff by (simp add: less_Suc_eq)
    moreover have "\<forall>k r. s_pendingCandidates s k = Some r \<longrightarrow> r < Suc (s_fresh s)"
      using assms(1) unfolding store_ok_def by (simp add: less_Suc_eq)
    ultimately show ?thesis
      using assms(1) unfolding s1 store_ok_def by simp
  next
    case (Some r')
    then show ?thesis using assms by (simp add: pending_array_def)
  qed
  show "view s1 = view s"
  proof (cases "s_pendingCandidates s f")
    case None
    have ne: "\<And>k r. s_pendingCandidates s k = Some r \<Longrightarrow> r \<noteq> s_fresh s"
      using assms(1) by (auto simp: store_ok_def)
    have "map_option (array s1) (s_pendingCandidates s1 k) = map_option (array s) (s_pendingCandidates s k)" for k
      using assms(2) None ne [of k]
      by (cases "s_pendingCandidates s k") (auto simp: pending_array_def)
    then show ?thesis
      using assms(2) None by (auto simp: view_def pending_array_def)
  next
    case (Some r')
    then show ?thesis using assms(2) by (simp add: pending_array_def)
  qed
qed

lemma addIceCandidate_keeps_remote:
  "remoteDescription c \<noteq> None \<Longrightarrow> remoteDescription (addIceCandidate c x) \<noteq> None"
  by (simp add: addIceCandidate_def)

text \<open>The loop of \<open>handleAnswer\<close> from index \<open>i\<close>, each awaited \<open>addIceCandidate\<close> completing before anything else happens: the rest of the array is applied in order and the queue is deleted.\<close>

lemma answer_loop_run:
  assumes "store_ok s" and "map_of (s_peers s) f = Some a" and "s_objects s a = Some p"
    and "i \<le> length (array s r)" and "n = length (array s r) - i"
  shows "\<exists>s'. drive E n (fst (answer_loop s f a r i), fst (snd (answer_loop s f a r i)), e)
                = (s', None, e)
            \<and> view s' = (view s)\<lparr>peers := map_set (peers (view s)) f
                                  (p\<lparr>pc := foldl addIceCandidate (pc p) (drop i (array s r))\<rparr>),
                           pendingCandidates := (pendingCandidates (view s))(f := None)\<rparr>
            \<and> store_ok s'"
  using assms
proof (induction n arbitrary: s p i)
  case 0
  then have i: "i = length (array s r)" by simp
  have look: "map_of (peers (view s)) f = Some p"
    using view_lookup [OF "0.prems"(1), of f] "0.prems"(2,3) by simp
  have same: "map_set (peers (view s)) f p = peers (view s)"
    using look by (rule map_set_same)
  have pp: "p\<lparr>pc := pc p\<rparr> = p" by simp
  have al: "answer_loop s f a r i
            = (s\<lparr>s_pendingCandidates := (s_pendingCandidates s)(f := None)\<rparr>, None, [])"
    using i by (simp add: answer_loop_def)
  have v: "view (s\<lparr>s_pendingCandidates := (s_pendingCandidates s)(f := None)\<rparr>)
           = (view s)\<lparr>peers := map_set (peers (view s)) f
                                  (p\<lparr>pc := foldl addIceCandidate (pc p) (drop i (array s r))\<rparr>),
                      pendingCandidates := (pendingCandidates (view s))(f := None)\<rparr>"
    unfolding view_delete_queue using i same by (simp add: pp)
  have d: "drive E 0 (fst (answer_loop s f a r i), fst (snd (answer_loop s f a r i)), e)
           = (s\<lparr>s_pendingCandidates := (s_pendingCandidates s)(f := None)\<rparr>, None, e)"
    unfolding al by simp
  show ?case
    by (rule exI [of _ "s\<lparr>s_pendingCandidates := (s_pendingCandidates s)(f := None)\<rparr>"])
       (intro conjI d v store_ok_delete_queue [OF "0.prems"(1)])
next
  case (Suc n)
  then have lt: "i < length (array s r)" by simp
  let ?c = "array s r ! i"
  let ?s1 = "on_pc s a (\<lambda>c. addIceCandidate c ?c)"
  let ?p1 = "p\<lparr>pc := addIceCandidate (pc p) ?c\<rparr>"
  note o = view_on_pc [OF Suc.prems(1,2,3), of "\<lambda>c. addIceCandidate c ?c"]
  have arr: "array ?s1 r = array s r" using o(5) by simp
  have m1: "map_of (s_peers ?s1) f = Some a" using o(4) Suc.prems(2) by simp
  have i1: "Suc i \<le> length (array ?s1 r)" using lt arr by simp
  have n1: "n = length (array ?s1 r) - Suc i" using Suc.prems(5) arr by simp
  have "snd (snd (answer_loop ?s1 f a r (Suc i))) = []"
    by (simp add: answer_loop_def)
  then obtain s2 t2 where al1: "answer_loop ?s1 f a r (Suc i) = (s2, t2, [])"
    by (cases "answer_loop ?s1 f a r (Suc i)") simp
  have IH: "\<exists>s'. drive E n (fst (answer_loop ?s1 f a r (Suc i)),
                                   fst (snd (answer_loop ?s1 f a r (Suc i))), e) = (s', None, e)
      \<and> view s' = (view ?s1)\<lparr>peers := map_set (peers (view ?s1)) f
                                  (?p1\<lparr>pc := foldl addIceCandidate (pc ?p1) (drop (Suc i) (array ?s1 r))\<rparr>),
                           pendingCandidates := (pendingCandidates (view ?s1))(f := None)\<rparr>
      \<and> store_ok s'"
    by (rule Suc.IH [OF o(2) m1 o(3) i1 n1])
  then obtain s' where s': "drive E n (s2, t2, e) = (s', None, e)"
      "view s' = (view ?s1)\<lparr>peers := map_set (peers (view ?s1)) f
                                  (?p1\<lparr>pc := foldl addIceCandidate (pc ?p1) (drop (Suc i) (array ?s1 r))\<rparr>),
                           pendingCandidates := (pendingCandidates (view ?s1))(f := None)\<rparr>"
      "store_ok s'"
    unfolding al1 fst_conv snd_conv by (elim exE conjE)
  have dr: "drop i (array s r) = ?c # drop (Suc i) (array s r)"
    using lt by (simp add: Cons_nth_drop_Suc)
  have now: "answer_loop s f a r i = (s, Some (AnswerAddCandidate f a r i), [])"
    using lt by (simp add: answer_loop_def)
  have d: "drive E (Suc n) (fst (answer_loop s f a r i), fst (snd (answer_loop s f a r i)), e)
           = (s', None, e)"
    unfolding now fst_conv snd_conv using s'(1) by (simp add: al1)
  have v: "view s' = (view s)\<lparr>peers := map_set (peers (view s)) f
                                  (p\<lparr>pc := foldl addIceCandidate (pc p) (drop i (array s r))\<rparr>),
                           pendingCandidates := (pendingCandidates (view s))(f := None)\<rparr>"
    unfolding s'(2) o(1) arr dr by (simp add: map_set_twice)
  show ?case
    by (rule exI [of _ s']) (intro conjI d v s'(3))
qed

lemma s_send_view: "s_send s x = send (view s) x"
  by (simp add: s_send_def send_def view_def)

lemma view_ids: "peerId (view s) = s_peerId s" "peerName (view s) = s_peerName s"
  by (simp_all add: view_def)

lemma drive_out:
  "drive E n (s, t, e) = (case drive E n (s, t, []) of (s', t', e') \<Rightarrow> (s', t', e @ e'))"
proof (induction n arbitrary: s t e)
  case 0
  show ?case by simp
next
  case (Suc n)
  show ?case
  proof (cases t)
    case None
    then show ?thesis by simp
  next
    case (Some t1)
    obtain s1 t2 e1 where r: "resume E s t1 = (s1, t2, e1)"
      by (cases "resume E s t1") auto
    obtain s2 t3 e2 where d: "drive E n (s1, t2, []) = (s2, t3, e2)"
      by (cases "drive E n (s1, t2, [])") auto
    show ?thesis
      using Suc.IH [of s1 t2 "e @ e1"] Suc.IH [of s1 t2 "e1"] d
      by (simp add: Some r)
  qed
qed

text \<open>The same for the loop of \<open>handleOffer\<close>, followed by \<open>createAnswer\<close>, \<open>setLocalDescription\<close> and the answer sent.\<close>

lemma offer_loop_run:
  assumes "store_ok s" and "map_of (s_peers s) f = Some a" and "s_objects s a = Some p"
    and "i \<le> length (array s r)" and "n = length (array s r) - i"
  shows "\<exists>s'. drive E (Suc (Suc n)) (fst (offer_loop s f a offer r i),
                                       fst (snd (offer_loop s f a offer r i)), e)
                = (s', None,
                   e @ send (view s) (Answer (peerId (view s)) (peerName (view s)) f
                                        (createAnswer E f offer)))
            \<and> view s' = (view s)\<lparr>peers := map_set (peers (view s)) f
                                  (p\<lparr>pc := setLocalDescription
                                             (foldl addIceCandidate (pc p) (drop i (array s r)))
                                             (createAnswer E f offer)\<rparr>),
                           pendingCandidates := (pendingCandidates (view s))(f := None)\<rparr>
            \<and> store_ok s'"
  using assms
proof (induction n arbitrary: s p i)
  case 0
  then have i: "i = length (array s r)" by simp
  let ?s0 = "s\<lparr>s_pendingCandidates := (s_pendingCandidates s)(f := None)\<rparr>"
  let ?ans = "createAnswer E f offer"
  let ?g = "\<lambda>c. setLocalDescription c ?ans"
  have ok0: "store_ok ?s0" by (rule store_ok_delete_queue [OF "0.prems"(1)])
  have m0: "map_of (s_peers ?s0) f = Some a" using "0.prems"(2) by simp
  have o0: "s_objects ?s0 a = Some p" using "0.prems"(3) by simp
  note o = view_on_pc [OF ok0 m0 o0, of ?g]
  have ol: "offer_loop s f a offer r i = (?s0, Some (OfferCreateAnswer f a offer), [])"
    using i by (simp add: offer_loop_def)
  have snd0: "s_send ?s0 x = send (view s) x" for x
    by (simp add: s_send_def send_def view_def)
  have d: "drive E (Suc (Suc 0)) (fst (offer_loop s f a offer r i),
                                   fst (snd (offer_loop s f a offer r i)), e)
           = (on_pc ?s0 a ?g, None,
              e @ send (view s) (Answer (peerId (view s)) (peerName (view s)) f ?ans))"
    unfolding ol fst_conv snd_conv by (simp add: snd0 view_ids)
  have v: "view (on_pc ?s0 a ?g)
           = (view s)\<lparr>peers := map_set (peers (view s)) f
                                  (p\<lparr>pc := setLocalDescription
                                             (foldl addIceCandidate (pc p) (drop i (array s r)))
                                             ?ans\<rparr>),
                      pendingCandidates := (pendingCandidates (view s))(f := None)\<rparr>"
    unfolding o(1) view_delete_queue using i by simp
  show ?case
    by (rule exI [of _ "on_pc ?s0 a ?g"]) (intro conjI d v o(2))
next
  case (Suc n)
  then have lt: "i < length (array s r)" by simp
  let ?c = "array s r ! i"
  let ?s1 = "on_pc s a (\<lambda>c. addIceCandidate c ?c)"
  let ?p1 = "p\<lparr>pc := addIceCandidate (pc p) ?c\<rparr>"
  let ?ans = "createAnswer E f offer"
  note o = view_on_pc [OF Suc.prems(1,2,3), of "\<lambda>c. addIceCandidate c ?c"]
  have arr: "array ?s1 r = array s r" using o(5) by simp
  have m1: "map_of (s_peers ?s1) f = Some a" using o(4) Suc.prems(2) by simp
  have i1: "Suc i \<le> length (array ?s1 r)" using lt arr by simp
  have n1: "n = length (array ?s1 r) - Suc i" using Suc.prems(5) arr by simp
  have "snd (snd (offer_loop ?s1 f a offer r (Suc i))) = []"
    by (simp add: offer_loop_def)
  then obtain s2 t2 where al1: "offer_loop ?s1 f a offer r (Suc i) = (s2, t2, [])"
    by (cases "offer_loop ?s1 f a offer r (Suc i)") simp
  have ids: "peerId (view ?s1) = peerId (view s)" "peerName (view ?s1) = peerName (view s)"
            "send (view ?s1) = send (view s)"
    unfolding o(1) by (simp_all add: send_def fun_eq_iff)
  have IH: "\<exists>s'. drive E (Suc (Suc n)) (fst (offer_loop ?s1 f a offer r (Suc i)),
                                   fst (snd (offer_loop ?s1 f a offer r (Suc i))), e)
                = (s', None,
                   e @ send (view ?s1) (Answer (peerId (view ?s1)) (peerName (view ?s1)) f ?ans))
      \<and> view s' = (view ?s1)\<lparr>peers := map_set (peers (view ?s1)) f
                                  (?p1\<lparr>pc := setLocalDescription
                                      (foldl addIceCandidate (pc ?p1) (drop (Suc i) (array ?s1 r)))
                                      ?ans\<rparr>),
                           pendingCandidates := (pendingCandidates (view ?s1))(f := None)\<rparr>
      \<and> store_ok s'"
    by (rule Suc.IH [OF o(2) m1 o(3) i1 n1])
  then obtain s' where s': "drive E (Suc (Suc n)) (s2, t2, e)
        = (s', None, e @ send (view s) (Answer (peerId (view s)) (peerName (view s)) f ?ans))"
      "view s' = (view ?s1)\<lparr>peers := map_set (peers (view ?s1)) f
                                  (?p1\<lparr>pc := setLocalDescription
                                      (foldl addIceCandidate (pc ?p1) (drop (Suc i) (array ?s1 r)))
                                      ?ans\<rparr>),
                           pendingCandidates := (pendingCandidates (view ?s1))(f := None)\<rparr>"
      "store_ok s'"
    unfolding al1 fst_conv snd_conv ids by (elim exE conjE)
  have dr: "drop i (array s r) = ?c # drop (Suc i) (array s r)"
    using lt by (simp add: Cons_nth_drop_Suc)
  have now: "offer_loop s f a offer r i = (s, Some (OfferAddCandidate f a offer r i), [])"
    using lt by (simp add: offer_loop_def)
  have d: "drive E (Suc (Suc (Suc n))) (fst (offer_loop s f a offer r i),
                                         fst (snd (offer_loop s f a offer r i)), e)
           = (s', None, e @ send (view s) (Answer (peerId (view s)) (peerName (view s)) f ?ans))"
    unfolding now fst_conv snd_conv using s'(1) by (simp add: al1)
  have v: "view s' = (view s)\<lparr>peers := map_set (peers (view s)) f
                                  (p\<lparr>pc := setLocalDescription
                                             (foldl addIceCandidate (pc p) (drop i (array s r)))
                                             ?ans\<rparr>),
                           pendingCandidates := (pendingCandidates (view s))(f := None)\<rparr>"
    unfolding s'(2) o(1) arr dr by (simp add: map_set_twice)
  show ?case
    by (rule exI [of _ s']) (intro conjI d v s'(3))
qed

lemma notify_recs:
  "concat (map (\<lambda>ka. case H (snd ka) of None \<Rightarrow> []
                      | Some p \<Rightarrow> [(p_id p, p_name p, connected p)]) kas)
   = map (\<lambda>kp. (p_id (snd kp), p_name (snd kp), connected (snd kp))) (recs H kas)"
  by (induction kas) (auto simp: recs_def split: option.splits)

lemma s_notify_view: "s_notifyConnectionChange s = notifyConnectionChange (view s)"
  by (simp add: s_notifyConnectionChange_def notifyConnectionChange_def notify_recs view_def)

lemma store_ok_map_delete: "store_ok s \<Longrightarrow> store_ok (s\<lparr>s_peers := map_delete (s_peers s) k\<rparr>)"
  by (simp add: store_ok_def map_delete_def distinct_map_filter list_all_iff)

lemma view_map_delete:
  "view (s\<lparr>s_peers := map_delete (s_peers s) k\<rparr>) = (view s)\<lparr>peers := map_delete (peers (view s)) k\<rparr>"
  by (simp add: view_def recs_map_delete array_def)

lemma view_removePeer:
  assumes "store_ok s"
  shows "view (fst (s_removePeer s k)) = fst (removePeer (view s) k)"
    and "snd (s_removePeer s k) = snd (removePeer (view s) k)"
    and "store_ok (fst (s_removePeer s k))"
proof -
  note l = view_lookup [OF assms, of k]
  note d = store_ok_defined [OF assms]
  show "store_ok (fst (s_removePeer s k))"
    using assms store_ok_map_delete [OF assms, of k]
    by (simp add: s_removePeer_def Let_def split: option.splits)
  show "view (fst (s_removePeer s k)) = fst (removePeer (view s) k)"
  proof (cases "map_of (s_peers s) k")
    case None
    then show ?thesis using l by (simp add: s_removePeer_def removePeer_def)
  next
    case (Some a)
    then have "(k, a) \<in> set (s_peers s)" by (rule map_of_SomeD)
    then obtain p where p: "s_objects s a = Some p"
      using d by (force simp: list_all_iff)
    show ?thesis
      using l Some p by (simp add: s_removePeer_def removePeer_def Let_def view_map_delete)
  qed
  show "snd (s_removePeer s k) = snd (removePeer (view s) k)"
  proof (cases "map_of (s_peers s) k")
    case None
    then show ?thesis using l by (simp add: s_removePeer_def removePeer_def)
  next
    case (Some a)
    then have "(k, a) \<in> set (s_peers s)" by (rule map_of_SomeD)
    then obtain p where p: "s_objects s a = Some p"
      using d by (force simp: list_all_iff)
    show ?thesis
      using l Some p
      by (simp add: s_removePeer_def removePeer_def Let_def s_notify_view view_map_delete)
  qed
qed

lemma view_roomId: "view (s\<lparr>s_roomId := rid\<rparr>) = (view s)\<lparr>roomId := rid\<rparr>"
  by (simp add: view_def array_def)

lemma store_ok_roomId: "store_ok s \<Longrightarrow> store_ok (s\<lparr>s_roomId := rid\<rparr>)"
  by (simp add: store_ok_def)

text \<open>The \<open>room-joined\<close> loop is \<open>connect_all\<close>.\<close>

lemma join_loop_run:
  assumes "store_ok s"
  shows "\<exists>s'. drive E (2 * length ps) (fst (join_loop s ps), snd (join_loop s ps), e)
                = (s', None, e @ snd (connect_all E (view s) ps))
            \<and> view s' = fst (connect_all E (view s) ps)
            \<and> store_ok s'"
  using assms
proof (induction ps arbitrary: s e)
  case Nil
  show ?case
    by (rule exI [of _ s]) (simp add: join_loop_def Nil.prems)
next
  case (Cons p rest)
  obtain s1 a where nr: "new_record s (fst p) (snd p) True = (s1, a)"
    by (cases "new_record s (fst p) (snd p) True") auto
  let ?rec = "\<lparr>p_id = fst p, p_name = snd p, pc = new_RTCPeerConnection,
               channel = (if True then Some (createDataChannel ''chat'') else None),
               connected = False\<rparr>"
  let ?off = "createOffer E (fst p)"
  let ?g = "\<lambda>c. setLocalDescription c ?off"
  let ?s2 = "on_pc s1 a ?g"
  let ?msg = "Offer (peerId (view s)) (peerName (view s)) (fst p) ?off"
  note r = view_new_record [OF Cons.prems nr]
  note o = view_on_pc [OF r(2) r(3) r(4), of ?g]
  have jl: "join_loop s (p # rest) = (s1, Some (JoinCreateOffer a (fst p) rest))"
    by (simp add: join_loop_def nr)
  obtain s3 t3 where jl2: "join_loop ?s2 rest = (s3, t3)"
    by (cases "join_loop ?s2 rest") auto
  have snd1: "s_send s1 (Offer (s_peerId s1) (s_peerName s1) (fst p) ?off) = send (view s) ?msg"
    using r(1) by (simp add: s_send_view send_def view_ids [symmetric])
  have v2: "view ?s2 = fst (createPeerConnection E (view s) (fst p) (snd p) True)"
    unfolding o(1) r(1) by (simp add: createPeerConnection_def Let_def map_set_twice)
  have cpc: "snd (snd (createPeerConnection E (view s) (fst p) (snd p) True)) = send (view s) ?msg"
    by (simp add: createPeerConnection_def Let_def)
  have ca: "connect_all E (view s) (p # rest)
            = (fst (connect_all E (view ?s2) rest),
               send (view s) ?msg @ snd (connect_all E (view ?s2) rest))"
  proof -
    obtain m1 pr e1 where c: "createPeerConnection E (view s) (fst p) (snd p) True = (m1, pr, e1)"
      by (cases "createPeerConnection E (view s) (fst p) (snd p) True") auto
    have "m1 = view ?s2" "e1 = send (view s) ?msg"
      using v2 cpc unfolding c by simp_all
    then show ?thesis
      by (simp add: c split: prod.splits)
  qed
  have IH: "\<exists>s'. drive E (2 * length rest) (fst (join_loop ?s2 rest), snd (join_loop ?s2 rest),
                                              e @ send (view s) ?msg)
                = (s', None, (e @ send (view s) ?msg) @ snd (connect_all E (view ?s2) rest))
            \<and> view s' = fst (connect_all E (view ?s2) rest)
            \<and> store_ok s'"
    by (rule Cons.IH [OF o(2)])
  then obtain s' where s': "drive E (2 * length rest) (s3, t3, e @ send (view s) ?msg)
                = (s', None, (e @ send (view s) ?msg) @ snd (connect_all E (view ?s2) rest))"
      "view s' = fst (connect_all E (view ?s2) rest)" "store_ok s'"
    unfolding jl2 fst_conv snd_conv by (elim exE conjE)
  have two: "2 * length (p # rest) = Suc (Suc (2 * length rest))" by simp
  have d: "drive E (2 * length (p # rest)) (fst (join_loop s (p # rest)),
                                             snd (join_loop s (p # rest)), e)
           = (s', None, e @ snd (connect_all E (view s) (p # rest)))"
    unfolding two jl fst_conv snd_conv ca using s'(1) by (simp add: jl2 snd1)
  have v: "view s' = fst (connect_all E (view s) (p # rest))"
    unfolding ca fst_conv by (rule s'(2))
  show ?case
    by (rule exI [of _ s']) (intro conjI d v s'(3))
qed

lemma offer_from_record:
  assumes "store_ok s" and "map_of (s_peers s) f = Some a" and "s_objects s a = Some p"
  shows "\<exists>s'. drive E (3 + length (pending (view s) f)) (s, Some (OfferSetRemote f a offer), e)
                = (s', None,
                   e @ send (view s) (Answer (peerId (view s)) (peerName (view s)) f
                                        (createAnswer E f offer)))
            \<and> view s' = (view s)\<lparr>peers := map_set (peers (view s)) f
                                  (p\<lparr>pc := setLocalDescription
                                             (foldl addIceCandidate (setRemoteDescription (pc p) offer)
                                                (pending (view s) f))
                                             (createAnswer E f offer)\<rparr>),
                           pendingCandidates := (pendingCandidates (view s))(f := None)\<rparr>
            \<and> store_ok s'"
proof -
  let ?g = "\<lambda>c. setRemoteDescription c offer"
  let ?s1 = "on_pc s a ?g"
  let ?p1 = "p\<lparr>pc := setRemoteDescription (pc p) offer\<rparr>"
  let ?ans = "createAnswer E f offer"
  note o = view_on_pc [OF assms, of ?g]
  obtain s2 r where pa: "pending_array ?s1 f = (s2, r)"
    by (cases "pending_array ?s1 f") auto
  note q = pending_array_props [OF o(2) pa]
  have pend: "pending (view ?s1) f = pending (view s) f"
    unfolding o(1) by (simp add: pending_def)
  have arr: "array s2 r = pending (view s) f" using q(3) pend by simp
  have m2: "map_of (s_peers s2) f = Some a" using q(4) o(4) assms(2) by simp
  have o2: "s_objects s2 a = Some ?p1" using q(5) o(3) by simp
  have i2: "0 \<le> length (array s2 r)" by simp
  have n2: "length (pending (view s) f) = length (array s2 r) - 0" using arr by simp
  have vs: "view s2 = (view s)\<lparr>peers := map_set (peers (view s)) f ?p1\<rparr>"
    using q(1) o(1) by simp
  have ids: "peerId (view s2) = peerId (view s)" "peerName (view s2) = peerName (view s)"
            "send (view s2) = send (view s)"
    unfolding vs by (simp_all add: send_def fun_eq_iff)
  have L: "\<exists>s'. drive E (Suc (Suc (length (pending (view s) f))))
                    (fst (offer_loop s2 f a offer r 0), fst (snd (offer_loop s2 f a offer r 0)), e)
                = (s', None,
                   e @ send (view s2) (Answer (peerId (view s2)) (peerName (view s2)) f ?ans))
            \<and> view s' = (view s2)\<lparr>peers := map_set (peers (view s2)) f
                                  (?p1\<lparr>pc := setLocalDescription
                                             (foldl addIceCandidate (pc ?p1) (drop 0 (array s2 r)))
                                             ?ans\<rparr>),
                           pendingCandidates := (pendingCandidates (view s2))(f := None)\<rparr>
            \<and> store_ok s'"
    by (rule offer_loop_run [OF q(2) m2 o2 i2 n2])
  have "snd (snd (offer_loop s2 f a offer r 0)) = []"
    by (simp add: offer_loop_def)
  then obtain s3 t3 where ol: "offer_loop s2 f a offer r 0 = (s3, t3, [])"
    by (cases "offer_loop s2 f a offer r 0") simp
  from L obtain s' where s': "drive E (Suc (Suc (length (pending (view s) f)))) (s3, t3, e)
                = (s', None, e @ send (view s) (Answer (peerId (view s)) (peerName (view s)) f ?ans))"
      "view s' = (view s2)\<lparr>peers := map_set (peers (view s2)) f
                                  (?p1\<lparr>pc := setLocalDescription
                                             (foldl addIceCandidate (pc ?p1) (drop 0 (array s2 r)))
                                             ?ans\<rparr>),
                           pendingCandidates := (pendingCandidates (view s2))(f := None)\<rparr>"
      "store_ok s'"
    unfolding ol fst_conv snd_conv ids by (elim exE conjE)
  have three: "3 + length (pending (view s) f) = Suc (Suc (Suc (length (pending (view s) f))))"
    by simp
  have d: "drive E (3 + length (pending (view s) f)) (s, Some (OfferSetRemote f a offer), e)
           = (s', None, e @ send (view s) (Answer (peerId (view s)) (peerName (view s)) f ?ans))"
    unfolding three using s'(1) by (simp add: pa ol)
  have v: "view s' = (view s)\<lparr>peers := map_set (peers (view s)) f
                                  (p\<lparr>pc := setLocalDescription
                                             (foldl addIceCandidate (setRemoteDescription (pc p) offer)
                                                (pending (view s) f))
                                             ?ans\<rparr>),
                           pendingCandidates := (pendingCandidates (view s))(f := None)\<rparr>"
    unfolding s'(2) vs arr by (simp add: map_set_twice)
  show ?thesis
    by (rule exI [of _ s']) (intro conjI d v s'(3))
qed

lemma answer_from_record:
  assumes "store_ok s" and "map_of (s_peers s) f = Some a" and "s_objects s a = Some p"
  shows "\<exists>s'. drive E (1 + length (pending (view s) f)) (s, Some (AnswerSetRemote f a answer), e)
                = (s', None, e)
            \<and> view s' = (view s)\<lparr>peers := map_set (peers (view s)) f
                                  (p\<lparr>pc := foldl addIceCandidate (setRemoteDescription (pc p) answer)
                                                (pending (view s) f)\<rparr>),
                           pendingCandidates := (pendingCandidates (view s))(f := None)\<rparr>
            \<and> store_ok s'"
proof -
  let ?g = "\<lambda>c. setRemoteDescription c answer"
  let ?s1 = "on_pc s a ?g"
  let ?p1 = "p\<lparr>pc := setRemoteDescription (pc p) answer\<rparr>"
  note o = view_on_pc [OF assms, of ?g]
  obtain s2 r where pa: "pending_array ?s1 f = (s2, r)"
    by (cases "pending_array ?s1 f") auto
  note q = pending_array_props [OF o(2) pa]
  have pend: "pending (view ?s1) f = pending (view s) f"
    unfolding o(1) by (simp add: pending_def)
  have arr: "array s2 r = pending (view s) f" using q(3) pend by simp
  have m2: "map_of (s_peers s2) f = Some a" using q(4) o(4) assms(2) by simp
  have o2: "s_objects s2 a = Some ?p1" using q(5) o(3) by simp
  have i2: "0 \<le> length (array s2 r)" by simp
  have n2: "length (pending (view s) f) = length (array s2 r) - 0" using arr by simp
  have vs: "view s2 = (view s)\<lparr>peers := map_set (peers (view s)) f ?p1\<rparr>"
    using q(1) o(1) by simp
  have L: "\<exists>s'. drive E (length (pending (view s) f))
                    (fst (answer_loop s2 f a r 0), fst (snd (answer_loop s2 f a r 0)), e)
                = (s', None, e)
            \<and> view s' = (view s2)\<lparr>peers := map_set (peers (view s2)) f
                                  (?p1\<lparr>pc := foldl addIceCandidate (pc ?p1) (drop 0 (array s2 r))\<rparr>),
                           pendingCandidates := (pendingCandidates (view s2))(f := None)\<rparr>
            \<and> store_ok s'"
    by (rule answer_loop_run [OF q(2) m2 o2 i2 n2])
  have "snd (snd (answer_loop s2 f a r 0)) = []"
    by (simp add: answer_loop_def)
  then obtain s3 t3 where ol: "answer_loop s2 f a r 0 = (s3, t3, [])"
    by (cases "answer_loop s2 f a r 0") simp
  from L obtain s' where s': "drive E (length (pending (view s) f)) (s3, t3, e) = (s', None, e)"
      "view s' = (view s2)\<lparr>peers := map_set (peers (view s2)) f
                                  (?p1\<lparr>pc := foldl addIceCandidate (pc ?p1) (drop 0 (array s2 r))\<rparr>),
                           pendingCandidates := (pendingCandidates (view s2))(f := None)\<rparr>"
      "store_ok s'"
    unfolding ol fst_conv snd_conv by (elim exE conjE)
  have one: "1 + length (pending (view s) f) = Suc (length (pending (view s) f))"
    by simp
  have d: "drive E (1 + length (pending (view s) f)) (s, Some (AnswerSetRemote f a answer), e)
           = (s', None, e)"
    unfolding one using s'(1) by (simp add: pa ol)
  have v: "view s' = (view s)\<lparr>peers := map_set (peers (view s)) f
                                  (p\<lparr>pc := foldl addIceCandidate (setRemoteDescription (pc p) answer)
                                                (pending (view s) f)\<rparr>),
                           pendingCandidates := (pendingCandidates (view s))(f := None)\<rparr>"
    unfolding s'(2) vs arr by (simp add: map_set_twice)
  show ?thesis
    by (rule exI [of _ s']) (intro conjI d v s'(3))
qed

lemma store_ok_record:
  assumes "store_ok s" and "map_of (s_peers s) k = Some a"
  shows "\<exists>p. s_objects s a = Some p"
proof -
  have "(k, a) \<in> set (s_peers s)" using assms(2) by (rule map_of_SomeD)
  then show ?thesis
    using store_ok_defined [OF assms(1)] by (force simp: list_all_iff)
qed

text \<open>One envelope: the handler, started by \<open>deliver\<close> and resumed \<open>turns\<close> times, has ended, and the store then holds what \<open>handleSignal\<close> returns.\<close>

lemma handler_run:
  assumes "store_ok s"
  shows "\<exists>s'. drive E (turns (view s) x)
                  (fst (deliver E s x), fst (snd (deliver E s x)), e @ snd (snd (deliver E s x)))
                = (s', None, e @ snd (handleSignal E (view s) x))
            \<and> view s' = fst (handleSignal E (view s) x)
            \<and> store_ok s'"
proof (cases x)
  case (RoomJoined rid ps)
  let ?s0 = "s\<lparr>s_roomId := rid\<rparr>"
  obtain s1 t1 where jl: "join_loop ?s0 ps = (s1, t1)"
    by (cases "join_loop ?s0 ps") auto
  have "\<exists>s'. drive E (2 * length ps) (fst (join_loop ?s0 ps), snd (join_loop ?s0 ps),
                                          e @ [OnRoomJoined rid ps])
                = (s', None, (e @ [OnRoomJoined rid ps]) @ snd (connect_all E (view ?s0) ps))
            \<and> view s' = fst (connect_all E (view ?s0) ps)
            \<and> store_ok s'"
    by (rule join_loop_run [OF store_ok_roomId [OF assms]])
  then obtain s' where s': "drive E (2 * length ps) (s1, t1, e @ [OnRoomJoined rid ps])
                = (s', None, (e @ [OnRoomJoined rid ps]) @ snd (connect_all E (view ?s0) ps))"
      "view s' = fst (connect_all E (view ?s0) ps)" "store_ok s'"
    unfolding jl fst_conv snd_conv by (elim exE conjE)
  have d: "drive E (turns (view s) x)
             (fst (deliver E s x), fst (snd (deliver E s x)), e @ snd (snd (deliver E s x)))
           = (s', None, e @ snd (handleSignal E (view s) x))"
    using s'(1) by (simp add: RoomJoined jl view_roomId case_prod_beta)
  have v: "view s' = fst (handleSignal E (view s) x)"
    using s'(2) by (simp add: RoomJoined view_roomId case_prod_beta)
  show ?thesis
    by (rule exI [of _ s']) (intro conjI d v s'(3))
next
  case (PeerLeft pid pname)
  note r = view_removePeer [OF assms, of pid]
  have d: "drive E (turns (view s) x)
             (fst (deliver E s x), fst (snd (deliver E s x)), e @ snd (snd (deliver E s x)))
           = (fst (s_removePeer s pid), None, e @ snd (handleSignal E (view s) x))"
    using r(2) by (simp add: PeerLeft case_prod_beta)
  have v: "view (fst (s_removePeer s pid)) = fst (handleSignal E (view s) x)"
    using r(1) by (simp add: PeerLeft case_prod_beta)
  show ?thesis
    by (rule exI [of _ "fst (s_removePeer s pid)"]) (intro conjI d v r(3))
next
  case (Offer f n to offer)
  note l = view_lookup [OF assms, of f]
  let ?ans = "createAnswer E f offer"
  show ?thesis
  proof (cases "map_of (s_peers s) f")
    case None
    obtain s1 a where nr: "new_record s f n False = (s1, a)"
      by (cases "new_record s f n False") auto
    let ?rec = "\<lparr>p_id = f, p_name = n, pc = new_RTCPeerConnection,
                 channel = (if False then Some (createDataChannel ''chat'') else None),
                 connected = False\<rparr>"
    note r = view_new_record [OF assms nr]
    have pend: "pending (view s1) f = pending (view s) f"
      unfolding r(1) by (simp add: pending_def)
    have ids: "peerId (view s1) = peerId (view s)" "peerName (view s1) = peerName (view s)"
              "send (view s1) = send (view s)"
      unfolding r(1) by (simp_all add: send_def fun_eq_iff)
    have "\<exists>s'. drive E (3 + length (pending (view s1) f)) (s1, Some (OfferSetRemote f a offer), e)
                = (s', None,
                   e @ send (view s1) (Answer (peerId (view s1)) (peerName (view s1)) f ?ans))
            \<and> view s' = (view s1)\<lparr>peers := map_set (peers (view s1)) f
                                  (?rec\<lparr>pc := setLocalDescription
                                             (foldl addIceCandidate (setRemoteDescription (pc ?rec) offer)
                                                (pending (view s1) f))
                                             ?ans\<rparr>),
                           pendingCandidates := (pendingCandidates (view s1))(f := None)\<rparr>
            \<and> store_ok s'"
      by (rule offer_from_record [OF r(2) r(3) r(4)])
    then obtain s' where s': "drive E (3 + length (pending (view s) f))
                                 (s1, Some (OfferSetRemote f a offer), e)
                = (s', None,
                   e @ send (view s) (Answer (peerId (view s)) (peerName (view s)) f ?ans))"
        "view s' = (view s1)\<lparr>peers := map_set (peers (view s1)) f
                                  (?rec\<lparr>pc := setLocalDescription
                                             (foldl addIceCandidate (setRemoteDescription (pc ?rec) offer)
                                                (pending (view s) f))
                                             ?ans\<rparr>),
                           pendingCandidates := (pendingCandidates (view s1))(f := None)\<rparr>"
        "store_ok s'"
      unfolding pend ids by (elim exE conjE)
    have none: "map_of (peers (view s)) f = None" using l None by simp
    have h: "handleSignal E (view s) x
             = ((view s1)\<lparr>peers := map_set (peers (view s1)) f
                                  (?rec\<lparr>pc := setLocalDescription
                                             (foldl addIceCandidate (setRemoteDescription (pc ?rec) offer)
                                                (pending (view s) f))
                                             ?ans\<rparr>),
                           pendingCandidates := (pendingCandidates (view s1))(f := None)\<rparr>,
                send (view s) (Answer (peerId (view s)) (peerName (view s)) f ?ans))"
      unfolding r(1)
      by (simp add: Offer handleOffer_def none createPeerConnection_def Let_def pending_def
            send_def)
    have d: "drive E (turns (view s) x)
               (fst (deliver E s x), fst (snd (deliver E s x)), e @ snd (snd (deliver E s x)))
             = (s', None, e @ snd (handleSignal E (view s) x))"
      unfolding h snd_conv using s'(1) by (simp add: Offer None nr)
    have v: "view s' = fst (handleSignal E (view s) x)"
      unfolding h fst_conv by (rule s'(2))
    show ?thesis
      by (rule exI [of _ s']) (intro conjI d v s'(3))
  next
    case (Some a)
    obtain p where p: "s_objects s a = Some p"
      using store_ok_record [OF assms Some] by blast
    have "\<exists>s'. drive E (3 + length (pending (view s) f)) (s, Some (OfferSetRemote f a offer), e)
                = (s', None,
                   e @ send (view s) (Answer (peerId (view s)) (peerName (view s)) f ?ans))
            \<and> view s' = (view s)\<lparr>peers := map_set (peers (view s)) f
                                  (p\<lparr>pc := setLocalDescription
                                             (foldl addIceCandidate (setRemoteDescription (pc p) offer)
                                                (pending (view s) f))
                                             ?ans\<rparr>),
                           pendingCandidates := (pendingCandidates (view s))(f := None)\<rparr>
            \<and> store_ok s'"
      by (rule offer_from_record [OF assms Some p])
    then obtain s' where s': "drive E (3 + length (pending (view s) f))
                                 (s, Some (OfferSetRemote f a offer), e)
                = (s', None,
                   e @ send (view s) (Answer (peerId (view s)) (peerName (view s)) f ?ans))"
        "view s' = (view s)\<lparr>peers := map_set (peers (view s)) f
                                  (p\<lparr>pc := setLocalDescription
                                             (foldl addIceCandidate (setRemoteDescription (pc p) offer)
                                                (pending (view s) f))
                                             ?ans\<rparr>),
                           pendingCandidates := (pendingCandidates (view s))(f := None)\<rparr>"
        "store_ok s'"
      by (elim exE conjE)
    have some: "map_of (peers (view s)) f = Some p" using l Some p by simp
    have h: "handleSignal E (view s) x
             = ((view s)\<lparr>peers := map_set (peers (view s)) f
                                  (p\<lparr>pc := setLocalDescription
                                             (foldl addIceCandidate (setRemoteDescription (pc p) offer)
                                                (pending (view s) f))
                                             ?ans\<rparr>),
                           pendingCandidates := (pendingCandidates (view s))(f := None)\<rparr>,
                send (view s) (Answer (peerId (view s)) (peerName (view s)) f ?ans))"
      by (simp add: Offer handleOffer_def some Let_def send_def)
    have d: "drive E (turns (view s) x)
               (fst (deliver E s x), fst (snd (deliver E s x)), e @ snd (snd (deliver E s x)))
             = (s', None, e @ snd (handleSignal E (view s) x))"
      unfolding h snd_conv using s'(1) by (simp add: Offer Some)
    have v: "view s' = fst (handleSignal E (view s) x)"
      unfolding h fst_conv by (rule s'(2))
    show ?thesis
      by (rule exI [of _ s']) (intro conjI d v s'(3))
  qed
next
  case (Answer f n to answer)
  note l = view_lookup [OF assms, of f]
  show ?thesis
  proof (cases "map_of (s_peers s) f")
    case None
    have none: "map_of (peers (view s)) f = None" using l None by simp
    show ?thesis
      by (rule exI [of _ s])
         (simp add: Answer None none handleAnswer_def map_has_def assms)
  next
    case (Some a)
    obtain p where p: "s_objects s a = Some p"
      using store_ok_record [OF assms Some] by blast
    have "\<exists>s'. drive E (1 + length (pending (view s) f)) (s, Some (AnswerSetRemote f a answer), e)
                = (s', None, e)
            \<and> view s' = (view s)\<lparr>peers := map_set (peers (view s)) f
                                  (p\<lparr>pc := foldl addIceCandidate (setRemoteDescription (pc p) answer)
                                                (pending (view s) f)\<rparr>),
                           pendingCandidates := (pendingCandidates (view s))(f := None)\<rparr>
            \<and> store_ok s'"
      by (rule answer_from_record [OF assms Some p])
    then obtain s' where s': "drive E (1 + length (pending (view s) f))
                                 (s, Some (AnswerSetRemote f a answer), e) = (s', None, e)"
        "view s' = (view s)\<lparr>peers := map_set (peers (view s)) f
                                  (p\<lparr>pc := foldl addIceCandidate (setRemoteDescription (pc p) answer)
                                                (pending (view s) f)\<rparr>),
                           pendingCandidates := (pendingCandidates (view s))(f := None)\<rparr>"
        "store_ok s'"
      by (elim exE conjE)
    have some: "map_of (peers (view s)) f = Some p" using l Some p by simp
    have h: "handleSignal E (view s) x
             = ((view s)\<lparr>peers := map_set (peers (view s)) f
                                  (p\<lparr>pc := foldl addIceCandidate (setRemoteDescription (pc p) answer)
                                                (pending (view s) f)\<rparr>),
                           pendingCandidates := (pendingCandidates (view s))(f := None)\<rparr>, [])"
      by (simp add: Answer handleAnswer_def some Let_def)
    have d: "drive E (turns (view s) x)
               (fst (deliver E s x), fst (snd (deliver E s x)), e @ snd (snd (deliver E s x)))
             = (s', None, e @ snd (handleSignal E (view s) x))"
      unfolding h snd_conv using s'(1) by (simp add: Answer Some map_has_def some)
    have v: "view s' = fst (handleSignal E (view s) x)"
      unfolding h fst_conv by (rule s'(2))
    show ?thesis
      by (rule exI [of _ s']) (intro conjI d v s'(3))
  qed
next
  case (IceCandidate f to c)
  note l = view_lookup [OF assms, of f]
  note q = view_enqueue [OF assms, of f c]
  show ?thesis
  proof (cases "map_of (s_peers s) f")
    case None
    have none: "map_of (peers (view s)) f = None" using l None by simp
    show ?thesis
      by (rule exI [of _ "s_enqueue s f c"])
         (simp add: IceCandidate None none handleIceCandidate_def remote_unset_def q)
  next
    case (Some a)
    obtain p where p: "s_objects s a = Some p"
      using store_ok_record [OF assms Some] by blast
    have some: "map_of (peers (view s)) f = Some p" using l Some p by simp
    show ?thesis
    proof (cases "remoteDescription (pc p) = None")
      case True
      show ?thesis
        by (rule exI [of _ "s_enqueue s f c"])
           (simp add: IceCandidate Some p some True handleIceCandidate_def remote_unset_def q)
    next
      case False
      note o = view_on_pc [OF assms Some p, of "\<lambda>k. addIceCandidate k c"]
      show ?thesis
        by (rule exI [of _ "on_pc s a (\<lambda>k. addIceCandidate k c)"])
           (simp add: IceCandidate Some p some False handleIceCandidate_def remote_unset_def
              o(1) o(2))
    qed
  qed
qed (rule exI [of _ s], simp add: assms)+

lemma run_append: "run E c (as @ bs) = run E (run E c as) bs"
  by (simp add: run_def)

lemma run_Cons: "run E c (a # as) = run E (step E c a) as"
  by (simp add: run_def)

lemma run_drive:
  "run E (s, waiting t, out) (replicate n (Resume 0))
   = (case drive E n (s, t, out) of (s', t', out') \<Rightarrow> (s', waiting t', out'))"
proof (induction n arbitrary: s t out)
  case 0
  show ?case by (simp add: run_def)
next
  case (Suc n)
  show ?case
  proof (cases t)
    case None
    show ?thesis
      using Suc.IH [of s None out] by (simp add: None run_Cons waiting_def)
  next
    case (Some t1)
    obtain s1 t2 e1 where r: "resume E s t1 = (s1, t2, e1)"
      by (cases "resume E s t1") auto
    have st: "step E (s, waiting t, out) (Resume 0) = (s1, waiting t2, out @ e1)"
      by (cases t2) (simp_all add: Some waiting_def r)
    show ?thesis
      unfolding replicate_Suc run_Cons st Suc.IH by (simp add: Some r)
  qed
qed

text \<open>The same as a run of the scheduler from a configuration in which no handler waits.\<close>

lemma handled_alone:
  assumes "store_ok s"
  shows "\<exists>s'. run E (s, [], out) (Deliver x # replicate (turns (view s) x) (Resume 0))
                = (s', [], out @ snd (handleSignal E (view s) x))
            \<and> view s' = fst (handleSignal E (view s) x)
            \<and> store_ok s'"
proof -
  obtain s0 t0 e0 where dl: "deliver E s x = (s0, t0, e0)"
    by (cases "deliver E s x") auto
  have "\<exists>s'. drive E (turns (view s) x)
                  (fst (deliver E s x), fst (snd (deliver E s x)), out @ snd (snd (deliver E s x)))
                = (s', None, out @ snd (handleSignal E (view s) x))
            \<and> view s' = fst (handleSignal E (view s) x)
            \<and> store_ok s'"
    by (rule handler_run [OF assms])
  then obtain s' where s': "drive E (turns (view s) x) (s0, t0, out @ e0)
                = (s', None, out @ snd (handleSignal E (view s) x))"
      "view s' = fst (handleSignal E (view s) x)" "store_ok s'"
    unfolding dl fst_conv snd_conv by (elim exE conjE)
  have st: "step E (s, [], out) (Deliver x) = (s0, waiting t0, out @ e0)"
    by (simp add: dl waiting_def)
  have d: "run E (s, [], out) (Deliver x # replicate (turns (view s) x) (Resume 0))
           = (s', [], out @ snd (handleSignal E (view s) x))"
    unfolding run_Cons st run_drive s'(1) by (simp add: waiting_def)
  show ?thesis
    by (rule exI [of _ s']) (intro conjI d s'(2) s'(3))
qed

text \<open>A list of envelopes on the schedule \<open>serial\<close>: no handler is left waiting and the store holds \<open>in_turn\<close> of the manager it held.\<close>

lemma handled_in_turn:
  assumes "store_ok s"
  shows "\<exists>s' out'. run E (s, [], out) (serial E (view s) xs) = (s', [], out')
            \<and> view s' = in_turn E (view s) xs
            \<and> store_ok s'"
  using assms
proof (induction xs arbitrary: s out)
  case Nil
  show ?case
    by (rule exI [of _ s], rule exI [of _ out]) (simp add: run_def in_turn_def Nil.prems)
next
  case (Cons x xs)
  let ?m1 = "fst (handleSignal E (view s) x)"
  let ?o1 = "out @ snd (handleSignal E (view s) x)"
  have "\<exists>s'. run E (s, [], out) (Deliver x # replicate (turns (view s) x) (Resume 0))
                = (s', [], ?o1)
            \<and> view s' = ?m1 \<and> store_ok s'"
    by (rule handled_alone [OF Cons.prems])
  then obtain s1 where s1: "run E (s, [], out) (Deliver x # replicate (turns (view s) x) (Resume 0))
                = (s1, [], ?o1)"
      "view s1 = ?m1" "store_ok s1"
    by (elim exE conjE)
  have "\<exists>s' out'. run E (s1, [], ?o1) (serial E (view s1) xs) = (s', [], out')
            \<and> view s' = in_turn E (view s1) xs \<and> store_ok s'"
    by (rule Cons.IH [OF s1(3)])
  then obtain s' out' where s': "run E (s1, [], ?o1) (serial E (view s1) xs) = (s', [], out')"
      "view s' = in_turn E (view s1) xs" "store_ok s'"
    by (elim exE conjE)
  have sp: "serial E (view s) (x # xs)
            = (Deliver x # replicate (turns (view s) x) (Resume 0)) @ serial E (view s1) xs"
    unfolding s1(2) by simp
  have d: "run E (s, [], out) (serial E (view s) (x # xs)) = (s', [], out')"
    unfolding sp run_append s1(1) by (rule s'(1))
  have v: "view s' = in_turn E (view s) (x # xs)"
    unfolding s'(2) s1(2) by (simp add: in_turn_def)
  show ?case
    by (rule exI [of _ s'], rule exI [of _ out']) (intro conjI d v s'(3))
qed

text \<open>A new store is sound and holds a new manager; the two readings of what a connection has accepted and of what is queued agree.\<close>

lemma new_stored_view:
  "store_ok (new_stored i n w)" "view (new_stored i n w) = (new_MeshPeerManager i n)\<lparr>ws := w\<rparr>"
  by (simp_all add: store_ok_def new_stored_def view_def new_MeshPeerManager_def)

lemma s_applied_view: "store_ok s \<Longrightarrow> s_applied s k = applied (view s) k"
  using view_lookup [of s k]
  by (auto simp: s_applied_def applied_def split: option.splits dest: store_ok_record)

lemma s_pending_view: "s_pending s k = pendingCandidates (view s) k"
  by (simp add: s_pending_def view_def)

text \<open>From a new manager, for every list of envelopes: on the schedule \<open>serial\<close> the
  scheduler ends with no handler waiting, in the store that holds \<open>in_turn\<close>, and the
  connection of \<open>k\<close> has accepted and the queue of \<open>k\<close> holds what \<open>in_turn\<close> says.\<close>

lemma in_turn_from_new_store:
  "\<exists>s' out'.
     run E (new_stored i n w, [], []) (serial E ((new_MeshPeerManager i n)\<lparr>ws := w\<rparr>) xs)
       = (s', [], out')
     \<and> view s' = in_turn E ((new_MeshPeerManager i n)\<lparr>ws := w\<rparr>) xs
     \<and> s_applied s' k = applied (in_turn E ((new_MeshPeerManager i n)\<lparr>ws := w\<rparr>) xs) k
     \<and> s_pending s' k = pendingCandidates (in_turn E ((new_MeshPeerManager i n)\<lparr>ws := w\<rparr>) xs) k"
proof -
  let ?m = "(new_MeshPeerManager i n)\<lparr>ws := w\<rparr>"
  have "\<exists>s' out'. run E (new_stored i n w, [], []) (serial E (view (new_stored i n w)) xs)
                      = (s', [], out')
            \<and> view s' = in_turn E (view (new_stored i n w)) xs
            \<and> store_ok s'"
    by (rule handled_in_turn [OF new_stored_view(1)])
  then obtain s' out' where s': "run E (new_stored i n w, [], []) (serial E ?m xs) = (s', [], out')"
      "view s' = in_turn E ?m xs" "store_ok s'"
    unfolding new_stored_view(2) by (elim exE conjE)
  have a: "s_applied s' k = applied (in_turn E ?m xs) k"
    using s_applied_view [OF s'(3), of k] s'(2) by simp
  have q: "s_pending s' k = pendingCandidates (in_turn E ?m xs) k"
    using s_pending_view [of s' k] s'(2) by simp
  show ?thesis
    by (rule exI [of _ s'], rule exI [of _ out']) (intro conjI s'(1) s'(2) a q)
qed

text \<open>
  However the handlers overlap: a step of the scheduler takes the queue of \<open>k\<close> away
  only when it resumes a \<open>handleOffer\<close> or a \<open>handleAnswer\<close> for \<open>k\<close> that
  waits at \<open>setRemoteDescription\<close> or in its loop. No arrival of an envelope and no
  other handler deletes a queue.
\<close>

lemma on_pc_queues [simp]: "s_pendingCandidates (on_pc s a g) = s_pendingCandidates s"
  by (simp add: on_pc_def split: option.splits)

lemma pending_array_queues [simp]:
  "s_pendingCandidates (fst (pending_array s f)) = s_pendingCandidates s"
  by (simp add: pending_array_def split: option.splits)

lemma new_record_queues [simp]:
  "s_pendingCandidates (fst (new_record s k n b)) = s_pendingCandidates s"
  by (simp add: new_record_def Let_def)

lemma join_loop_queues [simp]:
  "s_pendingCandidates (fst (join_loop s ps)) = s_pendingCandidates s"
  by (cases ps) (simp_all add: join_loop_def case_prod_beta)

lemma s_removePeer_queues [simp]:
  "s_pendingCandidates (fst (s_removePeer s k)) = s_pendingCandidates s"
  by (simp add: s_removePeer_def Let_def split: option.splits)

lemma s_enqueue_queues:
  "s_pendingCandidates (s_enqueue s f c) k = None \<Longrightarrow> s_pendingCandidates s k = None"
  by (simp add: s_enqueue_def split: option.splits if_splits)

lemma offer_loop_queues:
  "s_pendingCandidates (fst (offer_loop s f a offer r i)) k = None \<Longrightarrow>
   s_pendingCandidates s k = None \<or> k = f"
  by (simp add: offer_loop_def split: if_splits)

lemma answer_loop_queues:
  "s_pendingCandidates (fst (answer_loop s f a r i)) k = None \<Longrightarrow>
   s_pendingCandidates s k = None \<or> k = f"
  by (simp add: answer_loop_def split: if_splits)

lemma deliver_queues:
  "s_pendingCandidates (fst (deliver E s x)) k = None \<Longrightarrow> s_pendingCandidates s k = None"
proof (cases x)
  case (IceCandidate f to c)
  assume "s_pendingCandidates (fst (deliver E s x)) k = None"
  then show ?thesis
    using s_enqueue_queues [of s f c k]
    by (simp add: IceCandidate split: option.splits if_splits)
next
  case (Offer f n to offer)
  assume "s_pendingCandidates (fst (deliver E s x)) k = None"
  then show ?thesis
    using new_record_queues [of s f n False]
    by (simp add: Offer case_prod_beta split: option.splits)
qed (simp_all add: case_prod_beta split: option.splits)

lemma resume_queues:
  "s_pendingCandidates (fst (resume E s t)) k = None \<Longrightarrow>
   s_pendingCandidates s k = None \<or> loop_of t = Some k"
proof (cases t)
  case (OfferSetRemote f a offer)
  assume "s_pendingCandidates (fst (resume E s t)) k = None"
  then show ?thesis
    using offer_loop_queues [of "fst (pending_array (on_pc s a (\<lambda>c. setRemoteDescription c offer)) f)"
            f a offer "snd (pending_array (on_pc s a (\<lambda>c. setRemoteDescription c offer)) f)" 0 k]
    by (auto simp: OfferSetRemote case_prod_beta)
next
  case (OfferAddCandidate f a offer r i)
  assume "s_pendingCandidates (fst (resume E s t)) k = None"
  then show ?thesis
    using offer_loop_queues [of "on_pc s a (\<lambda>c. addIceCandidate c (array s r ! i))" f a offer r "Suc i" k]
    by (auto simp: OfferAddCandidate)
next
  case (AnswerSetRemote f a answer)
  assume "s_pendingCandidates (fst (resume E s t)) k = None"
  then show ?thesis
    using answer_loop_queues [of "fst (pending_array (on_pc s a (\<lambda>c. setRemoteDescription c answer)) f)"
            f a "snd (pending_array (on_pc s a (\<lambda>c. setRemoteDescription c answer)) f)" 0 k]
    by (auto simp: AnswerSetRemote case_prod_beta)
next
  case (AnswerAddCandidate f a r i)
  assume "s_pendingCandidates (fst (resume E s t)) k = None"
  then show ?thesis
    using answer_loop_queues [of "on_pc s a (\<lambda>c. addIceCandidate c (array s r ! i))" f a r "Suc i" k]
    by (auto simp: AnswerAddCandidate)
qed (simp_all add: case_prod_beta)

lemma queue_deleted_only_by_a_drain:
  assumes "s_pendingCandidates s k \<noteq> None"
    and "s_pendingCandidates (fst (step E (s, pool, out) a)) k = None"
  shows "\<exists>i. a = Resume i \<and> i < length pool \<and> loop_of (pool ! i) = Some k"
proof (cases a)
  case (Deliver x)
  have "s_pendingCandidates (fst (deliver E s x)) k = None"
    using assms(2) by (simp add: Deliver case_prod_beta)
  then show ?thesis
    using deliver_queues [of E s x k] assms(1) by simp
next
  case (Resume i)
  show ?thesis
  proof (cases "i < length pool")
    case True
    have "s_pendingCandidates (fst (resume E s (pool ! i))) k = None"
      using assms(2) True by (simp add: Resume case_prod_beta)
    then show ?thesis
      using resume_queues [of E s "pool ! i" k] assms(1) True Resume by simp
  next
    case False
    then show ?thesis using assms by (simp add: Resume)
  qed
qed

subsection \<open>Sending, failure and teardown\<close>

lemma concat_map_if: "concat (map (\<lambda>x. if P x then [f x] else []) xs) = map f (filter P xs)"
  by (induction xs) auto

text \<open>
  C4. \<open>sendMessage\<close> returns one message carrying the manager's peer id and display
  name, the given text and the time stamp, and performs exactly one channel send of that
  message per record whose channel is present and open, in the order of the peer map:
  as many sends as there are such records, none to a record whose channel is missing or
  not open. The same holds for the local-broadcast manager.
\<close>

theorem sendMessage_one_send_per_open_channel:
  "fst (sendMessage newId now m txt)
     = \<lparr>msg_id = newId, sender = peerId m, senderName = peerName m, msg_text = txt, timestamp = now\<rparr>
   \<and> snd (sendMessage newId now m txt)
     = map (\<lambda>kp. ChannelSend (fst kp) (fst (sendMessage newId now m txt)))
         (filter (\<lambda>kp. channel_open (snd kp)) (peers m))
   \<and> length (snd (sendMessage newId now m txt))
     = length (filter (\<lambda>kp. channel_open (snd kp)) (peers m))
   \<and> fst (l_sendMessage newId now lm txt)
     = \<lparr>msg_id = newId, sender = l_peerId lm, senderName = l_peerName lm, msg_text = txt,
        timestamp = now\<rparr>
   \<and> snd (l_sendMessage newId now lm txt)
     = map (\<lambda>kp. LChannelSend (fst kp) (fst (l_sendMessage newId now lm txt)))
         (filter (\<lambda>kp. l_channel_open (snd kp)) (l_peers lm))
   \<and> length (snd (l_sendMessage newId now lm txt))
     = length (filter (\<lambda>kp. l_channel_open (snd kp)) (l_peers lm))"
  by (simp add: sendMessage_def l_sendMessage_def Let_def concat_map_if)

theorem sendMessage_one_send_per_open_channel_witness:
  "length (filter (\<lambda>kp. channel_open (snd kp)) (peers ex_three)) = 2
   \<and> sendMessage ''id1'' 1700 ex_three ''hi''
     = (\<lparr>msg_id = ''id1'', sender = ''me'', senderName = ''Me'', msg_text = ''hi'', timestamp = 1700\<rparr>,
        [ChannelSend ''a'' \<lparr>msg_id = ''id1'', sender = ''me'', senderName = ''Me'', msg_text = ''hi'',
                            timestamp = 1700\<rparr>,
         ChannelSend ''d'' \<lparr>msg_id = ''id1'', sender = ''me'', senderName = ''Me'', msg_text = ''hi'',
                            timestamp = 1700\<rparr>])
   \<and> sendMessage ''id2'' 1701 ex_mesh ''hi''
     = (\<lparr>msg_id = ''id2'', sender = ''me'', senderName = ''Me'', msg_text = ''hi'', timestamp = 1701\<rparr>, [])"
proof -
  have n: "filter (\<lambda>kp. channel_open (snd kp)) (peers ex_three)
           = [(''a'', \<lparr>p_id = ''a'', p_name = ''Ann'', pc = new_RTCPeerConnection,
                channel = Some \<lparr>label = ''chat'', readyState = ChOpen\<rparr>, connected = True\<rparr>),
              (''d'', \<lparr>p_id = ''d'', p_name = ''Di'', pc = new_RTCPeerConnection,
                channel = Some \<lparr>label = ''chat'', readyState = ChOpen\<rparr>, connected = True\<rparr>)]"
    by (simp add: ex_three_def channel_open_def)
  have z: "filter (\<lambda>kp. channel_open (snd kp)) (peers ex_mesh) = []"
    by (simp add: ex_mesh_def new_MeshPeerManager_def)
  have ids: "peerId ex_three = ''me''" "peerName ex_three = ''Me''"
    "peerId ex_mesh = ''me''" "peerName ex_mesh = ''Me''"
    by (simp_all add: ex_three_def ex_mesh_def new_MeshPeerManager_def)
  show ?thesis
    using sendMessage_one_send_per_open_channel [of "''id1''" 1700 ex_three "''hi''"]
      sendMessage_one_send_per_open_channel [of "''id2''" 1701 ex_mesh "''hi''"]
    by (simp add: n z ids prod_eq_iff)
qed

lemma map_of_map_entry:
  "map_of (map (\<lambda>kp. if fst kp = rid then (fst kp, f (snd kp)) else kp) kvs) k
   = (if k = rid then map_option f (map_of kvs k) else map_of kvs k)"
  by (induction kvs) auto

lemma connected_ids_after_reset:
  "list_all (\<lambda>kp. p_id (snd kp) = fst kp) kvs \<Longrightarrow>
   rid \<notin> p_id ` set (filter connected (map snd
            (map (\<lambda>kp. if fst kp = rid then (fst kp, (snd kp)\<lparr>connected := False\<rparr>) else kp) kvs)))"
  by (induction kvs) auto

lemma getConnectedPeers_ids:
  "fst ` set (getConnectedPeers m) = p_id ` set (filter connected (map snd (peers m)))"
  by (simp add: getConnectedPeers_def image_image)

lemma getConnectedPeers_set_connected_False:
  "keyed m \<Longrightarrow> rid \<notin> fst ` set (getConnectedPeers (set_connected m rid False))"
  unfolding getConnectedPeers_ids
  using connected_ids_after_reset [of "peers m" rid]
  by (simp add: keyed_def set_connected_def)

lemma l_connected_ids_keys:
  "list_all (\<lambda>kp. l_id (snd kp) = fst kp) kvs \<Longrightarrow>
   l_id ` set (filter l_connected (map snd kvs)) \<subseteq> fst ` set kvs"
  by (induction kvs) auto

lemma l_getConnectedPeers_ids:
  "fst ` set (l_getConnectedPeers m) = l_id ` set (filter l_connected (map snd (l_peers m)))"
  by (simp add: l_getConnectedPeers_def image_image)

lemma l_getConnectedPeers_absent:
  assumes "l_keyed m" and "rid \<notin> fst ` set (l_peers m)"
  shows "rid \<notin> fst ` set (l_getConnectedPeers m)"
  unfolding l_getConnectedPeers_ids
  using l_connected_ids_keys [of "l_peers m"] assms by (auto simp: l_keyed_def)

lemma l_keyed_map_delete: "l_keyed m \<Longrightarrow> l_keyed (m\<lparr>l_peers := map_delete (l_peers m) rid\<rparr>)"
  by (simp add: l_keyed_def map_delete_def list_all_iff)

lemma l_getConnectedPeers_removed:
  assumes "l_keyed m"
  shows "rid \<notin> fst ` set (l_getConnectedPeers (m\<lparr>l_peers := map_delete (l_peers m) rid\<rparr>))"
proof (rule l_getConnectedPeers_absent)
  show "l_keyed (m\<lparr>l_peers := map_delete (l_peers m) rid\<rparr>)"
    using assms by (rule l_keyed_map_delete)
  show "rid \<notin> fst ` set (l_peers (m\<lparr>l_peers := map_delete (l_peers m) rid\<rparr>))"
    by (auto simp: map_delete_def)
qed

lemma l_keyed_set_connected: "l_keyed m \<Longrightarrow> l_keyed (l_set_connected m rid b)"
  by (auto simp: l_keyed_def l_set_connected_def list_all_iff)

lemma l_removePeer_props:
  "\<not> map_has (l_peers (fst (l_removePeer m rid))) rid
   \<and> (l_keyed m \<longrightarrow> rid \<notin> fst ` set (l_getConnectedPeers (fst (l_removePeer m rid))))
   \<and> (case map_of (l_peers m) rid of
         None \<Rightarrow> True
       | Some p \<Rightarrow> set (l_close_handles p) \<subseteq> set (snd (l_removePeer m rid)))
   \<and> list_all (\<lambda>e. \<not> is_post e) (snd (l_removePeer m rid))"
proof (cases "map_of (l_peers m) rid")
  case None
  have "rid \<notin> fst ` set (l_peers m)"
    using None by (simp add: map_of_eq_None_iff)
  then have "l_keyed m \<Longrightarrow> rid \<notin> fst ` set (l_getConnectedPeers m)"
    by (simp add: l_getConnectedPeers_absent)
  then show ?thesis
    using None by (simp add: l_removePeer_def map_has_def)
next
  case (Some p)
  then show ?thesis
    using l_getConnectedPeers_removed [of m rid]
    by (auto simp: l_removePeer_def map_has_def Let_def map_of_map_delete l_close_handles_def
        l_notifyConnectionChange_def is_post_def split: option.splits)
qed

text \<open>
  C5, as amended. In the local-broadcast manager a connection that reaches the failed
  state has its record removed from the peer map and its handles closed, the peer is not
  in \<open>getConnectedPeers\<close>, and nothing is posted on the bus. In the server-relayed
  manager the record stays in the peer map with \<open>connected\<close> false and no handle is
  closed; the peer is not in \<open>getConnectedPeers\<close>, the connection-change callback
  reports the whole peer map, and nothing is written to the socket.
\<close>

theorem failed_connection_by_variant:
  assumes "l_keyed lm" and "keyed m"
  shows "\<not> map_has (l_peers (fst (l_onconnectionstatechange lm rid Failed))) rid
       \<and> rid \<notin> fst ` set (l_getConnectedPeers (fst (l_onconnectionstatechange lm rid Failed)))
       \<and> (case map_of (l_peers lm) rid of
             None \<Rightarrow> True
           | Some p \<Rightarrow> set (l_close_handles p) \<subseteq> set (snd (l_onconnectionstatechange lm rid Failed)))
       \<and> list_all (\<lambda>e. \<not> is_post e) (snd (l_onconnectionstatechange lm rid Failed))
       \<and> map_of (peers (fst (onconnectionstatechange m rid Failed))) rid
           = map_option (\<lambda>p. p\<lparr>connected := False\<rparr>) (map_of (peers m) rid)
       \<and> rid \<notin> fst ` set (getConnectedPeers (fst (onconnectionstatechange m rid Failed)))
       \<and> snd (onconnectionstatechange m rid Failed)
           = notifyConnectionChange (fst (onconnectionstatechange m rid Failed))
       \<and> list_all (\<lambda>e. \<not> is_send e) (snd (onconnectionstatechange m rid Failed))"
proof -
  let ?m1 = "l_set_connected lm rid False"
  have run: "l_onconnectionstatechange lm rid Failed
             = (fst (l_removePeer ?m1 rid), l_notifyConnectionChange ?m1 @ snd (l_removePeer ?m1 rid))"
    by (simp add: l_onconnectionstatechange_def Let_def split: prod.splits)
  note rp = l_removePeer_props [of ?m1 rid]
  have k1: "l_keyed ?m1"
    using assms(1) by (rule l_keyed_set_connected)
  have handles: "case map_of (l_peers lm) rid of
             None \<Rightarrow> True
           | Some p \<Rightarrow> set (l_close_handles p) \<subseteq> set (snd (l_removePeer ?m1 rid))"
    using rp by (auto simp: l_set_connected_def map_of_map_entry l_close_handles_def
        split: option.splits)
  have local: "\<not> map_has (l_peers (fst (l_onconnectionstatechange lm rid Failed))) rid
       \<and> rid \<notin> fst ` set (l_getConnectedPeers (fst (l_onconnectionstatechange lm rid Failed)))
       \<and> (case map_of (l_peers lm) rid of
             None \<Rightarrow> True
           | Some p \<Rightarrow> set (l_close_handles p) \<subseteq> set (snd (l_onconnectionstatechange lm rid Failed)))
       \<and> list_all (\<lambda>e. \<not> is_post e) (snd (l_onconnectionstatechange lm rid Failed))"
    using rp k1 handles
    by (auto simp: run l_notifyConnectionChange_def is_post_def Let_def split: option.splits)
  have mesh: "map_of (peers (fst (onconnectionstatechange m rid Failed))) rid
           = map_option (\<lambda>p. p\<lparr>connected := False\<rparr>) (map_of (peers m) rid)
       \<and> rid \<notin> fst ` set (getConnectedPeers (fst (onconnectionstatechange m rid Failed)))
       \<and> snd (onconnectionstatechange m rid Failed)
           = notifyConnectionChange (fst (onconnectionstatechange m rid Failed))
       \<and> list_all (\<lambda>e. \<not> is_send e) (snd (onconnectionstatechange m rid Failed))"
    using getConnectedPeers_set_connected_False [OF assms(2), of rid]
    by (simp add: onconnectionstatechange_def Let_def notifyConnectionChange_def is_send_def)
       (simp add: set_connected_def map_of_map_entry)
  show ?thesis
    using local mesh by blast
qed

theorem failed_connection_by_variant_witness:
  "l_keyed ex_local \<and> keyed ex_joined
   \<and> l_onconnectionstatechange ex_local ''x'' Failed
       = (ex_local\<lparr>l_peers := []\<rparr>,
          [LOnConnectionChange False 0, LChannelClose ''x'', ConnectionClose ''x'', LOnPeerLeave ''x'',
           LOnConnectionChange False 0])
   \<and> getConnectedPeers ex_joined = [(''x'', ''Xi'', True)]
   \<and> getConnectedPeers (fst (onconnectionstatechange ex_joined ''x'' Failed)) = []
   \<and> map_option connected (map_of (peers (fst (onconnectionstatechange ex_joined ''x'' Failed))) ''x'')
       = Some False"
proof -
  have k: "l_keyed ex_local" "keyed ex_joined"
    by (simp_all add: l_keyed_def keyed_def ex_local_def ex_joined_def ex_mesh_def
        ex_prim_def new_MeshPeerManager_def createPeerConnection_def Let_def channel_onopen_def)
  have l: "l_onconnectionstatechange ex_local ''x'' Failed
       = (ex_local\<lparr>l_peers := []\<rparr>,
          [LOnConnectionChange False 0, LChannelClose ''x'', ConnectionClose ''x'', LOnPeerLeave ''x'',
           LOnConnectionChange False 0])"
    by (simp add: l_onconnectionstatechange_def l_set_connected_def l_notifyConnectionChange_def
        l_removePeer_def l_close_handles_def map_delete_def ex_local_def Let_def)
  have g: "getConnectedPeers ex_joined = [(''x'', ''Xi'', True)]"
    by (simp add: getConnectedPeers_def ex_joined_def ex_mesh_def
        ex_prim_def new_MeshPeerManager_def createPeerConnection_def Let_def channel_onopen_def)
  have g2: "getConnectedPeers (fst (onconnectionstatechange ex_joined ''x'' Failed)) = []"
    by (simp add: getConnectedPeers_def ex_joined_def ex_mesh_def
        ex_prim_def new_MeshPeerManager_def createPeerConnection_def Let_def channel_onopen_def
        onconnectionstatechange_def set_connected_def)
  have before: "map_option connected (map_of (peers ex_joined) ''x'') = Some True"
    by (simp add: ex_joined_def ex_mesh_def
        ex_prim_def new_MeshPeerManager_def createPeerConnection_def Let_def channel_onopen_def)
  show ?thesis
    using failed_connection_by_variant [OF k, of "''x''"] l g g2 before
    by (auto simp: k)
qed

text \<open>
  C5 as stated fails for the server-relayed manager: after the failed state the record of
  \<open>x\<close> is still in the peer map, the only effect is the connection-change callback,
  and that callback still lists \<open>x\<close>.
\<close>

theorem failed_mesh_record_kept_counterexample:
  "map_has (peers (fst (onconnectionstatechange ex_joined ''x'' Failed))) ''x''
   \<and> snd (onconnectionstatechange ex_joined ''x'' Failed) = [OnConnectionChange [(''x'', ''Xi'', False)]]"
  by (simp add: map_has_def ex_joined_def ex_mesh_def
        ex_prim_def new_MeshPeerManager_def createPeerConnection_def Let_def channel_onopen_def
        onconnectionstatechange_def set_connected_def notifyConnectionChange_def)

text \<open>
  C6, as amended. \<open>removePeer\<close> on a peer that has a record closes the record's channel
  (when it has one) and its connection, removes the record and calls the connection-change
  callback; without a record it does nothing. \<open>peer-left\<close> goes through
  \<open>removePeer\<close>. \<open>disconnect\<close> closes the handles of every record and empties the
  peer map. Neither touches the pending candidate queues. A queue is deleted only by the
  handler of an offer from its peer id, or of an answer from it while the id has a record:
  the handler of any other envelope leaves the queue as it is or appends the candidate the
  envelope carries, and the lifecycle callbacks and \<open>joinRoom\<close> leave every queue as it
  is.
\<close>

theorem teardown_keeps_pending_queue:
  "(case map_of (peers m) rid of
      None \<Rightarrow> removePeer m rid = (m, [])
    | Some p \<Rightarrow>
        removePeer m rid
          = (m\<lparr>peers := map_delete (peers m) rid\<rparr>,
             close_handles p @ notifyConnectionChange (m\<lparr>peers := map_delete (peers m) rid\<rparr>)))
   \<and> \<not> map_has (peers (fst (removePeer m rid))) rid
   \<and> pendingCandidates (fst (removePeer m rid)) = pendingCandidates m
   \<and> handleSignal E m (PeerLeft rid n) = (fst (removePeer m rid), snd (removePeer m rid) @ [OnPeerLeave rid n])
   \<and> close_handles q
       = (if channel q = None then [] else [ChannelClose (p_id q)]) @ [PcClose (p_id q)]
   \<and> peers (fst (disconnect m)) = []
   \<and> snd (disconnect m)
       = concat (map (\<lambda>kp. close_handles (snd kp)) (peers m)) @ (if ws m = None then [] else [WsClose])
   \<and> pendingCandidates (fst (disconnect m)) = pendingCandidates m
   \<and> pendingCandidates (fst (handleSignal E m x)) k
       = (if drains m x k then None
          else if arrived x k \<noteq> [] \<and> remote_unset m k then Some (pending m k @ arrived x k)
          else pendingCandidates m k)
   \<and> (pendingCandidates m k \<noteq> None \<and> pendingCandidates (fst (handleSignal E m x)) k = None
        \<longrightarrow> drains m x k)
   \<and> pendingCandidates (fst (onconnectionstatechange m r st)) = pendingCandidates m
   \<and> pendingCandidates (fst (channel_onopen m r)) = pendingCandidates m
   \<and> pendingCandidates (fst (joinRoom m r)) = pendingCandidates m"
proof -
  have teardown: "(case map_of (peers m) rid of
      None \<Rightarrow> removePeer m rid = (m, [])
    | Some p \<Rightarrow>
        removePeer m rid
          = (m\<lparr>peers := map_delete (peers m) rid\<rparr>,
             close_handles p @ notifyConnectionChange (m\<lparr>peers := map_delete (peers m) rid\<rparr>)))
   \<and> \<not> map_has (peers (fst (removePeer m rid))) rid
   \<and> pendingCandidates (fst (removePeer m rid)) = pendingCandidates m
   \<and> handleSignal E m (PeerLeft rid n) = (fst (removePeer m rid), snd (removePeer m rid) @ [OnPeerLeave rid n])
   \<and> close_handles q
       = (if channel q = None then [] else [ChannelClose (p_id q)]) @ [PcClose (p_id q)]
   \<and> peers (fst (disconnect m)) = []
   \<and> snd (disconnect m)
       = concat (map (\<lambda>kp. close_handles (snd kp)) (peers m)) @ (if ws m = None then [] else [WsClose])
   \<and> pendingCandidates (fst (disconnect m)) = pendingCandidates m"
    by (auto simp: removePeer_def Let_def map_has_def map_of_map_delete disconnect_def
        close_handles_def split: option.splits prod.splits)
  note q = handleSignal_queue [of E m x k]
  have only: "pendingCandidates m k \<noteq> None \<and> pendingCandidates (fst (handleSignal E m x)) k = None
        \<longrightarrow> drains m x k"
    using q by (auto split: if_splits)
  have others: "pendingCandidates (fst (onconnectionstatechange m r st)) = pendingCandidates m
   \<and> pendingCandidates (fst (channel_onopen m r)) = pendingCandidates m
   \<and> pendingCandidates (fst (joinRoom m r)) = pendingCandidates m"
    by (simp add: onconnectionstatechange_def set_connected_def channel_onopen_def joinRoom_def
        Let_def)
  show ?thesis
    using teardown q only others by (elim conjE) (intro conjI; assumption)
qed

theorem teardown_keeps_pending_queue_witness:
  "removePeer ex_three ''c''
     = (ex_three\<lparr>peers := map_delete (peers ex_three) ''c''\<rparr>,
        [ChannelClose ''c'', PcClose ''c'',
         OnConnectionChange [(''a'', ''Ann'', True), (''b'', ''Bob'', False), (''d'', ''Di'', True)]])
   \<and> removePeer ex_three ''z'' = (ex_three, [])
   \<and> pendingCandidates ex_queued ''x'' = Some [''c1'']
   \<and> pendingCandidates (fst (handleSignal ex_prim ex_queued (RoomsList []))) ''x'' = Some [''c1'']
   \<and> pendingCandidates (fst (handleSignal ex_prim ex_queued (IceCandidate ''x'' ''me'' ''c2''))) ''x''
       = Some [''c1'', ''c2'']
   \<and> pendingCandidates (fst (handleSignal ex_prim ex_queued (Answer ''x'' ''Xi'' ''me'' ''a''))) ''x''
       = None"
proof -
  have c: "map_of (peers ex_three) ''c''
           = Some \<lparr>p_id = ''c'', p_name = ''Cy'', pc = new_RTCPeerConnection,
                channel = Some \<lparr>label = ''chat'', readyState = ChClosed\<rparr>, connected = False\<rparr>"
    "map_of (peers ex_three) ''z'' = None"
    by (simp_all add: ex_three_def)
  have n: "notifyConnectionChange (ex_three\<lparr>peers := map_delete (peers ex_three) ''c''\<rparr>)
           = [OnConnectionChange [(''a'', ''Ann'', True), (''b'', ''Bob'', False), (''d'', ''Di'', True)]]"
    by (simp add: notifyConnectionChange_def ex_three_def map_delete_def)
  have obs: "pendingCandidates ex_queued ''x'' = Some [''c1'']" "pending ex_queued ''x'' = [''c1'']"
    "remote_unset ex_queued ''x''" "map_has (peers ex_queued) ''x''"
    by (simp_all add: ex_queued_def pending_def remote_unset_def map_has_def)
  note rc = teardown_keeps_pending_queue [where m = ex_three and rid = "''c''", THEN conjunct1]
  note rz = teardown_keeps_pending_queue [where m = ex_three and rid = "''z''", THEN conjunct1]
  note qx = teardown_keeps_pending_queue
    [where m = ex_queued and E = ex_prim and k = "''x''",
     THEN conjunct2, THEN conjunct2, THEN conjunct2, THEN conjunct2, THEN conjunct2,
     THEN conjunct2, THEN conjunct2, THEN conjunct2, THEN conjunct1]
  have first: "removePeer ex_three ''c''
     = (ex_three\<lparr>peers := map_delete (peers ex_three) ''c''\<rparr>,
        [ChannelClose ''c'', PcClose ''c'',
         OnConnectionChange [(''a'', ''Ann'', True), (''b'', ''Bob'', False), (''d'', ''Di'', True)]])
   \<and> removePeer ex_three ''z'' = (ex_three, [])"
    using rc rz by (simp add: c n close_handles_def)
  have q1: "pendingCandidates (fst (handleSignal ex_prim ex_queued (RoomsList []))) ''x'' = Some [''c1'']"
    unfolding qx by (simp add: obs drains_def arrived_def)
  have q2: "pendingCandidates (fst (handleSignal ex_prim ex_queued (IceCandidate ''x'' ''me'' ''c2''))) ''x''
       = Some [''c1'', ''c2'']"
    unfolding qx by (simp add: obs drains_def arrived_def)
  have q3: "pendingCandidates (fst (handleSignal ex_prim ex_queued (Answer ''x'' ''Xi'' ''me'' ''a''))) ''x''
       = None"
    unfolding qx by (simp add: obs drains_def arrived_def)
  show ?thesis
    using first obs(1) q1 q2 q3 by (elim conjE) (intro conjI; assumption)
qed

text \<open>
  C6 as stated fails: the candidate queued for \<open>x\<close> in \<open>ex_queued\<close>, the manager that
  has offered to \<open>x\<close> and then received one candidate from it, is still queued after
  \<open>x\<close>'s record is torn down by \<open>peer-left\<close> (and after \<open>disconnect\<close>), and the
  offer from \<open>x\<close> handled next applies it to the new connection.
\<close>

theorem stale_candidate_survives_teardown_counterexample:
  "fst (handleSignal ex_prim (fst (handleSignal ex_prim ex_mesh (RoomJoined ''R'' [(''x'', ''Xi'')])))
          (IceCandidate ''x'' ''me'' ''c1''))
     = ex_queued
   \<and> pendingCandidates (fst (handleSignal ex_prim ex_queued (PeerLeft ''x'' ''Xi''))) ''x''
       = Some [''c1'']
   \<and> \<not> map_has (peers (fst (handleSignal ex_prim ex_queued (PeerLeft ''x'' ''Xi'')))) ''x''
   \<and> applied
       (fst (handleSignal ex_prim (fst (handleSignal ex_prim ex_queued (PeerLeft ''x'' ''Xi'')))
               (Offer ''x'' ''Xi'' ''me'' ''o2'')))
       ''x'' = [''c1'']
   \<and> pendingCandidates (fst (disconnect ex_queued)) ''x'' = Some [''c1'']"
  by (simp add: ex_queued_def ex_mesh_def ex_prim_def new_MeshPeerManager_def createPeerConnection_def
      Let_def handleIceCandidate_def enqueue_def removePeer_def map_delete_def map_has_def
      setLocalDescription_def new_RTCPeerConnection_def handleOffer_def pending_def applied_def
      setRemoteDescription_def addIceCandidate_def disconnect_def createDataChannel_def send_def)

subsection \<open>The server: relay, health, rooms\<close>

lemma find_Some_member: "find P xs = Some x \<Longrightarrow> x \<in> set xs \<and> P x"
  by (induction xs) (auto split: if_splits)

lemma relay_case_shape:
  "relay_case rs c to m = [] \<or>
   (\<exists>p \<in> set (room_of rs c). pi_peerId p = to \<and> relay_case rs c to m = [(pi_ws p, m)])"
  unfolding relay_case_def room_of_def
  by (auto split: option.splits dest: find_Some_member)

lemma relay_case_nobody:
  "\<forall>p \<in> set (room_of rs c). pi_peerId p \<noteq> to \<Longrightarrow> relay_case rs c to m = []"
  using relay_case_shape [of rs c to m] by auto

lemma relay_case_first:
  "relay_case rs c to m
   = (case find (\<lambda>p. pi_peerId p = to) (room_of rs c) of None \<Rightarrow> [] | Some p \<Rightarrow> [(pi_ws p, m)])"
  by (simp add: relay_case_def room_of_def split: option.splits)

lemma relay_case_somebody:
  "\<exists>p \<in> set (room_of rs c). pi_peerId p = to \<Longrightarrow>
   \<exists>p \<in> set (room_of rs c). pi_peerId p = to \<and> relay_case rs c to m = [(pi_ws p, m)]"
proof -
  assume "\<exists>p \<in> set (room_of rs c). pi_peerId p = to"
  then obtain q where q: "find (\<lambda>p. pi_peerId p = to) (room_of rs c) = Some q"
    by (cases "find (\<lambda>p. pi_peerId p = to) (room_of rs c)") (auto simp: find_None_iff)
  then have "q \<in> set (room_of rs c) \<and> pi_peerId q = to"
    by (rule find_Some_member)
  then show ?thesis
    using q by (auto simp: relay_case_first)
qed

lemma relay_case_props:
  "length (relay_case rs c to m) \<le> 1
   \<and> (\<forall>(w', m') \<in> set (relay_case rs c to m).
         m' = m \<and> (\<exists>p \<in> set (room_of rs c). pi_ws p = w' \<and> pi_peerId p = to))
   \<and> ((\<forall>p \<in> set (room_of rs c). pi_peerId p \<noteq> to) \<longrightarrow> relay_case rs c to m = [])
   \<and> ((\<exists>p \<in> set (room_of rs c). pi_peerId p = to) \<longrightarrow>
         (\<exists>p \<in> set (room_of rs c). pi_peerId p = to \<and> relay_case rs c to m = [(pi_ws p, m)]))"
  using relay_case_shape [of rs c to m] relay_case_nobody [of rs c to m]
    relay_case_somebody [of rs c to m] by auto

text \<open>
  C8. Handling an \<open>offer\<close>, \<open>answer\<close> or \<open>ice-candidate\<close> envelope changes nothing
  in the server and sends at most one message: the envelope itself, unmodified, to the
  socket of a member of the sender's current room whose \<open>peerId\<close> is the envelope's
  \<open>to\<close>. When the sender's current room has such a member, the envelope is sent, to the
  first of them in the room's order and to nobody else. When the sender's current room
  has no such member (or the sender is in no room), nothing is sent.
\<close>

theorem relay_single_recipient_in_room:
  assumes "message = Offer from fromName to x \<or> message = Answer from fromName to x
           \<or> message = IceCandidate from to x"
  shows "fst (on_message ready w (s, c) message) = (s, c)
       \<and> length (snd (on_message ready w (s, c) message)) \<le> 1
       \<and> (\<forall>(w', m') \<in> set (snd (on_message ready w (s, c) message)).
             m' = message \<and> (\<exists>p \<in> set (room_of (rooms s) c). pi_ws p = w' \<and> pi_peerId p = to))
       \<and> ((\<forall>p \<in> set (room_of (rooms s) c). pi_peerId p \<noteq> to)
            \<longrightarrow> snd (on_message ready w (s, c) message) = [])
       \<and> ((\<exists>p \<in> set (room_of (rooms s) c). pi_peerId p = to)
            \<longrightarrow> (\<exists>p \<in> set (room_of (rooms s) c).
                   pi_peerId p = to \<and> snd (on_message ready w (s, c) message) = [(pi_ws p, message)]))
       \<and> snd (on_message ready w (s, c) message)
           = (case find (\<lambda>p. pi_peerId p = to) (room_of (rooms s) c) of
                None \<Rightarrow> []
              | Some p \<Rightarrow> [(pi_ws p, message)])"
proof -
  have "on_message ready w (s, c) message = ((s, c), relay_case (rooms s) c to message)"
    using assms by auto
  then show ?thesis
    using relay_case_props [of "rooms s" c to message] relay_case_first [of "rooms s" c to message]
    by simp
qed

theorem relay_single_recipient_in_room_witness:
  "map pi_peerId (room_of (rooms (fst ex_two)) (snd ex_two)) = [''p1'', ''p2'']
   \<and> on_message (\<lambda>w. True) 2 ex_two (Offer ''p2'' ''Bob'' ''p1'' ''sdp'')
       = (ex_two, [(1, Offer ''p2'' ''Bob'' ''p1'' ''sdp'')])
   \<and> on_message (\<lambda>w. True) 2 ex_two (IceCandidate ''p2'' ''p9'' ''cand'') = (ex_two, [])"
proof -
  have two: "ex_two =
     (\<lparr>rooms = [(''R'', [\<lparr>pi_obj = 0, pi_ws = 1, pi_peerId = ''p1'', pi_peerName = ''Ann''\<rparr>,
                          \<lparr>pi_obj = 1, pi_ws = 2, pi_peerId = ''p2'', pi_peerName = ''Bob''\<rparr>])],
        nextObj = 2\<rparr>,
      \<lparr>currentRoom = Some ''R'',
        peerInfo = Some \<lparr>pi_obj = 1, pi_ws = 2, pi_peerId = ''p2'', pi_peerName = ''Bob''\<rparr>\<rparr>)"
    by (simp add: ex_two_def join_case_def leave_current_def server_init_def conn_init_def
        map_has_def broadcastToRoom_def Let_def)
  have r: "room_of (rooms (fst ex_two)) (snd ex_two)
           = [\<lparr>pi_obj = 0, pi_ws = 1, pi_peerId = ''p1'', pi_peerName = ''Ann''\<rparr>,
              \<lparr>pi_obj = 1, pi_ws = 2, pi_peerId = ''p2'', pi_peerName = ''Bob''\<rparr>]"
    by (simp add: two room_of_def)
  have a: "fst (on_message (\<lambda>w. True) 2 ex_two (Offer ''p2'' ''Bob'' ''p1'' ''sdp'')) = ex_two
         \<and> snd (on_message (\<lambda>w. True) 2 ex_two (Offer ''p2'' ''Bob'' ''p1'' ''sdp''))
           = [(1, Offer ''p2'' ''Bob'' ''p1'' ''sdp'')]"
    using relay_single_recipient_in_room
        [of "Offer ''p2'' ''Bob'' ''p1'' ''sdp''" "''p2''" "''Bob''" "''p1''" "''sdp''"
            "\<lambda>w. True" 2 "fst ex_two" "snd ex_two"]
    unfolding r by simp
  have b: "fst (on_message (\<lambda>w. True) 2 ex_two (IceCandidate ''p2'' ''p9'' ''cand'')) = ex_two
         \<and> snd (on_message (\<lambda>w. True) 2 ex_two (IceCandidate ''p2'' ''p9'' ''cand'')) = []"
    using relay_single_recipient_in_room
        [of "IceCandidate ''p2'' ''p9'' ''cand''" "''p2''" "''Bob''" "''p9''" "''cand''"
            "\<lambda>w. True" 2 "fst ex_two" "snd ex_two"]
    unfolding r by simp
  show ?thesis
    using a b by (simp add: r prod_eq_iff)
qed

text \<open>
  C9, as amended. A GET request to \<open>/health\<close> is answered with status 200 and the JSON
  object with the field \<open>status\<close>, which is \<open>ok\<close>, and the field \<open>rooms\<close>, which is
  the number of rooms in the table.
\<close>

theorem health_body:
  "statusCode (httpServer rs ''GET'' ''/health'') = 200
   \<and> contentType (httpServer rs ''GET'' ''/health'') = Some ''application/json''
   \<and> body (httpServer rs ''GET'' ''/health'')
       = JsonBody (JObject [(''status'', JString ''ok''), (''rooms'', JNumber (length rs))])
   \<and> body_field (httpServer rs ''GET'' ''/health'') ''status'' = Some (JString ''ok'')
   \<and> body_field (httpServer rs ''GET'' ''/health'') ''rooms'' = Some (JNumber (length rs))"
  by (simp add: httpServer_def body_field_def)

text \<open>
  C9 as stated fails: the body has no field \<open>roomCount\<close>.
\<close>

theorem health_roomCount_counterexample:
  "body_field (httpServer [] ''GET'' ''/health'') ''roomCount'' = None"
  by (simp add: httpServer_def body_field_def)

text \<open>
  C3 does not hold of the \<open>join\<close> case. Socket 1 joins room \<open>A\<close> and then room
  \<open>B\<close>: room \<open>A\<close> stays in the table with no member, and a rooms listing asked for
  afterwards names it with \<open>peerCount\<close> 0. Had socket 1 closed instead, the close handler
  would have deleted room \<open>A\<close>.
\<close>

theorem join_leaves_empty_prior_room:
  "map_of (rooms (fst (fst
      (on_message (\<lambda>w. True) 1
         (fst (on_message (\<lambda>w. True) 1 (server_init, conn_init) (Join ''A'' ''p1'' ''Ann'')))
         (Join ''B'' ''p1'' ''Ann''))))) ''A'' = Some []
   \<and> snd (on_message (\<lambda>w. True) 2
        (fst (fst (on_message (\<lambda>w. True) 1
           (fst (on_message (\<lambda>w. True) 1 (server_init, conn_init) (Join ''A'' ''p1'' ''Ann'')))
           (Join ''B'' ''p1'' ''Ann''))), conn_init) GetRooms)
     = [(2, RoomsList [(''A'', 0, []), (''B'', 1, [(''p1'', ''Ann'')])])]
   \<and> rooms (fst (fst (on_close (\<lambda>w. True)
        (fst (on_message (\<lambda>w. True) 1 (server_init, conn_init) (Join ''A'' ''p1'' ''Ann'')))))) = []"
  by (simp add: join_case_def leave_current_def server_init_def conn_init_def map_has_def
      broadcastToRoom_def set_delete_def roomList_def on_close_def map_delete_def Let_def)

subsection \<open>Room ids and letter case\<close>

lemma broadcast_created_room:
  "broadcastToRoom ready (if \<not> map_has rs r then map_set rs r [] else rs) r msg ex
   = broadcastToRoom ready rs r msg ex"
  by (simp add: broadcastToRoom_def map_has_def map_of_map_set split: option.splits)

lemma members_created_room:
  "(case map_of (if \<not> map_has rs r then map_set rs r [] else rs) r of None \<Rightarrow> [] | Some room \<Rightarrow> room)
   = members_of rs r"
  by (auto simp: members_of_def map_has_def map_of_map_set split: option.splits)

lemma join_fresh:
  "join_case ready w (s, conn_init) r i n
   = ((\<lparr>rooms = map_set (if \<not> map_has (rooms s) r then map_set (rooms s) r [] else rooms s) r
                   (members_of (rooms s) r
                      @ [\<lparr>pi_obj = nextObj s, pi_ws = w, pi_peerId = i, pi_peerName = n\<rparr>]),
        nextObj = Suc (nextObj s)\<rparr>,
       \<lparr>currentRoom = Some r,
        peerInfo = Some \<lparr>pi_obj = nextObj s, pi_ws = w, pi_peerId = i, pi_peerName = n\<rparr>\<rparr>),
      (w, RoomJoined r (map (\<lambda>q. (pi_peerId q, pi_peerName q)) (members_of (rooms s) r)))
        # broadcastToRoom ready (rooms s) r (PeerJoined i n) (Some w))"
  by (simp add: join_case_def leave_current_def conn_init_def Let_def
      broadcast_created_room members_created_room)

lemma members_after_join_fresh:
  "members_of (rooms (fst (fst (on_message ready w (s, conn_init) (Join r i n))))) r
   = members_of (rooms s) r @ [\<lparr>pi_obj = nextObj s, pi_ws = w, pi_peerId = i, pi_peerName = n\<rparr>]"
  by (simp add: join_fresh members_of_def map_of_map_set)

lemma popup_joinRoom_sends:
  "ws m = Some True \<Longrightarrow> trim S r \<noteq> [] \<Longrightarrow>
   wire (snd (popup_joinRoom S m r)) = [Join (toUpperCase S (trim S r)) (peerId m) (peerName m)]"
  by (simp add: popup_joinRoom_def joinRoom_def send_def wire_def)

lemma client_to_server_one:
  "wire es = [x] \<Longrightarrow> client_to_server ready w sc es = on_message ready w sc x"
  by (simp add: client_to_server_def split: prod.splits)

text \<open>
  C7, as amended. The server and \<open>MeshPeerManager.joinRoom\<close> compare room ids as they
  are; it is the popup that trims and upper-cases the id before it calls \<open>joinRoom\<close>,
  with the language's own \<open>trim\<close> and \<open>toUpperCase\<close>, whatever they do to a string.
  For two newly connected clients that join through the popup with room ids that are not
  empty after trimming and whose trimmed, upper-cased forms agree, the second joiner's
  \<open>room-joined\<close> reply names that upper-cased room and lists the first peer, and both
  are members of that room. A room id that is empty after trimming is not sent at all.
\<close>

theorem popup_joins_meet_in_upper_cased_room:
  assumes "ws mA = Some True" and "ws mB = Some True"
    and "trim S r1 \<noteq> []" and "trim S r2 \<noteq> []"
    and "toUpperCase S (trim S r1) = toUpperCase S (trim S r2)"
  shows "snd (client_to_server ready wB
                (fst (fst (client_to_server ready wA (s, conn_init) (snd (popup_joinRoom S mA r1)))),
                 conn_init)
                (snd (popup_joinRoom S mB r2)))
         = (wB, RoomJoined (toUpperCase S (trim S r1))
                  (map (\<lambda>q. (pi_peerId q, pi_peerName q)) (members_of (rooms s) (toUpperCase S (trim S r1)))
                     @ [(peerId mA, peerName mA)]))
           # broadcastToRoom ready
               (rooms (fst (fst (client_to_server ready wA (s, conn_init) (snd (popup_joinRoom S mA r1))))))
               (toUpperCase S (trim S r1)) (PeerJoined (peerId mB) (peerName mB)) (Some wB)
       \<and> map (\<lambda>q. (pi_ws q, pi_peerId q))
           (members_of
              (rooms (fst (fst (client_to_server ready wB
                (fst (fst (client_to_server ready wA (s, conn_init) (snd (popup_joinRoom S mA r1)))),
                 conn_init)
                (snd (popup_joinRoom S mB r2))))))
              (toUpperCase S (trim S r1)))
         = map (\<lambda>q. (pi_ws q, pi_peerId q)) (members_of (rooms s) (toUpperCase S (trim S r1)))
             @ [(wA, peerId mA), (wB, peerId mB)]
       \<and> (trim S r = [] \<longrightarrow> popup_joinRoom S m r = (m, []))
       \<and> (trim S r \<noteq> [] \<longrightarrow>
            popup_joinRoom S m r = joinRoom m (toUpperCase S (trim S r)))"
proof -
  let ?R = "toUpperCase S (trim S r1)"
  note r2 = assms(4)
  have a: "client_to_server ready wA (s, conn_init) (snd (popup_joinRoom S mA r1))
           = on_message ready wA (s, conn_init) (Join ?R (peerId mA) (peerName mA))"
    using popup_joinRoom_sends [OF assms(1,3)] by (rule client_to_server_one)
  let ?sA = "fst (fst (on_message ready wA (s, conn_init) (Join ?R (peerId mA) (peerName mA))))"
  have b: "client_to_server ready wB (?sA, conn_init) (snd (popup_joinRoom S mB r2))
           = on_message ready wB (?sA, conn_init) (Join ?R (peerId mB) (peerName mB))"
    using popup_joinRoom_sends [OF assms(2) r2] assms(5) by (intro client_to_server_one) simp
  have mA: "members_of (rooms ?sA) ?R
            = members_of (rooms s) ?R
              @ [\<lparr>pi_obj = nextObj s, pi_ws = wA, pi_peerId = peerId mA, pi_peerName = peerName mA\<rparr>]"
    by (rule members_after_join_fresh)
  have mB: "members_of (rooms (fst (fst (on_message ready wB (?sA, conn_init)
                                           (Join ?R (peerId mB) (peerName mB)))))) ?R
            = members_of (rooms ?sA) ?R
              @ [\<lparr>pi_obj = nextObj ?sA, pi_ws = wB, pi_peerId = peerId mB, pi_peerName = peerName mB\<rparr>]"
    by (rule members_after_join_fresh)
  have out: "snd (on_message ready wB (?sA, conn_init) (Join ?R (peerId mB) (peerName mB)))
             = (wB, RoomJoined ?R (map (\<lambda>q. (pi_peerId q, pi_peerName q)) (members_of (rooms ?sA) ?R)))
               # broadcastToRoom ready (rooms ?sA) ?R (PeerJoined (peerId mB) (peerName mB)) (Some wB)"
    by (simp add: join_fresh)
  show ?thesis
    unfolding a b by (simp only: out mB mA) (simp add: popup_joinRoom_def)
qed

theorem popup_joins_meet_in_upper_cased_room_witness:
  "ws ex_mesh = Some True \<and> ws ex_mesh_b = Some True
   \<and> trim ascii_strings ''ABCD'' \<noteq> [] \<and> trim ascii_strings '' abcd '' \<noteq> []
   \<and> toUpperCase ascii_strings (trim ascii_strings ''ABCD'')
       = toUpperCase ascii_strings (trim ascii_strings '' abcd '')
   \<and> snd (client_to_server (\<lambda>w. True) 2
            (fst (fst (client_to_server (\<lambda>w. True) 1 (server_init, conn_init)
                         (snd (popup_joinRoom ascii_strings ex_mesh ''ABCD'')))),
             conn_init)
            (snd (popup_joinRoom ascii_strings ex_mesh_b '' abcd '')))
       = [(2, RoomJoined ''ABCD'' [(''me'', ''Me'')]), (1, PeerJoined ''b'' ''Bob'')]
   \<and> trim ascii_strings ''  '' = [] \<and> popup_joinRoom ascii_strings ex_mesh ''  '' = (ex_mesh, [])"
proof -
  have w: "ws ex_mesh = Some True" "ws ex_mesh_b = Some True"
    by (simp_all add: ex_mesh_def ex_mesh_b_def)
  have t: "trim ascii_strings ''ABCD'' = ''ABCD''" "trim ascii_strings '' abcd '' = ''abcd''"
    by (simp_all add: ascii_strings_def ascii_space_def)
  have u: "toUpperCase ascii_strings ''ABCD'' = ''ABCD''" "toUpperCase ascii_strings ''abcd'' = ''ABCD''"
    by code_simp+
  have pre: "trim ascii_strings ''ABCD'' \<noteq> []" "trim ascii_strings '' abcd '' \<noteq> []"
    "toUpperCase ascii_strings (trim ascii_strings ''ABCD'')
       = toUpperCase ascii_strings (trim ascii_strings '' abcd '')"
    by (simp_all add: t u)
  have ids: "peerId ex_mesh = ''me''" "peerName ex_mesh = ''Me''"
    "peerId ex_mesh_b = ''b''" "peerName ex_mesh_b = ''Bob''"
    by (simp_all add: ex_mesh_def ex_mesh_b_def new_MeshPeerManager_def)
  have a: "client_to_server (\<lambda>w. True) (Suc 0) (server_init, conn_init)
             (snd (popup_joinRoom ascii_strings ex_mesh ''ABCD''))
           = ((\<lparr>rooms = [(''ABCD'', [\<lparr>pi_obj = 0, pi_ws = 1, pi_peerId = ''me'', pi_peerName = ''Me''\<rparr>])],
                nextObj = 1\<rparr>,
               \<lparr>currentRoom = Some ''ABCD'',
                peerInfo = Some \<lparr>pi_obj = 0, pi_ws = 1, pi_peerId = ''me'', pi_peerName = ''Me''\<rparr>\<rparr>),
              [(1, RoomJoined ''ABCD'' [])])"
    by (simp add: client_to_server_def wire_def popup_joinRoom_def joinRoom_def send_def t u w ids
        join_case_def leave_current_def server_init_def conn_init_def map_has_def
        broadcastToRoom_def Let_def)
  have si: "members_of (rooms server_init) ''ABCD'' = []"
    by (simp add: members_of_def server_init_def)
  have e: "trim ascii_strings ''  '' = []"
    by (simp add: ascii_strings_def ascii_space_def)
  show ?thesis
    using popup_joins_meet_in_upper_cased_room
      [OF w pre, of "\<lambda>w. True" 2 1 server_init "''  ''" ex_mesh]
    by (simp add: w pre t u ids a si e broadcastToRoom_def)
qed

text \<open>
  C7 as stated fails: a \<open>joinRoom\<close> for \<open>ABCD\<close> followed by a \<open>joinRoom\<close> for
  \<open>abcd\<close> leaves two rooms with one member each, and the second joiner's reply lists
  nobody.
\<close>

theorem joins_differing_in_case_counterexample:
  "client_to_server (\<lambda>w. True) 1 (server_init, conn_init) (snd (joinRoom ex_mesh ''ABCD''))
     = ((\<lparr>rooms = [(''ABCD'', [\<lparr>pi_obj = 0, pi_ws = 1, pi_peerId = ''me'', pi_peerName = ''Me''\<rparr>])],
          nextObj = 1\<rparr>,
         \<lparr>currentRoom = Some ''ABCD'',
          peerInfo = Some \<lparr>pi_obj = 0, pi_ws = 1, pi_peerId = ''me'', pi_peerName = ''Me''\<rparr>\<rparr>),
        [(1, RoomJoined ''ABCD'' [])])
   \<and> client_to_server (\<lambda>w. True) 2
        (\<lparr>rooms = [(''ABCD'', [\<lparr>pi_obj = 0, pi_ws = 1, pi_peerId = ''me'', pi_peerName = ''Me''\<rparr>])],
          nextObj = 1\<rparr>, conn_init)
        (snd (joinRoom ex_mesh_b ''abcd''))
     = ((\<lparr>rooms = [(''ABCD'', [\<lparr>pi_obj = 0, pi_ws = 1, pi_peerId = ''me'', pi_peerName = ''Me''\<rparr>]),
                   (''abcd'', [\<lparr>pi_obj = 1, pi_ws = 2, pi_peerId = ''b'', pi_peerName = ''Bob''\<rparr>])],
          nextObj = 2\<rparr>,
         \<lparr>currentRoom = Some ''abcd'',
          peerInfo = Some \<lparr>pi_obj = 1, pi_ws = 2, pi_peerId = ''b'', pi_peerName = ''Bob''\<rparr>\<rparr>),
        [(2, RoomJoined ''abcd'' [])])"
  by (simp add: client_to_server_def wire_def joinRoom_def send_def ex_mesh_def ex_mesh_b_def
      new_MeshPeerManager_def join_case_def leave_current_def server_init_def conn_init_def
      map_has_def broadcastToRoom_def Let_def)

subsection \<open>The local-broadcast manager and its own id\<close>

lemma createConnection_frame:
  "createConnection E m rid rname b = (m1, p, e) \<Longrightarrow>
   l_peerId m1 = l_peerId m \<and> l_peerName m1 = l_peerName m
   \<and> (k \<noteq> rid \<longrightarrow> map_of (l_peers m1) k = map_of (l_peers m) k)"
  by (auto simp: createConnection_def Let_def map_of_map_set split: if_splits)

lemma l_handleOffer_frame:
  "l_peerId (fst (l_handleOffer E m f n offer)) = l_peerId m
   \<and> (k \<noteq> f \<longrightarrow> map_of (l_peers (fst (l_handleOffer E m f n offer))) k = map_of (l_peers m) k)"
proof (cases "map_of (l_peers m) f")
  case None
  obtain m1 p e where c: "createConnection E m f n False = (m1, p, e)"
    by (metis prod_cases3)
  show ?thesis
    using createConnection_frame [OF c, of k] None
    by (simp add: l_handleOffer_def Let_def c map_of_map_set)
next
  case (Some q)
  then show ?thesis
    by (simp add: l_handleOffer_def Let_def map_of_map_set)
qed

lemma l_handleAnswer_frame:
  "l_peerId (l_handleAnswer m f answer) = l_peerId m
   \<and> (k \<noteq> f \<longrightarrow> map_of (l_peers (l_handleAnswer m f answer)) k = map_of (l_peers m) k)"
  by (simp add: l_handleAnswer_def map_of_map_set split: option.splits)

lemma l_handleIceCandidate_frame:
  "l_peerId (l_handleIceCandidate m f c) = l_peerId m
   \<and> (k \<noteq> f \<longrightarrow> map_of (l_peers (l_handleIceCandidate m f c)) k = map_of (l_peers m) k)"
  by (simp add: l_handleIceCandidate_def map_of_map_set split: option.splits)

lemma l_removePeer_frame:
  "l_peerId (fst (l_removePeer m rid)) = l_peerId m
   \<and> (k \<noteq> rid \<longrightarrow> map_of (l_peers (fst (l_removePeer m rid))) k = map_of (l_peers m) k)"
  by (simp add: l_removePeer_def Let_def map_of_map_delete split: option.splits)

lemma l_handleSignal_own_record:
  assumes "signal_from x \<noteq> Some (l_peerId m)"
  shows "l_peerId (fst (l_handleSignal E m x)) = l_peerId m
       \<and> map_of (l_peers (fst (l_handleSignal E m x))) (l_peerId m) = map_of (l_peers m) (l_peerId m)"
proof (cases x)
  case (Offer f fn to offer)
  then have "f \<noteq> l_peerId m" using assms by (simp add: signal_from_def)
  then show ?thesis
    using l_handleOffer_frame [of E m f fn offer "l_peerId m"] Offer by simp
next
  case (Answer f fn to answer)
  then have "f \<noteq> l_peerId m" using assms by (simp add: signal_from_def)
  then show ?thesis
    using l_handleAnswer_frame [of m f answer "l_peerId m"] Answer by simp
next
  case (IceCandidate f to cand)
  then have "f \<noteq> l_peerId m" using assms by (simp add: signal_from_def)
  then show ?thesis
    using l_handleIceCandidate_frame [of m f cand "l_peerId m"] IceCandidate by simp
next
  case (Announce pid pname)
  obtain m1 p e where c: "createConnection E m pid pname True = (m1, p, e)"
    by (metis prod_cases3)
  show ?thesis
    using createConnection_frame [OF c, of "l_peerId m"] Announce by (auto simp: c)
next
  case (Leave pid)
  then show ?thesis
    using l_removePeer_frame [of m pid "l_peerId m"] by simp
qed simp_all

text \<open>
  C10, as amended. A signal whose \<open>from\<close> field is not the manager's own id never
  creates or alters a record keyed by the manager's own id. An \<open>announce\<close> or \<open>leave\<close>
  carrying the own id is ignored, and an \<open>offer\<close>, \<open>answer\<close> or \<open>ice-candidate\<close>
  whose \<open>to\<close> names another peer leaves the manager as it is.
\<close>

theorem own_record_untouched_by_foreign_signals:
  assumes "signal_from x \<noteq> Some (l_peerId m)"
  shows "l_peerId (fst (l_handleSignal E m x)) = l_peerId m
       \<and> map_of (l_peers (fst (l_handleSignal E m x))) (l_peerId m) = map_of (l_peers m) (l_peerId m)
       \<and> l_handleSignal E m (Announce (l_peerId m) n) = (m, [])
       \<and> l_handleSignal E m (Leave (l_peerId m)) = (m, [])
       \<and> (to \<noteq> l_peerId m \<longrightarrow>
            l_handleSignal E m (Offer f fn to d) = (m, [])
          \<and> l_handleSignal E m (Answer f fn to d) = (m, [])
          \<and> l_handleSignal E m (IceCandidate f to c) = (m, []))"
  using l_handleSignal_own_record [OF assms, of E] by simp

theorem own_record_untouched_by_foreign_signals_witness:
  "signal_from (Offer ''x'' ''Xi'' ''me'' ''o'') \<noteq> Some (l_peerId ex_local)
   \<and> map_of (l_peers (fst (l_handleSignal ex_prim ex_local (Offer ''x'' ''Xi'' ''me'' ''o'')))) ''me'' = None
   \<and> map_option (\<lambda>p. remoteDescription (connection p))
        (map_of (l_peers (fst (l_handleSignal ex_prim ex_local (Offer ''x'' ''Xi'' ''me'' ''o'')))) ''x'')
       = Some (Some ''o'')
   \<and> l_handleSignal ex_prim ex_local (Announce ''me'' ''Me'') = (ex_local, [])
   \<and> l_handleSignal ex_prim ex_local (Offer ''x'' ''Xi'' ''y'' ''o'') = (ex_local, [])"
proof -
  have i: "l_peerId ex_local = ''me''" "map_of (l_peers ex_local) ''me'' = None"
    by (simp_all add: ex_local_def)
  have pre: "signal_from (Offer ''x'' ''Xi'' ''me'' ''o'') \<noteq> Some (l_peerId ex_local)"
    by (simp add: signal_from_def i)
  have x: "map_option (\<lambda>p. remoteDescription (connection p))
        (map_of (l_peers (fst (l_handleOffer ex_prim ex_local ''x'' ''Xi'' ''o''))) ''x'')
       = Some (Some ''o'')"
    by (simp add: ex_local_def l_handleOffer_def Let_def setRemoteDescription_def
        setLocalDescription_def)
  show ?thesis
    using own_record_untouched_by_foreign_signals
      [OF pre, of ex_prim "''Me''" "''y''" "''x''" "''Xi''" "''o''" "''c''"]
    by (simp add: i x) (simp add: signal_from_def)
qed

text \<open>
  C10 as stated fails: an \<open>offer\<close> whose \<open>from\<close> and \<open>to\<close> are both the manager's
  own id creates a record under that id.
\<close>

theorem offer_from_own_id_counterexample:
  "map_of (l_peers ex_local) (l_peerId ex_local) = None
   \<and> map_of (l_peers (fst (l_handleSignal ex_prim ex_local (Offer ''me'' ''Me'' ''me'' ''o''))))
       (l_peerId ex_local)
     = Some \<lparr>l_id = ''me'', l_name = ''Me'',
             connection = \<lparr>localDescription = Some ''answer-to-o'', remoteDescription = Some ''o'',
                            iceCandidates = []\<rparr>,
             l_channel = None, l_connected = False\<rparr>"
  by (simp add: ex_local_def ex_prim_def l_handleOffer_def createConnection_def Let_def
      setRemoteDescription_def setLocalDescription_def new_RTCPeerConnection_def)

end
